(* ===== verification/Prelude.thy ===== *)
theory Prelude
  imports Complex_Main
begin

text \<open>
  Shared vocabulary of the Lumi development: the slide type that all three screens
  exchange, the named theorem collections the component theories fill, and small
  facts on natural-number indices and lists that the handler proofs share.
\<close>

section \<open>Shared types\<close>

text \<open>A slide is one image reference (\<open>type Slide = { uri: string }\<close> in
  \<open>src/slideshow.tsx\<close> and, through \<open>lib/analyzeRecap\<close>, in \<open>src/upload.tsx\<close>).\<close>

type_synonym image_uri = string

record slide =
  uri :: image_uri

text \<open>Slide positions: JavaScript numbers that the code only ever sets to \<open>0\<close>,
  increments, or decrements behind an \<open>=== 0\<close> test, so they stay natural numbers.\<close>

type_synonym index = nat

section \<open>Number formatting\<close>

text \<open>\<open>String(n)\<close> of a natural number, as a template literal or string
  concatenation prints it (\<open>sceneNumberLabel\<close> in \<open>src/slideshow.tsx\<close>, the
  thumbnail keys in \<open>src/upload.tsx\<close>).\<close>

fun decimal :: "nat \<Rightarrow> string" where
  "decimal n = (if n < 10 then [char_of (48 + n)] else decimal (n div 10) @ [char_of (48 + n mod 10)])"

declare decimal.simps [simp del]

text \<open>A reference reader for decimal digits, to state what a printed number means.\<close>

definition read_decimal :: "string \<Rightarrow> nat" where
  "read_decimal cs = foldl (\<lambda>acc c. 10 * acc + (of_char c - 48)) 0 cs"

text \<open>An ASCII decimal digit.\<close>

definition is_digit :: "char \<Rightarrow> bool" where
  "is_digit c \<longleftrightarrow> 48 \<le> (of_char c :: nat) \<and> (of_char c :: nat) \<le> 57"

section \<open>Theorem collections\<close>

text \<open>\<open>handler_defs\<close> collects the definitions of the event handlers of a screen, so
  that a proof about an event unfolds exactly the handler it runs;
  \<open>inv_defs\<close> collects the definitions of the invariants.\<close>

named_theorems handler_defs
named_theorems inv_defs

section \<open>Index arithmetic shared by the navigation handlers\<close>

text \<open>A successor index that is not past the last slide stays on a slide.\<close>

lemma succ_lt_of_ne_last: "i < (n::nat) \<Longrightarrow> i \<noteq> n - 1 \<Longrightarrow> i + 1 < n"
  by arith

section \<open>Decimal numbers\<close>

lemma of_char_digit: "d < 10 \<Longrightarrow> (of_char (char_of (48 + d)) :: nat) = 48 + d"
  by (simp add: of_char_of)

lemma read_decimal_decimal: "read_decimal (decimal n) = n"
proof (induction n rule: decimal.induct)
  case (1 n)
  show ?case
  proof (cases "n < 10")
    case True
    then show ?thesis by (simp add: decimal.simps [of n] read_decimal_def of_char_digit)
  next
    case False
    then have "read_decimal (decimal n) = 10 * read_decimal (decimal (n div 10)) + n mod 10"
      by (simp add: decimal.simps [of n] read_decimal_def of_char_digit)
    with "1" False show ?thesis by simp
  qed
qed

lemma decimal_nonempty: "decimal n \<noteq> []"
  by (simp add: decimal.simps [of n])

lemma decimal_digits: "\<forall>c \<in> set (decimal n). is_digit c"
proof (induction n rule: decimal.induct)
  case (1 n)
  have "n mod 10 < 10" by simp
  then show ?case
    using "1" by (auto simp: decimal.simps [of n] is_digit_def of_char_digit)
qed

lemma decimal_ten_plus: "i < 10 \<Longrightarrow> decimal (10 + i) = CHR ''1'' # decimal i"
proof -
  assume "i < 10"
  moreover have "char_of (49::nat) = CHR ''1''" by code_simp
  ultimately show ?thesis
    by (simp add: decimal.simps [of "10 + i"] decimal.simps [of i] decimal.simps [of "Suc 0"])
qed

lemma decimal_inj: "decimal i = decimal j \<Longrightarrow> i = j"
  by (metis read_decimal_decimal)

text \<open>A string that does not end in a digit, followed by digits, splits in one way
  only.\<close>

lemma digit_suffix_unique:
  assumes "\<forall>c \<in> set ds. is_digit c" and "\<forall>c \<in> set es. is_digit c"
    and "xs = [] \<or> \<not> is_digit (last xs)" and "ys = [] \<or> \<not> is_digit (last ys)"
    and eq: "xs @ ds = ys @ es"
  shows "ds = es \<and> xs = ys"
proof -
  have tw: "takeWhile is_digit (rev zs) = []" if "zs = [] \<or> \<not> is_digit (last zs)" for zs
    using that by (cases zs rule: rev_cases) simp_all
  have "takeWhile is_digit (rev (xs @ ds)) = rev ds"
    using assms(1) tw [OF assms(3)] by (subst rev_append, subst takeWhile_append2) auto
  moreover have "takeWhile is_digit (rev (ys @ es)) = rev es"
    using assms(2) tw [OF assms(4)] by (subst rev_append, subst takeWhile_append2) auto
  ultimately have "ds = es" using eq by simp
  with eq show ?thesis by simp
qed

end
