(* ===== verification/Player.thy ===== *)
theory Player
  imports Prelude
begin

text \<open>
  The playback state machine of the slideshow screen (\<open>SlideshowScreen\<close> in
  \<open>src/slideshow.tsx\<close>): the four \<open>useState\<close> hooks, the auto-advance interval
  armed by the second \<open>useEffect\<close>, and the handlers \<open>goNext\<close>, \<open>goPrev\<close>,
  \<open>handleStartRecap\<close>, \<open>handleReplay\<close> and the play/pause button. The number of
  slides \<open>n\<close> is fixed for a session (the navigation payload is read once), so every
  operation takes it as a parameter. Each user event runs its handler, React renders
  once with the batched updates, and the interval effect is re-run when one of its
  dependencies changed: \<open>player_step\<close> composes these in that order. Time is
  explicit: the state records how many milliseconds the armed interval still waits,
  and \<open>elapse\<close> lets time pass, firing the interval callback whenever it is due.
\<close>

section \<open>State\<close>

definition SLIDE_DURATION_MS :: nat where
  "SLIDE_DURATION_MS = 2500"

text \<open>\<open>timer\<close> is the interval handle of the effect: \<open>None\<close> when no interval is
  armed, \<open>Some r\<close> when one is and fires in \<open>r\<close> ms.\<close>

record player =
  currentIndex :: index
  isPlaying :: bool
  showIntro :: bool
  showOutro :: bool
  timer :: "nat option"

section \<open>The auto-advance effect\<close>

text \<open>The guard of the effect: it arms an interval unless it returns early.\<close>

definition timer_armed :: "nat \<Rightarrow> player \<Rightarrow> bool" where
  "timer_armed n s \<longleftrightarrow> isPlaying s \<and> n \<noteq> 0 \<and> \<not> showIntro s \<and> \<not> showOutro s"

text \<open>Its dependency array \<open>[isPlaying, slides.length, showIntro, showOutro]\<close>;
  \<open>slides.length\<close> is constant over a session.\<close>

definition effect_deps :: "player \<Rightarrow> bool \<times> bool \<times> bool" where
  "effect_deps s = (isPlaying s, showIntro s, showOutro s)"

text \<open>After a render, React re-runs the effect iff a dependency changed: the cleanup
  clears the old interval and the body arms a fresh one with a full period when its
  guard holds. Otherwise the old interval keeps running with its phase.\<close>

definition sync_interval :: "nat \<Rightarrow> player \<Rightarrow> player \<Rightarrow> player" where
  "sync_interval n old new =
     (if effect_deps new = effect_deps old then new
      else new\<lparr>timer := (if timer_armed n new then Some SLIDE_DURATION_MS else None)\<rparr>)"

text \<open>Initial state: \<open>useState(0)\<close>, \<open>useState(true)\<close>, \<open>useState(true)\<close>,
  \<open>useState(false)\<close>; the mount run of the effect returns early (intro is shown).\<close>

definition player_init :: "nat \<Rightarrow> player" where
  "player_init n =
     (let s = \<lparr>currentIndex = 0, isPlaying = True, showIntro = True, showOutro = False,
               timer = None\<rparr>
      in s\<lparr>timer := (if timer_armed n s then Some SLIDE_DURATION_MS else None)\<rparr>)"

text \<open>The interval callback: the functional update of \<open>currentIndex\<close> that stops at
  the last slide and shows the outro.\<close>

definition intervalTick :: "nat \<Rightarrow> player \<Rightarrow> player" where
  "intervalTick n s =
     (if currentIndex s = n - 1 then s\<lparr>isPlaying := False, showOutro := True\<rparr>
      else s\<lparr>currentIndex := currentIndex s + 1\<rparr>)"

section \<open>Handlers\<close>

definition goNext :: "nat \<Rightarrow> player \<Rightarrow> player" where
  "goNext n s =
     (if n = 0 then s
      else if currentIndex s = n - 1 then s\<lparr>isPlaying := False, showOutro := True\<rparr>
      else s\<lparr>showOutro := False, currentIndex := min (currentIndex s + 1) (n - 1)\<rparr>)"

text \<open>The functional updater of \<open>goPrev\<close> on the JavaScript number,
  \<open>(prev) => (prev === 0 ? 0 : prev - 1)\<close>. The index is stored as a natural number;
  the claims show that the updater's value is never negative, so storing it loses
  nothing.\<close>

definition prevIndex :: "int \<Rightarrow> int" where
  "prevIndex prev = (if prev = 0 then 0 else prev - 1)"

definition goPrev :: "nat \<Rightarrow> player \<Rightarrow> player" where
  "goPrev n s =
     (if n = 0 then s
      else s\<lparr>showOutro := False, currentIndex := nat (prevIndex (int (currentIndex s)))\<rparr>)"

definition handleStartRecap :: "nat \<Rightarrow> player \<Rightarrow> player" where
  "handleStartRecap n s =
     (if n = 0 then s
      else s\<lparr>showIntro := False, showOutro := False, currentIndex := 0, isPlaying := True\<rparr>)"

definition handleReplay :: "nat \<Rightarrow> player \<Rightarrow> player" where
  "handleReplay n s =
     (if n = 0 then s
      else s\<lparr>showOutro := False, currentIndex := 0, isPlaying := True\<rparr>)"

text \<open>The \<open>onPress\<close> of the header's play/pause button.\<close>

definition pressPlayPause :: "nat \<Rightarrow> player \<Rightarrow> player" where
  "pressPlayPause n s =
     (if showIntro s then handleStartRecap n s
      else if showOutro s then handleReplay n s
      else s\<lparr>isPlaying := \<not> isPlaying s\<rparr>)"

declare goNext_def [handler_defs] goPrev_def [handler_defs]
  handleStartRecap_def [handler_defs] handleReplay_def [handler_defs]
  pressPlayPause_def [handler_defs] intervalTick_def [handler_defs]

section \<open>Events and steps\<close>

text \<open>The events the screen reacts to: the two tap zones, the header button, the
  intro's and the outro's buttons, the share buttons, and time passing.\<close>

datatype player_event =
  TapPrev | TapNext | PressPlayPause | PressStartRecap | PressReplay | PressShare
| Elapse nat

text \<open>A firing of the interval: \<open>setInterval\<close> schedules its next firing a full
  period later, then the callback's updates are rendered and the effect re-synced.\<close>

definition fire :: "nat \<Rightarrow> player \<Rightarrow> player" where
  "fire n s =
     (let s1 = s\<lparr>timer := Some SLIDE_DURATION_MS\<rparr> in sync_interval n s1 (intervalTick n s1))"

text \<open>Time passing by \<open>d\<close> ms. Termination: either \<open>d\<close> drops by the positive
  remaining wait, or the wait was already zero and the firing re-arms with a full
  period or disarms.\<close>

function elapse :: "nat \<Rightarrow> nat \<Rightarrow> player \<Rightarrow> player" where
  "elapse n d s =
     (case timer s of
        None \<Rightarrow> s
      | Some r \<Rightarrow>
          if d < r then s\<lparr>timer := Some (r - d)\<rparr>
          else elapse n (d - r) (fire n s))"
  by pat_completeness auto
termination
proof (relation "measure (\<lambda>(n, d, s). 2 * d + (if timer s = Some 0 then 1 else 0))")
  show "wf (measure (\<lambda>(n, d, s). 2 * d + (if timer s = Some 0 then 1 else 0)))" by simp
next
  fix n d r and s :: player
  assume "timer s = Some r" and "\<not> d < r"
  show "((n, d - r, fire n s), n, d, s)
               \<in> measure (\<lambda>(n, d, s). 2 * d + (if timer s = Some 0 then 1 else 0))"
  proof -
    have "timer (fire n s) \<noteq> Some 0"
      by (simp add: fire_def sync_interval_def intervalTick_def SLIDE_DURATION_MS_def Let_def)
    with \<open>timer s = Some r\<close> \<open>\<not> d < r\<close> show ?thesis by auto
  qed
qed

declare elapse.simps [simp del]

definition player_step :: "nat \<Rightarrow> player \<Rightarrow> player_event \<Rightarrow> player" where
  "player_step n s e =
     (case e of
        TapPrev \<Rightarrow> sync_interval n s (goPrev n s)
      | TapNext \<Rightarrow> sync_interval n s (goNext n s)
      | PressPlayPause \<Rightarrow> sync_interval n s (pressPlayPause n s)
      | PressStartRecap \<Rightarrow> sync_interval n s (handleStartRecap n s)
      | PressReplay \<Rightarrow> sync_interval n s (handleReplay n s)
      | PressShare \<Rightarrow> s
      | Elapse d \<Rightarrow> elapse n d s)"

fun player_run :: "nat \<Rightarrow> player \<Rightarrow> player_event list \<Rightarrow> player" where
  "player_run n s [] = s"
| "player_run n s (e # es) = player_run n (player_step n s e) es"

section \<open>Invariant\<close>

text \<open>The index stays on a slide (and at \<open>0\<close> when there are none); an interval
  is armed exactly when the effect's guard holds, and it waits at most one period;
  the outro is only shown at the last slide, with playback stopped.\<close>

definition index_ok :: "nat \<Rightarrow> player \<Rightarrow> bool" where
  "index_ok n s \<longleftrightarrow> (if n = 0 then currentIndex s = 0 else currentIndex s < n)"

definition timer_ok :: "nat \<Rightarrow> player \<Rightarrow> bool" where
  "timer_ok n s \<longleftrightarrow>
     (case timer s of
        None \<Rightarrow> \<not> timer_armed n s
      | Some r \<Rightarrow> timer_armed n s \<and> 0 < r \<and> r \<le> SLIDE_DURATION_MS)"

definition outro_ok :: "nat \<Rightarrow> player \<Rightarrow> bool" where
  "outro_ok n s \<longleftrightarrow> (showOutro s \<longrightarrow> currentIndex s = n - 1 \<and> \<not> isPlaying s)"

definition player_inv :: "nat \<Rightarrow> player \<Rightarrow> bool" where
  "player_inv n s \<longleftrightarrow> index_ok n s \<and> timer_ok n s \<and> outro_ok n s"

declare index_ok_def [inv_defs] timer_ok_def [inv_defs] outro_ok_def [inv_defs]
  player_inv_def [inv_defs]

section \<open>The backward updater\<close>

lemma prevIndex_nat [simp]: "nat (prevIndex (int i)) = (if i = 0 then 0 else i - 1)"
  by (cases i) (simp_all add: prevIndex_def)

section \<open>The effect re-sync\<close>

lemma sync_interval_fields [simp]:
  "currentIndex (sync_interval n old new) = currentIndex new"
  "isPlaying (sync_interval n old new) = isPlaying new"
  "showIntro (sync_interval n old new) = showIntro new"
  "showOutro (sync_interval n old new) = showOutro new"
  by (simp_all add: sync_interval_def)

lemma timer_armed_timer_upd [simp]: "timer_armed n (s\<lparr>timer := t\<rparr>) = timer_armed n s"
  by (simp add: timer_armed_def)

lemma timer_armed_deps:
  "effect_deps a = effect_deps b \<Longrightarrow> timer_armed n a = timer_armed n b"
  by (simp add: effect_deps_def timer_armed_def)

text \<open>A handler that leaves the interval handle alone keeps the timer invariant once
  the effect is re-synced: either no dependency changed and the guard is unchanged,
  or the effect re-armed according to the new guard.\<close>

lemma sync_interval_timer_ok:
  assumes "timer_ok n old" and "timer new = timer old"
  shows "timer_ok n (sync_interval n old new)"
proof (cases "effect_deps new = effect_deps old")
  case True
  then have "timer_armed n new = timer_armed n old" by (rule timer_armed_deps)
  with assms True show ?thesis
    by (simp add: sync_interval_def timer_ok_def split: option.splits)
next
  case False
  then show ?thesis
    by (simp add: sync_interval_def timer_ok_def SLIDE_DURATION_MS_def)
qed

lemma handlers_keep_timer [simp]:
  "timer (goNext n s) = timer s" "timer (goPrev n s) = timer s"
  "timer (handleStartRecap n s) = timer s" "timer (handleReplay n s) = timer s"
  "timer (pressPlayPause n s) = timer s"
  by (simp_all add: handler_defs)

section \<open>Each handler keeps the invariant\<close>

lemma handler_index_ok:
  "index_ok n s \<Longrightarrow> index_ok n (goNext n s)"
  "index_ok n s \<Longrightarrow> index_ok n (goPrev n s)"
  "index_ok n s \<Longrightarrow> index_ok n (handleStartRecap n s)"
  "index_ok n s \<Longrightarrow> index_ok n (handleReplay n s)"
  "index_ok n s \<Longrightarrow> index_ok n (pressPlayPause n s)"
  by (auto simp: handler_defs index_ok_def)

lemma handler_outro_ok:
  "outro_ok n s \<Longrightarrow> outro_ok n (goNext n s)"
  "outro_ok n s \<Longrightarrow> outro_ok n (goPrev n s)"
  "outro_ok n s \<Longrightarrow> outro_ok n (handleStartRecap n s)"
  "outro_ok n s \<Longrightarrow> outro_ok n (handleReplay n s)"
  "outro_ok n s \<Longrightarrow> outro_ok n (pressPlayPause n s)"
  by (auto simp: handler_defs outro_ok_def)

lemma sync_handler_inv:
  assumes "player_inv n s" and "index_ok n s \<Longrightarrow> index_ok n t"
    and "outro_ok n s \<Longrightarrow> outro_ok n t" and "timer t = timer s"
  shows "player_inv n (sync_interval n s t)"
  using assms sync_interval_timer_ok [of n s t]
  by (simp add: player_inv_def index_ok_def outro_ok_def)

text \<open>An interval firing from a state where it is armed.\<close>

lemma fire_inv:
  assumes inv: "player_inv n s" and tm: "timer s = Some r"
  shows "player_inv n (fire n s)"
proof -
  let ?s1 = "s\<lparr>timer := Some SLIDE_DURATION_MS\<rparr>"
  from inv tm have armed: "timer_armed n s" and idx: "currentIndex s < n"
    by (auto simp: player_inv_def timer_ok_def index_ok_def timer_armed_def)
  show ?thesis
  proof (cases "currentIndex s = n - 1")
    case True
    then show ?thesis using idx armed
      by (simp add: fire_def intervalTick_def sync_interval_def effect_deps_def Let_def
          player_inv_def index_ok_def timer_ok_def outro_ok_def timer_armed_def)
  next
    case False
    with idx have "currentIndex s + 1 < n" by (simp add: succ_lt_of_ne_last)
    with False armed show ?thesis
      by (simp add: fire_def intervalTick_def sync_interval_def effect_deps_def Let_def
          player_inv_def index_ok_def timer_ok_def outro_ok_def timer_armed_def
          SLIDE_DURATION_MS_def)
  qed
qed

lemma elapse_inv: "player_inv n s \<Longrightarrow> player_inv n (elapse n d s)"
proof (induction n d s rule: elapse.induct)
  case (1 n d s)
  show ?case
  proof (cases "timer s")
    case None
    then show ?thesis using "1.prems" by (simp add: elapse.simps)
  next
    case (Some r)
    show ?thesis
    proof (cases "d < r")
      case True
      with Some "1.prems" show ?thesis
        by (auto simp: elapse.simps player_inv_def index_ok_def outro_ok_def timer_ok_def
            timer_armed_def)
    next
      case False
      have "player_inv n (fire n s)" using "1.prems" Some by (rule fire_inv)
      with "1.IH" [OF Some False] Some False show ?thesis
        by (simp add: elapse.simps [of n d s])
    qed
  qed
qed

theorem player_step_inv: "player_inv n s \<Longrightarrow> player_inv n (player_step n s e)"
proof (cases e)
  case (Elapse d)
  then show "player_inv n s \<Longrightarrow> ?thesis" by (simp add: player_step_def elapse_inv)
qed (auto simp: player_step_def intro!: sync_handler_inv handler_index_ok handler_outro_ok)

lemma player_init_inv: "player_inv n (player_init n)"
  by (simp add: player_init_def player_inv_def index_ok_def timer_ok_def outro_ok_def
      timer_armed_def)

lemma player_run_inv: "player_inv n s \<Longrightarrow> player_inv n (player_run n s es)"
  by (induction es arbitrary: s) (simp_all add: player_step_inv)

lemma reachable_player_inv: "player_inv n (player_run n (player_init n) es)"
  by (rule player_run_inv [OF player_init_inv])

section \<open>Timing\<close>

lemma fire_advance:
  assumes "player_inv n s" and "timer s = Some r" and "currentIndex s + 1 < n"
  shows "fire n s = s\<lparr>currentIndex := currentIndex s + 1, timer := Some SLIDE_DURATION_MS\<rparr>"
  using assms by (simp add: fire_def Let_def intervalTick_def sync_interval_def effect_deps_def)

lemma fire_last:
  assumes "player_inv n s" and "timer s = Some r" and "currentIndex s = n - 1"
  shows "fire n s = s\<lparr>isPlaying := False, showOutro := True, timer := None\<rparr>"
  using assms
  by (simp add: fire_def Let_def intervalTick_def sync_interval_def effect_deps_def
      player_inv_def timer_ok_def timer_armed_def)

lemma elapse_below: "timer s = Some r \<Longrightarrow> d < r \<Longrightarrow> elapse n d s = s\<lparr>timer := Some (r - d)\<rparr>"
  by (simp add: elapse.simps)

lemma elapse_fire: "timer s = Some r \<Longrightarrow> r \<le> d \<Longrightarrow> elapse n d s = elapse n (d - r) (fire n s)"
  by (simp add: elapse.simps [of n d s])

text \<open>Auto-advance walks from the current slide to the outro: \<open>k\<close> full periods after
  the pending wait, \<open>k\<close> slides later.\<close>

lemma elapse_to_outro:
  "player_inv n s \<Longrightarrow> timer s = Some r \<Longrightarrow> currentIndex s + k = n - 1 \<Longrightarrow>
   elapse n (r + k * SLIDE_DURATION_MS) s = s\<lparr>currentIndex := n - 1, isPlaying := False, showOutro := True, timer := None\<rparr>"
proof (induction k arbitrary: s r)
  case 0
  then have "elapse n (r + 0 * SLIDE_DURATION_MS) s = elapse n 0 (fire n s)"
    by (simp add: elapse_fire)
  also have "\<dots> = fire n s"
    using "0" by (simp add: fire_last elapse.simps)
  finally show ?case using "0" by (simp add: fire_last)
next
  case (Suc k)
  from Suc.prems have idx: "currentIndex s + 1 < n" by (simp add: player_inv_def index_ok_def split: if_splits)
  let ?s' = "s\<lparr>currentIndex := currentIndex s + 1, timer := Some SLIDE_DURATION_MS\<rparr>"
  have f: "fire n s = ?s'" using Suc.prems(1,2) idx by (rule fire_advance)
  have inv': "player_inv n ?s'" using fire_inv [OF Suc.prems(1,2)] f by simp
  have "elapse n (r + Suc k * SLIDE_DURATION_MS) s = elapse n (SLIDE_DURATION_MS + k * SLIDE_DURATION_MS) ?s'"
    using Suc.prems(2) f by (simp add: elapse_fire algebra_simps)
  also have "\<dots> = ?s'\<lparr>currentIndex := n - 1, isPlaying := False, showOutro := True, timer := None\<rparr>"
    using Suc.IH [OF inv'] Suc.prems(3) by simp
  finally show ?case by simp
qed

lemma fire_index_mono: "player_inv n s \<Longrightarrow> timer s = Some r \<Longrightarrow> currentIndex s \<le> currentIndex (fire n s)"
  by (simp add: fire_def Let_def intervalTick_def sync_interval_def)

lemma elapse_index_mono: "player_inv n s \<Longrightarrow> currentIndex s \<le> currentIndex (elapse n d s)"
proof (induction n d s rule: elapse.induct)
  case (1 n d s)
  show ?case
  proof (cases "timer s")
    case None
    then show ?thesis by (simp add: elapse.simps)
  next
    case (Some r)
    show ?thesis
    proof (cases "d < r")
      case True
      with Some show ?thesis by (simp add: elapse_below)
    next
      case False
      have "currentIndex s \<le> currentIndex (fire n s)" using "1.prems" Some by (rule fire_index_mono)
      also have "\<dots> \<le> currentIndex (elapse n (d - r) (fire n s))"
        using "1.IH" [OF Some False fire_inv [OF "1.prems" Some]] .
      finally show ?thesis using Some False by (simp add: elapse_fire)
    qed
  qed
qed

lemma elapse_showIntro: "showIntro (elapse n d s) = showIntro s"
proof (induction n d s rule: elapse.induct)
  case (1 n d s)
  then show ?case
    by (auto simp: elapse.simps [of n d s] fire_def Let_def intervalTick_def sync_interval_def
        split: option.splits)
qed

lemma player_step_showIntro: "showIntro (player_step n s e) \<Longrightarrow> showIntro s"
  by (cases e) (auto simp: player_step_def handler_defs elapse_showIntro split: if_splits)

lemma elapse_partial:
  "player_inv n s \<Longrightarrow> timer s = Some r \<Longrightarrow> e < r \<Longrightarrow> currentIndex s + k < n \<Longrightarrow>
   elapse n (e + k * SLIDE_DURATION_MS) s = s\<lparr>currentIndex := currentIndex s + k, timer := Some (r - e)\<rparr>"
proof (induction k arbitrary: s r e)
  case 0
  then show ?case by (simp add: elapse_below)
next
  case (Suc k)
  from Suc.prems have rD: "r \<le> SLIDE_DURATION_MS"
    by (simp add: player_inv_def timer_ok_def)
  let ?s' = "s\<lparr>currentIndex := currentIndex s + 1, timer := Some SLIDE_DURATION_MS\<rparr>"
  have f: "fire n s = ?s'" using Suc.prems(1,2) by (rule fire_advance) (use Suc.prems(4) in simp)
  have inv': "player_inv n ?s'" using fire_inv [OF Suc.prems(1,2)] f by simp
  have "elapse n (e + Suc k * SLIDE_DURATION_MS) s
          = elapse n ((e + SLIDE_DURATION_MS - r) + k * SLIDE_DURATION_MS) ?s'"
    using Suc.prems(2,3) rD f by (simp add: elapse_fire algebra_simps)
  also have "\<dots> = ?s'\<lparr>currentIndex := currentIndex ?s' + k,
                      timer := Some (SLIDE_DURATION_MS - (e + SLIDE_DURATION_MS - r))\<rparr>"
    using Suc.prems(3,4) rD by (intro Suc.IH [OF inv']) simp_all
  finally show ?case using Suc.prems(3) rD by simp
qed

lemma started_state:
  "0 < n \<Longrightarrow> player_run n (player_init n) [PressStartRecap]
     = \<lparr>currentIndex = 0, isPlaying = True, showIntro = False, showOutro = False,
        timer = Some SLIDE_DURATION_MS\<rparr>"
  by (simp add: player_init_def player_step_def handleStartRecap_def sync_interval_def
      effect_deps_def timer_armed_def)

end
