(* ===== verification/Params.thy ===== *)
theory Params
  imports Prelude
begin

text \<open>
  The navigation contract between the upload screen and the slideshow screen: the
  \<open>params\<close> object that \<open>handleContinue\<close> of \<open>src/upload.tsx\<close> passes to
  \<open>router.push\<close>, and the decoding at the top of \<open>SlideshowScreen\<close> in
  \<open>src/slideshow.tsx\<close> (lines 22--51). A parameter is \<open>None\<close> when absent. The two
  list-valued parameters travel as JSON text; the model carries the lists themselves,
  i.e. it takes \<open>JSON.parse (JSON.stringify x) = x\<close> for lists of slides and of
  integers (a property of the JavaScript runtime, not of this repository).
\<close>

section \<open>Payload\<close>

record nav_params =
  p_slides :: "slide list option"
  p_caption :: "string option"
  p_title :: "string option"
  p_vibeKey :: "string option"
  p_vibeLabel :: "string option"
  p_emotion :: "string option"
  p_description :: "string option"
  p_highlights :: "int list option"

text \<open>What the slideshow works with after decoding.\<close>

record recap =
  slides :: "slide list"
  caption :: string
  title :: string
  vibeKey :: string
  vibeLabel :: string
  emotion :: string
  description :: string
  highlights :: "int list"

section \<open>Decoding\<close>

text \<open>\<open>p ? String(p) : d\<close>: an absent or empty string is falsy and gives the
  default.\<close>

definition param_or :: "string option \<Rightarrow> string \<Rightarrow> string" where
  "param_or p d = (case p of None \<Rightarrow> d | Some v \<Rightarrow> if v = [] then d else v)"

text \<open>\<open>p ? JSON.parse(String(p)) : []\<close>: the JSON text of a list is never empty, so
  only absence gives the default.\<close>

definition list_param :: "'a list option \<Rightarrow> 'a list" where
  "list_param p = (case p of None \<Rightarrow> [] | Some xs \<Rightarrow> xs)"

definition decode_params :: "nav_params \<Rightarrow> recap" where
  "decode_params p =
     \<lparr>slides = list_param (p_slides p),
      caption = param_or (p_caption p) [],
      title = param_or (p_title p) [],
      vibeKey = param_or (p_vibeKey p) ''default'',
      vibeLabel = param_or (p_vibeLabel p) [],
      emotion = param_or (p_emotion p) ''default'',
      description = param_or (p_description p) [],
      highlights = list_param (p_highlights p)\<rparr>"

section \<open>Decoding lemmas\<close>

lemma param_or_absent [simp]: "param_or None d = d"
  by (simp add: param_or_def)

lemma param_or_empty [simp]: "param_or (Some []) d = d"
  by (simp add: param_or_def)

lemma list_param_simps [simp]: "list_param None = []" "list_param (Some xs) = xs"
  by (simp_all add: list_param_def)

end
