(* ===== verification/Player_View.thy ===== *)
theory Player_View
  imports Player Params
begin

text \<open>
  What the slideshow screen shows for a player state, and which controls it offers:
  the values computed in the body of \<open>SlideshowScreen\<close> (\<open>isHighlight\<close>,
  \<open>progress\<close>, \<open>prettyEmotion\<close>, \<open>vibeAccent\<close>, \<open>getSceneType\<close>), the early
  return of the empty state, the overlays and their cards, the label of the header
  button, the progress bar, the share handler, the pressable controls of the rendered
  tree with their \<open>onPress\<close> events, and the events whose controls are reachable (the
  tap zones lie under the full-screen overlays, \<open>zIndex\<close> 3 against 4).
\<close>

section \<open>Derived values\<close>

definition sceneType :: "nat \<Rightarrow> index \<Rightarrow> string" where
  "sceneType n i =
     (let openingIndex = 0;
          closingIndex = (if 0 < n then n - 1 else 0);
          midIndex = (if 0 < n then n div 2 else 0)
      in if i = openingIndex then ''Opening scene''
         else if i = closingIndex then ''Closing scene''
         else if i = midIndex then ''Main energy''
         else ''Scene'')"

text \<open>\<open>(currentIndex + 1) / slides.length\<close>, as an exact rational.\<close>

definition progress :: "nat \<Rightarrow> index \<Rightarrow> rat" where
  "progress n i = (if 0 < n then of_nat (i + 1) / of_nat n else 0)"

definition isHighlight :: "int list \<Rightarrow> index \<Rightarrow> bool" where
  "isHighlight hs i \<longleftrightarrow> int i \<in> set hs"

definition vibeAccent :: "string \<Rightarrow> string" where
  "vibeAccent k =
     (if k = ''hype'' then ''#F97316''
      else if k = ''cozy'' then ''#FBBF24''
      else if k = ''travel'' then ''#22C55E''
      else if k = ''friends'' then ''#EC4899''
      else if k = ''chill'' then ''#38BDF8''
      else ''#A855F7'')"

text \<open>\<open>toUpperCase\<close> on one character, for the ASCII letters the analysis service
  returns as emotion labels.\<close>

definition toUpperChar :: "char \<Rightarrow> char" where
  "toUpperChar c =
     (let k = (of_char c :: nat) in if 97 \<le> k \<and> k \<le> 122 then char_of (k - 32) else c)"

definition prettyEmotion :: "string \<Rightarrow> string" where
  "prettyEmotion e =
     (if e \<noteq> [] \<and> e \<noteq> ''default''
      then (case e of [] \<Rightarrow> [] | c # cs \<Rightarrow> toUpperChar c # cs)
      else [])"

section \<open>Rendering\<close>

datatype overlay = IntroOverlay | OutroOverlay | NoOverlay

definition overlay_of :: "player \<Rightarrow> overlay" where
  "overlay_of s =
     (if showIntro s then IntroOverlay else if showOutro s then OutroOverlay else NoOverlay)"

definition playPauseLabel :: "player \<Rightarrow> string" where
  "playPauseLabel s =
     (if showIntro s then ''Start'' else if showOutro s then ''Replay''
      else if isPlaying s then ''Pause'' else ''Play'')"

definition sceneNumberLabel :: "nat \<Rightarrow> index \<Rightarrow> string" where
  "sceneNumberLabel n i = ''Scene '' @ decimal (i + 1) @ '' of '' @ decimal n"

text \<open>The typographic quotes around the title in the outro, as the UTF-8 bytes of
  U+201C and U+201D.\<close>

definition ldquo :: string where
  "ldquo = map char_of [226 :: nat, 128, 156]"

definition rdquo :: string where
  "rdquo = map char_of [226 :: nat, 128, 157]"

text \<open>The card of an overlay: its heading and its subtitle (lines 332--412).\<close>

definition introCard :: "recap \<Rightarrow> string \<times> string" where
  "introCard r =
     (''We cut your moments into a short movie.'',
      if caption r = []
      then ''We ordered your best scenes and built a quick recap you can watch like a movie.''
      else caption r)"

definition outroCard :: "recap \<Rightarrow> string \<times> string" where
  "outroCard r =
     (''Directed by you. Cut by Lumi.'',
      (if title r = [] then ''Your mini-movie just finished.''
       else ldquo @ title r @ rdquo @ '' just wrapped.'')
      @ '' '' @ ''Watch it again or share your favorite frame.'')"

definition overlayCard :: "recap \<Rightarrow> player \<Rightarrow> (string \<times> string) option" where
  "overlayCard r s =
     (case overlay_of s of
        IntroOverlay \<Rightarrow> Some (introCard r)
      | OutroOverlay \<Rightarrow> Some (outroCard r)
      | NoOverlay \<Rightarrow> None)"

text \<open>The width of the progress bar's fill, in percent of the track.\<close>

definition progressBarWidth :: "nat \<Rightarrow> index \<Rightarrow> rat" where
  "progressBarWidth n i = progress n i * 100"

record frame =
  f_uri :: image_uri
  f_headerTitle :: string
  f_sceneLabel :: string
  f_sceneType :: string
  f_highlight :: bool
  f_vibePill :: string
  f_emotionPill :: "string option"
  f_description :: string
  f_progress :: rat
  f_button :: string
  f_overlay :: overlay
  f_card :: "(string \<times> string) option"
  f_barWidth :: rat
  f_accent :: string

datatype screen_view = EmptyView | FrameView frame

definition render :: "recap \<Rightarrow> player \<Rightarrow> screen_view" where
  "render r s =
     (let n = length (slides r); i = currentIndex s
      in if n = 0 then EmptyView
         else FrameView
           \<lparr>f_uri = uri (slides r ! i),
            f_headerTitle = (if title r = [] then ''Your Life, As a Movie'' else title r),
            f_sceneLabel = sceneNumberLabel n i,
            f_sceneType = sceneType n i,
            f_highlight = isHighlight (highlights r) i,
            f_vibePill = (if vibeLabel r = [] then vibeKey r else vibeLabel r),
            f_emotionPill = (if prettyEmotion (emotion r) = [] then None
                             else Some (prettyEmotion (emotion r))),
            f_description = (if description r = []
                             then ''Turn your fun life moments into a mini-movie.''
                             else description r),
            f_progress = progress n i,
            f_button = playPauseLabel s,
            f_overlay = overlay_of s,
            f_card = overlayCard r s,
            f_barWidth = progressBarWidth n i,
            f_accent = vibeAccent (vibeKey r)\<rparr>)"

text \<open>\<open>handleShare\<close>: the image reference handed to \<open>Sharing.shareAsync\<close>, or
  nothing when \<open>slides[currentIndex]\<close> is undefined. A rejected share is caught and
  logged, so it never changes the state.\<close>

definition handleShare :: "slide list \<Rightarrow> player \<Rightarrow> image_uri option" where
  "handleShare ss s = (if currentIndex s < length ss then Some (uri (ss ! currentIndex s)) else None)"

section \<open>Controls offered by the rendered screen\<close>

text \<open>The empty state renders only a Back button (an app-level navigation), so no
  player event but the passing of time. Otherwise the header button and the footer's
  share button are always there, the tap zones only without an overlay, the intro's
  start button with the intro, the outro's replay button with the outro.\<close>

text \<open>Hit testing: the tap zones (\<open>tapZoneLeft\<close>, \<open>tapZoneRight\<close>) and the
  full-screen overlay (\<open>position: absolute\<close>, \<open>inset: 0\<close>) are siblings in the
  slideshow container; a touch goes to the one with the higher \<open>zIndex\<close>.\<close>

definition tapZone_zIndex :: int where
  "tapZone_zIndex = 3"

definition fullscreenOverlay_zIndex :: int where
  "fullscreenOverlay_zIndex = 4"

definition taps_reach_zones :: "player \<Rightarrow> bool" where
  "taps_reach_zones s \<longleftrightarrow> overlay_of s = NoOverlay \<or> tapZone_zIndex > fullscreenOverlay_zIndex"

text \<open>The pressable controls of the rendered tree: the header's close and play/pause
  buttons, the two tap zones, the intro's \<open>Play my recap\<close>, the outro's \<open>Watch
  again\<close> and \<open>Share moment\<close>, the footer's \<open>Share this recap\<close>; the empty state has
  only its \<open>Back\<close> button. Close and Back call \<open>router.back()\<close>, an event of the
  app, not of the player.\<close>

datatype control =
  CloseButton | PlayPauseButton | TapZones | PlayMyRecapButton | WatchAgainButton
| ShareMomentButton | ShareRecapButton | BackButton

definition header_controls :: "control list" where
  "header_controls = [CloseButton, PlayPauseButton]"

definition overlay_controls :: "player \<Rightarrow> control list" where
  "overlay_controls s =
     (if showIntro s then [PlayMyRecapButton] else [])
     @ (if showOutro s \<and> \<not> showIntro s then [WatchAgainButton, ShareMomentButton] else [])"

definition footer_controls :: "control list" where
  "footer_controls = [ShareRecapButton]"

definition rendered_controls :: "nat \<Rightarrow> player \<Rightarrow> control list" where
  "rendered_controls n s =
     (if n = 0 then [BackButton]
      else header_controls @ [TapZones] @ overlay_controls s @ footer_controls)"

text \<open>The player events a control's \<open>onPress\<close> runs; the tap zones only when a
  touch can reach them.\<close>

definition control_events :: "player \<Rightarrow> control \<Rightarrow> player_event list" where
  "control_events s c =
     (case c of
        PlayPauseButton \<Rightarrow> [PressPlayPause]
      | TapZones \<Rightarrow> (if taps_reach_zones s then [TapPrev, TapNext] else [])
      | PlayMyRecapButton \<Rightarrow> [PressStartRecap]
      | WatchAgainButton \<Rightarrow> [PressReplay]
      | ShareMomentButton \<Rightarrow> [PressShare]
      | ShareRecapButton \<Rightarrow> [PressShare]
      | _ \<Rightarrow> [])"

text \<open>The events a user can cause: the passing of time, and the events of the
  controls the screen renders.\<close>

definition player_enabled :: "nat \<Rightarrow> player \<Rightarrow> player_event \<Rightarrow> bool" where
  "player_enabled n s e =
     (case e of
        Elapse d \<Rightarrow> True
      | _ \<Rightarrow> e \<in> set (concat (map (control_events s) (rendered_controls n s))))"

fun enabled_run :: "nat \<Rightarrow> player \<Rightarrow> player_event list \<Rightarrow> bool" where
  "enabled_run n s [] = True"
| "enabled_run n s (e # es) = (player_enabled n s e \<and> enabled_run n (player_step n s e) es)"

section \<open>Well-formed frames\<close>

text \<open>What a rendered frame can show: an image of the recap, one of the four scene
  labels and the four button labels, one of the six accents, a progress ratio in
  \<open>(0, 1]\<close> whose bar is that many percent wide, a card exactly with an overlay,
  and no empty emotion pill.\<close>

definition frame_wf :: "recap \<Rightarrow> frame \<Rightarrow> bool" where
  "frame_wf r fr \<longleftrightarrow>
     f_uri fr \<in> set (map uri (slides r)) \<and>
     f_sceneType fr \<in> set [''Opening scene'', ''Closing scene'', ''Main energy'', ''Scene''] \<and>
     f_button fr \<in> set [''Start'', ''Replay'', ''Pause'', ''Play''] \<and>
     f_accent fr \<in> set [''#F97316'', ''#FBBF24'', ''#22C55E'', ''#EC4899'', ''#38BDF8'', ''#A855F7''] \<and>
     0 < f_progress fr \<and> f_progress fr \<le> 1 \<and> f_barWidth fr = f_progress fr * 100 \<and>
     (f_card fr = None \<longleftrightarrow> f_overlay fr = NoOverlay) \<and>
     f_emotionPill fr \<noteq> Some []"

section \<open>Lemmas\<close>

lemma taps_reach_zones_iff [simp]: "taps_reach_zones s \<longleftrightarrow> overlay_of s = NoOverlay"
  by (simp add: taps_reach_zones_def tapZone_zIndex_def fullscreenOverlay_zIndex_def)

text \<open>The events the rendered controls offer, event by event.\<close>

lemma player_enabled_iff:
  "player_enabled n s e =
     (case e of
        Elapse d \<Rightarrow> True
      | TapPrev \<Rightarrow> n \<noteq> 0 \<and> overlay_of s = NoOverlay
      | TapNext \<Rightarrow> n \<noteq> 0 \<and> overlay_of s = NoOverlay
      | PressStartRecap \<Rightarrow> n \<noteq> 0 \<and> overlay_of s = IntroOverlay
      | PressReplay \<Rightarrow> n \<noteq> 0 \<and> overlay_of s = OutroOverlay
      | PressPlayPause \<Rightarrow> n \<noteq> 0
      | PressShare \<Rightarrow> n \<noteq> 0)"
  by (cases e)
     (auto simp: player_enabled_def rendered_controls_def header_controls_def overlay_controls_def
        footer_controls_def control_events_def overlay_of_def)

lemma progress_in_unit: "i < n \<Longrightarrow> 0 < progress n i \<and> progress n i \<le> 1"
  by (simp add: progress_def)

lemma overlayCard_None: "overlayCard r s = None \<longleftrightarrow> overlay_of s = NoOverlay"
  by (simp add: overlayCard_def split: overlay.split)

lemma view_labels:
  "sceneType n i \<in> set [''Opening scene'', ''Closing scene'', ''Main energy'', ''Scene'']"
  "playPauseLabel s \<in> set [''Start'', ''Replay'', ''Pause'', ''Play'']"
  "vibeAccent k \<in> set [''#F97316'', ''#FBBF24'', ''#22C55E'', ''#EC4899'', ''#38BDF8'', ''#A855F7'']"
  by (simp_all add: sceneType_def playPauseLabel_def vibeAccent_def Let_def)

lemma progress_mono: "i \<le> j \<Longrightarrow> progress n i \<le> progress n j"
  by (simp add: progress_def divide_right_mono)

end
