(* ===== verification/Player_Spec.thy ===== *)
theory Player_Spec
  imports Player_View
begin

text \<open>
  The contract of the player: the transition table of the specification
  (section 4.1, \<open>Recap Player State Machine\<close>) as an abstract machine over a phase and
  an index, with \<open>None\<close> for a trigger the table does not define in a phase; the
  abstraction of a code state to that pair; the trace of table transitions a run of
  events determines (\<open>spec_trace\<close>: an offered event is its transition or none,
  letting time pass is one timer firing per firing of the interval, \<open>firings\<close>); and
  the simulation: the table, run on that trace, ends in the abstraction of the state
  the code reaches. The table's timer
  effects (\<open>timer re-armed\<close>) are not part of the abstract state; how the code's
  interval differs from them is stated in \<open>Spec2Isabelle\<close>.
\<close>

section \<open>The specified machine\<close>

datatype phase = Intro | Playing | Paused | Outro | Empty

datatype spec_event =
  UserStarts | TimerFires | UserPauses | UserResumes | UserForward | UserBackward
| UserReplays

type_synonym spec_state = "phase \<times> index"

fun spec_step :: "nat \<Rightarrow> spec_state \<Rightarrow> spec_event \<Rightarrow> spec_state option" where
  "spec_step n (Intro, i) UserStarts = Some (Playing, 0)"
| "spec_step n (Playing, i) TimerFires =
     (if i < n - 1 then Some (Playing, i + 1) else Some (Outro, i))"
| "spec_step n (Playing, i) UserPauses = Some (Paused, i)"
| "spec_step n (Playing, i) UserForward =
     (if i = n - 1 then Some (Outro, i) else Some (Playing, i + 1))"
| "spec_step n (Playing, i) UserBackward = Some (Playing, i - 1)"
| "spec_step n (Paused, i) UserResumes = Some (Playing, i)"
| "spec_step n (Paused, i) UserForward =
     (if i = n - 1 then Some (Outro, i) else Some (Paused, i + 1))"
| "spec_step n (Paused, i) UserBackward = Some (Paused, i - 1)"
| "spec_step n (Outro, i) UserReplays = Some (Playing, 0)"
| "spec_step n st a = None"

fun spec_run :: "nat \<Rightarrow> spec_state \<Rightarrow> spec_event list \<Rightarrow> spec_state option" where
  "spec_run n st [] = Some st"
| "spec_run n st (a # as) =
     (case spec_step n st a of None \<Rightarrow> None | Some st' \<Rightarrow> spec_run n st' as)"

section \<open>Abstraction of the code state\<close>

definition phase_of :: "nat \<Rightarrow> player \<Rightarrow> phase" where
  "phase_of n s =
     (if n = 0 then Empty else if showIntro s then Intro else if showOutro s then Outro
      else if isPlaying s then Playing else Paused)"

definition abs_state :: "nat \<Rightarrow> player \<Rightarrow> spec_state" where
  "abs_state n s = (phase_of n s, currentIndex s)"

text \<open>The trigger of the table a code event is, in the state it occurs in; \<open>None\<close>
  for sharing, which the table leaves out. Time passing is treated apart.\<close>

definition spec_event_of :: "player \<Rightarrow> player_event \<Rightarrow> spec_event option" where
  "spec_event_of s e =
     (case e of
        TapPrev \<Rightarrow> Some UserBackward
      | TapNext \<Rightarrow> Some UserForward
      | PressStartRecap \<Rightarrow> Some UserStarts
      | PressReplay \<Rightarrow> Some UserReplays
      | PressPlayPause \<Rightarrow>
          Some (if showIntro s then UserStarts else if showOutro s then UserReplays
                else if isPlaying s then UserPauses else UserResumes)
      | PressShare \<Rightarrow> None
      | Elapse d \<Rightarrow> None)"

text \<open>How many times the interval fires while \<open>d\<close> ms pass (the recursion of
  \<open>elapse\<close>).\<close>

function firings :: "nat \<Rightarrow> nat \<Rightarrow> player \<Rightarrow> nat" where
  "firings n d s =
     (case timer s of
        None \<Rightarrow> 0
      | Some r \<Rightarrow> if d < r then 0 else Suc (firings n (d - r) (fire n s)))"
  by pat_completeness auto
termination
  by (relation "measure (\<lambda>(n, d, s). 2 * d + (if timer s = Some 0 then 1 else 0))")
     (auto simp: fire_def sync_interval_def intervalTick_def SLIDE_DURATION_MS_def Let_def)

declare firings.simps [simp del]

text \<open>The table's triggers a run of code events amounts to: the trigger of each user
  event in the state it occurs in, and one timer firing per firing of the interval.\<close>

fun spec_trace :: "nat \<Rightarrow> player \<Rightarrow> player_event list \<Rightarrow> spec_event list" where
  "spec_trace n s [] = []"
| "spec_trace n s (e # es) =
     (case e of
        Elapse d \<Rightarrow> replicate (firings n d s) TimerFires
      | _ \<Rightarrow> (case spec_event_of s e of None \<Rightarrow> [] | Some a \<Rightarrow> [a]))
     @ spec_trace n (player_step n s e) es"

section \<open>Runs of the specified machine\<close>

lemma spec_run_append:
  "spec_run n st (as @ bs) =
     (case spec_run n st as of None \<Rightarrow> None | Some st' \<Rightarrow> spec_run n st' bs)"
  by (induction as arbitrary: st) (simp_all split: option.splits)

section \<open>Simulation\<close>

lemma timer_Some_phase:
  "player_inv n s \<Longrightarrow> timer s = Some r \<Longrightarrow> phase_of n s = Playing \<and> currentIndex s < n"
  by (auto simp: player_inv_def timer_ok_def timer_armed_def phase_of_def index_ok_def)

lemma fire_refines:
  assumes "player_inv n s" and "timer s = Some r"
  shows "spec_step n (abs_state n s) TimerFires = Some (abs_state n (fire n s))"
proof -
  from assms have ph: "phase_of n s = Playing" and idx: "currentIndex s < n"
    by (auto dest: timer_Some_phase)
  then show ?thesis
    by (auto simp: abs_state_def fire_def Let_def intervalTick_def sync_interval_def
        phase_of_def split: if_splits)
qed

lemma elapse_refines:
  "player_inv n s \<Longrightarrow>
   spec_run n (abs_state n s) (replicate (firings n d s) TimerFires) = Some (abs_state n (elapse n d s))"
proof (induction n d s rule: elapse.induct)
  case (1 n d s)
  show ?case
  proof (cases "timer s")
    case None
    then show ?thesis by (simp add: elapse.simps firings.simps)
  next
    case (Some r)
    show ?thesis
    proof (cases "d < r")
      case True
      with Some show ?thesis
        by (simp add: elapse.simps firings.simps abs_state_def phase_of_def)
    next
      case False
      from "1.prems" Some have inv': "player_inv n (fire n s)" by (rule fire_inv)
      have k: "spec_run n (abs_state n (fire n s)) (replicate (firings n (d - r) (fire n s)) TimerFires)
                 = Some (abs_state n (elapse n (d - r) (fire n s)))"
        by (rule "1.IH" [OF Some False inv'])
      show ?thesis
        using fire_refines [OF "1.prems" Some] k Some False
        by (simp add: elapse.simps [of n d s] firings.simps [of n d s])
    qed
  qed
qed

lemma abs_state_sync [simp]: "abs_state n (sync_interval n old new) = abs_state n new"
  by (simp add: abs_state_def phase_of_def)

text \<open>One user event offered by the screen is the table's transition for its
  trigger.\<close>

lemma user_event_refines:
  assumes inv: "player_inv n s" and en: "player_enabled n s e"
    and ev: "spec_event_of s e = Some a"
  shows "spec_step n (abs_state n s) a = Some (abs_state n (player_step n s e))"
proof -
  from en ev have n: "n \<noteq> 0"
    by (cases e) (simp_all add: player_enabled_iff spec_event_of_def)
  with inv have idx: "currentIndex s < n" by (simp add: player_inv_def index_ok_def)
  show ?thesis
  proof (cases e)
    case TapPrev
    with en ev n show ?thesis
      by (auto simp: player_enabled_iff overlay_of_def spec_event_of_def player_step_def
          goPrev_def abs_state_def phase_of_def split: if_splits)
  next
    case TapNext
    with en ev n idx show ?thesis
      by (auto simp: player_enabled_iff overlay_of_def spec_event_of_def player_step_def
          goNext_def abs_state_def phase_of_def split: if_splits)
  next
    case PressStartRecap
    with en ev n show ?thesis
      by (auto simp: player_enabled_iff overlay_of_def spec_event_of_def player_step_def
          handleStartRecap_def abs_state_def phase_of_def split: if_splits)
  next
    case PressReplay
    with en ev n show ?thesis
      by (auto simp: player_enabled_iff overlay_of_def spec_event_of_def player_step_def
          handleReplay_def abs_state_def phase_of_def split: if_splits)
  next
    case PressPlayPause
    with en ev n show ?thesis
      by (auto simp: player_enabled_iff spec_event_of_def player_step_def pressPlayPause_def
          handleStartRecap_def handleReplay_def abs_state_def phase_of_def split: if_splits)
  qed (use ev in \<open>simp_all add: spec_event_of_def\<close>)
qed

lemma player_step_refines:
  assumes inv: "player_inv n s" and en: "player_enabled n s e"
  shows "spec_run n (abs_state n s) (spec_trace n s [e]) = Some (abs_state n (player_step n s e))"
proof (cases "spec_event_of s e")
  case (Some a)
  from user_event_refines [OF inv en Some] Some show ?thesis
    by (cases e) (simp_all add: spec_event_of_def)
next
  case None
  show ?thesis
  proof (cases e)
    case (Elapse d)
    from elapse_refines [OF inv] Elapse show ?thesis by (simp add: player_step_def)
  next
    case PressShare
    then show ?thesis by (simp add: player_step_def spec_event_of_def)
  qed (use None in \<open>simp_all add: spec_event_of_def\<close>)
qed

lemma enabled_run_refines:
  "player_inv n s \<Longrightarrow> enabled_run n s es \<Longrightarrow>
   spec_run n (abs_state n s) (spec_trace n s es) = Some (abs_state n (player_run n s es))"
proof (induction es arbitrary: s)
  case Nil
  then show ?case by simp
next
  case (Cons e es)
  from Cons.prems have en: "player_enabled n s e" and rest: "enabled_run n (player_step n s e) es"
    by simp_all
  have bs: "spec_run n (abs_state n (player_step n s e)) (spec_trace n (player_step n s e) es)
              = Some (abs_state n (player_run n (player_step n s e) es))"
    using Cons.IH [OF player_step_inv [OF Cons.prems(1)] rest] .
  have eq: "spec_trace n s (e # es) = spec_trace n s [e] @ spec_trace n (player_step n s e) es"
    by simp
  show ?case
    unfolding eq spec_run_append using player_step_refines [OF Cons.prems(1) en] bs by simp
qed

end
