(* ===== verification/Player_Clock.thy ===== *)
theory Player_Clock
  imports Player
begin

text \<open>
  Two further views of the auto-advance interval of \<open>src/slideshow.tsx\<close>
  (lines 85--101). The first is the JavaScript event loop's own clock, one millisecond
  at a time: \<open>tick_ms\<close> lowers the armed interval's remaining wait and fires it when
  the wait runs out; \<open>clock\<close> iterates it. It is the reference against which the
  jumping \<open>elapse\<close> of \<open>Player\<close> is shown equivalent. The second is the interval
  left to itself: it fires again and again until a firing makes the effect clear it,
  written as a \<open>partial_function (option)\<close>, where not stopping would be \<open>None\<close>.
\<close>

section \<open>The millisecond clock\<close>

definition tick_ms :: "nat \<Rightarrow> player \<Rightarrow> player" where
  "tick_ms n s =
     (case timer s of
        None \<Rightarrow> s
      | Some r \<Rightarrow> if r \<le> 1 then fire n s else s\<lparr>timer := Some (r - 1)\<rparr>)"

definition clock :: "nat \<Rightarrow> nat \<Rightarrow> player \<Rightarrow> player" where
  "clock n d s = (tick_ms n ^^ d) s"

section \<open>The interval left running\<close>

partial_function (option) play_out :: "nat \<Rightarrow> player \<Rightarrow> player option" where
  "play_out n s = (case timer s of None \<Rightarrow> Some s | Some r \<Rightarrow> play_out n (fire n s))"

section \<open>Lemmas\<close>

lemma fire_timer_upd [simp]: "fire n (s\<lparr>timer := t\<rparr>) = fire n s"
  by (simp add: fire_def)

lemma clock_idle: "timer s = None \<Longrightarrow> (tick_ms n ^^ k) s = s"
  by (induction k) (simp_all add: tick_ms_def)

lemma clock_wait: "timer s = Some r \<Longrightarrow> k < r \<Longrightarrow> (tick_ms n ^^ k) s = s\<lparr>timer := Some (r - k)\<rparr>"
  by (induction k) (simp_all add: tick_ms_def)

lemma clock_fire: "timer s = Some r \<Longrightarrow> 0 < r \<Longrightarrow> (tick_ms n ^^ r) s = fire n s"
proof -
  assume tm: "timer s = Some r" and r: "0 < r"
  then obtain k where k: "r = Suc k" by (cases r) simp_all
  have "(tick_ms n ^^ Suc k) s = tick_ms n ((tick_ms n ^^ k) s)" by simp
  also have "\<dots> = tick_ms n (s\<lparr>timer := Some (r - k)\<rparr>)" using tm k by (simp add: clock_wait)
  also have "\<dots> = fire n s" using k by (simp add: tick_ms_def)
  finally show ?thesis using k by simp
qed

lemma elapse_clock: "player_inv n s \<Longrightarrow> elapse n d s = clock n d s"
proof (induction n d s rule: elapse.induct)
  case (1 n d s)
  show ?case
  proof (cases "timer s")
    case None
    then show ?thesis by (simp add: elapse.simps clock_def clock_idle)
  next
    case (Some r)
    show ?thesis
    proof (cases "d < r")
      case True
      with Some show ?thesis by (simp add: elapse_below clock_def clock_wait)
    next
      case False
      from "1.prems" Some have r: "0 < r" by (simp add: player_inv_def timer_ok_def)
      have "clock n d s = (tick_ms n ^^ ((d - r) + r)) s"
        using False by (simp add: clock_def)
      also have "\<dots> = (tick_ms n ^^ (d - r)) ((tick_ms n ^^ r) s)"
        by (simp add: funpow_add)
      also have "\<dots> = clock n (d - r) (fire n s)" using Some r by (simp add: clock_fire clock_def)
      also have "\<dots> = elapse n (d - r) (fire n s)"
        using "1.IH" [OF Some False fire_inv [OF "1.prems" Some]] by simp
      finally show ?thesis using Some False by (simp add: elapse_fire)
    qed
  qed
qed

lemma play_out_idle: "timer s = None \<Longrightarrow> play_out n s = Some s"
  by (simp add: play_out.simps)

lemma play_out_fire: "timer s = Some r \<Longrightarrow> play_out n s = play_out n (fire n s)"
  by (simp add: play_out.simps [of n s])

text \<open>The interval left running from a state where it is armed stops at the outro of
  the last slide, after one firing per slide still to show.\<close>

lemma play_out_outro:
  "player_inv n s \<Longrightarrow> timer s = Some r \<Longrightarrow> currentIndex s + k = n - 1 \<Longrightarrow>
   play_out n s = Some (s\<lparr>currentIndex := n - 1, isPlaying := False, showOutro := True, timer := None\<rparr>)"
proof (induction k arbitrary: s r)
  case 0
  then show ?case by (simp add: play_out_fire fire_last play_out_idle)
next
  case (Suc k)
  from Suc.prems have idx: "currentIndex s + 1 < n"
    by (simp add: player_inv_def index_ok_def split: if_splits)
  let ?s' = "s\<lparr>currentIndex := currentIndex s + 1, timer := Some SLIDE_DURATION_MS\<rparr>"
  have f: "fire n s = ?s'" using Suc.prems(1,2) idx by (rule fire_advance)
  have inv': "player_inv n ?s'" using fire_inv [OF Suc.prems(1,2)] f by simp
  have "play_out n s = play_out n ?s'" using Suc.prems(2) f by (simp add: play_out_fire)
  also have "\<dots> = Some (?s'\<lparr>currentIndex := n - 1, isPlaying := False, showOutro := True, timer := None\<rparr>)"
    using Suc.IH [OF inv'] Suc.prems(3) by simp
  finally show ?case by simp
qed

end
