(* ===== verification/Player_Layout.thy ===== *)
theory Player_Layout
  imports Player_View
begin

text \<open>
  Where a touch on the slideshow frame goes (\<open>src/slideshow.tsx\<close>, lines 266--296
  and 332--412, with the positions and \<open>zIndex\<close> values of the \<open>styles\<close> object,
  lines 503--546, 547--555, 661--669 and 731--739). Every absolutely positioned child
  is a box in the coordinates of the frame (\<open>slideshowWrapper\<close>, which its only flow
  child \<open>slideshowContainer\<close> fills); a touch goes to the highest \<open>zIndex\<close> among the
  boxes containing it, the later sibling on a tie, as React Native's hit testing does
  among siblings. The letterbox bars (\<open>zIndex\<close> 5) are siblings of the container and
  so lie above everything inside it; inside, the full-screen overlay (4) lies above
  the tap zones (3), which lie above the top fade (1), the image and the caption block
  (0). Only the tap zones handle a press; a touch on a plain view ends there. Widths
  given in percent are fractions of the frame's width, the image's height is 55% of the
  window's, and the caption block's height (its content) is a parameter.
\<close>

section \<open>Boxes and stacking\<close>

record box =
  bx_left :: rat
  bx_top :: rat
  bx_right :: rat
  bx_bottom :: rat

definition inside :: "box \<Rightarrow> rat \<Rightarrow> rat \<Rightarrow> bool" where
  "inside b x y \<longleftrightarrow> bx_left b \<le> x \<and> x < bx_right b \<and> bx_top b \<le> y \<and> y < bx_bottom b"

datatype touch_target =
  LetterboxTop | LetterboxBottom | SlideshowContainer | TopFade | TapZoneLeft | SlideImage
| TapZoneRight | OverlayBottom | IntroOverlayView | OutroOverlayView

type_synonym layer = "touch_target \<times> int \<times> box"

definition hit_step :: "rat \<Rightarrow> rat \<Rightarrow> (touch_target \<times> int) option \<Rightarrow> layer \<Rightarrow> (touch_target \<times> int) option" where
  "hit_step x y acc l =
     (case l of (t, z, b) \<Rightarrow>
        if inside b x y \<and> (case acc of None \<Rightarrow> True | Some (_, z') \<Rightarrow> z' \<le> z)
        then Some (t, z) else acc)"

definition topmost_z :: "layer list \<Rightarrow> rat \<Rightarrow> rat \<Rightarrow> (touch_target \<times> int) option" where
  "topmost_z ls x y = foldl (hit_step x y) None ls"

definition topmost :: "layer list \<Rightarrow> rat \<Rightarrow> rat \<Rightarrow> touch_target option" where
  "topmost ls x y = map_option fst (topmost_z ls x y)"

section \<open>The slideshow frame\<close>

record frame_geom =
  g_width :: rat
  g_height :: rat
  g_window :: rat
  g_captionHeight :: rat

definition letterbox_zIndex :: int where "letterbox_zIndex = 5"
definition topFade_zIndex :: int where "topFade_zIndex = 1"
definition letterbox_height :: rat where "letterbox_height = 18"
definition tapZone_width :: "rat \<Rightarrow> rat" where "tapZone_width w = 30 / 100 * w"

definition container_box :: "frame_geom \<Rightarrow> box" where
  "container_box g = \<lparr>bx_left = 0, bx_top = 0, bx_right = g_width g, bx_bottom = g_height g\<rparr>"

definition letterbox_layers :: "frame_geom \<Rightarrow> layer list" where
  "letterbox_layers g =
     [(LetterboxTop, letterbox_zIndex,
         \<lparr>bx_left = 0, bx_top = 0, bx_right = g_width g, bx_bottom = letterbox_height\<rparr>),
      (LetterboxBottom, letterbox_zIndex,
         \<lparr>bx_left = 0, bx_top = g_height g - letterbox_height, bx_right = g_width g,
          bx_bottom = g_height g\<rparr>)]"

definition wrapper_layers :: "frame_geom \<Rightarrow> layer list" where
  "wrapper_layers g = letterbox_layers g @ [(SlideshowContainer, 0, container_box g)]"

definition tapZoneLeft_box :: "frame_geom \<Rightarrow> box" where
  "tapZoneLeft_box g =
     \<lparr>bx_left = 0, bx_top = 0, bx_right = tapZone_width (g_width g), bx_bottom = g_height g\<rparr>"

definition tapZoneRight_box :: "frame_geom \<Rightarrow> box" where
  "tapZoneRight_box g =
     \<lparr>bx_left = g_width g - tapZone_width (g_width g), bx_top = 0, bx_right = g_width g,
      bx_bottom = g_height g\<rparr>"

definition topFade_box :: "frame_geom \<Rightarrow> box" where
  "topFade_box g = \<lparr>bx_left = 0, bx_top = 0, bx_right = g_width g, bx_bottom = 80\<rparr>"

definition image_box :: "frame_geom \<Rightarrow> box" where
  "image_box g = \<lparr>bx_left = 0, bx_top = 0, bx_right = g_width g, bx_bottom = g_window g * 55 / 100\<rparr>"

definition overlayBottom_box :: "frame_geom \<Rightarrow> box" where
  "overlayBottom_box g =
     \<lparr>bx_left = 16, bx_top = g_height g - 16 - g_captionHeight g, bx_right = g_width g - 16,
      bx_bottom = g_height g - 16\<rparr>"

definition frame_layers :: "frame_geom \<Rightarrow> layer list" where
  "frame_layers g =
     [(TopFade, topFade_zIndex, topFade_box g),
      (TapZoneLeft, tapZone_zIndex, tapZoneLeft_box g),
      (SlideImage, 0, image_box g),
      (TapZoneRight, tapZone_zIndex, tapZoneRight_box g),
      (OverlayBottom, 0, overlayBottom_box g)]"

definition overlay_layers :: "frame_geom \<Rightarrow> player \<Rightarrow> layer list" where
  "overlay_layers g s =
     (if showIntro s then [(IntroOverlayView, fullscreenOverlay_zIndex, container_box g)] else [])
     @ (if showOutro s \<and> \<not> showIntro s
        then [(OutroOverlayView, fullscreenOverlay_zIndex, container_box g)] else [])"

definition container_layers :: "frame_geom \<Rightarrow> player \<Rightarrow> layer list" where
  "container_layers g s = frame_layers g @ overlay_layers g s"

definition touch_target :: "frame_geom \<Rightarrow> player \<Rightarrow> rat \<Rightarrow> rat \<Rightarrow> touch_target option" where
  "touch_target g s x y =
     (case topmost (wrapper_layers g) x y of
        Some SlideshowContainer \<Rightarrow>
          (case topmost (container_layers g s) x y of None \<Rightarrow> Some SlideshowContainer | t \<Rightarrow> t)
      | t \<Rightarrow> t)"

definition touch_event :: "touch_target option \<Rightarrow> player_event option" where
  "touch_event t =
     (case t of Some TapZoneLeft \<Rightarrow> Some TapPrev | Some TapZoneRight \<Rightarrow> Some TapNext | _ \<Rightarrow> None)"

section \<open>Lemmas\<close>

lemma topmost_z_snoc:
  "topmost_z (ls @ [(t, z, b)]) x y =
     (if inside b x y \<and> (case topmost_z ls x y of None \<Rightarrow> True | Some (_, z') \<Rightarrow> z' \<le> z)
      then Some (t, z) else topmost_z ls x y)"
  by (simp add: topmost_z_def hit_step_def)

lemma topmost_z_mem:
  "topmost_z ls x y = Some (t, z) \<Longrightarrow> \<exists>b. (t, z, b) \<in> set ls \<and> inside b x y"
proof (induction ls arbitrary: t z rule: rev_induct)
  case Nil
  then show ?case by (simp add: topmost_z_def)
next
  case (snoc l ls)
  obtain t' z' b' where l: "l = (t', z', b')" by (cases l)
  from snoc.prems show ?case
    using snoc.IH by (auto simp: l topmost_z_snoc split: if_splits)
qed

text \<open>A layer that contains the point and is at least as high as every earlier layer
  containing it receives the touch.\<close>

lemma topmost_z_top:
  assumes "inside b x y" and "\<forall>(t', z', b') \<in> set ls. inside b' x y \<longrightarrow> z' \<le> z"
  shows "topmost_z (ls @ [(t, z, b)]) x y = Some (t, z)"
proof (cases "topmost_z ls x y")
  case (Some p)
  obtain t' z' where p: "p = (t', z')" by (cases p)
  from topmost_z_mem [of ls x y t' z'] Some p assms(2) have "z' \<le> z" by auto
  with Some p assms(1) show ?thesis by (simp add: topmost_z_snoc)
qed (use assms in \<open>simp add: topmost_z_snoc\<close>)

text \<open>Layers added above that are lower or miss the point do not take the touch.\<close>

lemma topmost_z_keep:
  assumes "topmost_z ls x y = Some (t, z)"
    and "\<forall>(t', z', b') \<in> set rest. inside b' x y \<longrightarrow> z' < z"
  shows "topmost_z (ls @ rest) x y = Some (t, z)"
  using assms(2)
proof (induction rest rule: rev_induct)
  case Nil
  then show ?case using assms(1) by simp
next
  case (snoc l rest)
  obtain t' z' b' where l: "l = (t', z', b')" by (cases l)
  from snoc.prems have "topmost_z (ls @ rest) x y = Some (t, z)" by (intro snoc.IH) simp
  with snoc.prems show ?case by (auto simp: l topmost_z_snoc [of "ls @ rest", simplified])
qed

lemma topmost_z_None:
  "topmost_z ls x y = None \<longleftrightarrow> (\<forall>(t, z, b) \<in> set ls. \<not> inside b x y)"
proof (induction ls rule: rev_induct)
  case Nil
  then show ?case by (simp add: topmost_z_def)
next
  case (snoc l ls)
  obtain t z b where l: "l = (t, z, b)" by (cases l)
  show ?case using snoc.IH by (auto simp: l topmost_z_snoc split: option.splits)
qed

lemma wrapper_container:
  "topmost (wrapper_layers g) x y = Some SlideshowContainer \<longleftrightarrow>
   0 \<le> x \<and> x < g_width g \<and> letterbox_height \<le> y \<and> y < g_height g - letterbox_height"
proof (cases "topmost_z (letterbox_layers g) x y")
  case None
  then have "\<not> (0 \<le> x \<and> x < g_width g \<and> 0 \<le> y \<and> y < letterbox_height) \<and>
             \<not> (0 \<le> x \<and> x < g_width g \<and> g_height g - letterbox_height \<le> y \<and> y < g_height g)"
    by (simp add: topmost_z_None letterbox_layers_def inside_def)
  with None show ?thesis
    by (auto simp: topmost_def wrapper_layers_def topmost_z_snoc container_box_def inside_def
        letterbox_height_def)
next
  case (Some p)
  obtain t z where p: "p = (t, z)" by (cases p)
  from topmost_z_mem [of "letterbox_layers g" x y t z] Some p
  have "z = 5 \<and> t \<noteq> SlideshowContainer \<and> (0 \<le> x \<and> x < g_width g \<and> 0 \<le> y \<and> y < letterbox_height \<or>
          0 \<le> x \<and> x < g_width g \<and> g_height g - letterbox_height \<le> y \<and> y < g_height g)"
    by (auto simp: letterbox_layers_def letterbox_zIndex_def inside_def)
  with Some p show ?thesis
    by (auto simp: topmost_def wrapper_layers_def topmost_z_snoc letterbox_height_def)
qed

lemma overlay_layers_cases:
  "overlay_of s = NoOverlay \<Longrightarrow> overlay_layers g s = []"
  "overlay_of s \<noteq> NoOverlay \<Longrightarrow>
   \<exists>t. t \<noteq> TapZoneLeft \<and> t \<noteq> TapZoneRight \<and>
       overlay_layers g s = [(t, fullscreenOverlay_zIndex, container_box g)]"
  by (auto simp: overlay_layers_def overlay_of_def split: if_splits)

lemma frame_layers_z: "\<forall>(t, z, b) \<in> set (frame_layers g). z \<le> fullscreenOverlay_zIndex"
  by (simp add: frame_layers_def topFade_zIndex_def tapZone_zIndex_def fullscreenOverlay_zIndex_def)

lemma frame_left:
  assumes "inside (tapZoneLeft_box g) x y"
  shows "topmost_z (frame_layers g) x y = Some (TapZoneLeft, tapZone_zIndex)"
proof -
  let ?fade = "(TopFade, topFade_zIndex, topFade_box g)"
  let ?img = "(SlideImage, 0 :: int, image_box g)"
  let ?ob = "(OverlayBottom, 0 :: int, overlayBottom_box g)"
  from assms have nr: "\<not> inside (tapZoneRight_box g) x y"
    by (auto simp: inside_def tapZoneLeft_box_def tapZoneRight_box_def tapZone_width_def)
  have "topmost_z ([?fade] @ [(TapZoneLeft, tapZone_zIndex, tapZoneLeft_box g)]) x y
          = Some (TapZoneLeft, tapZone_zIndex)"
    using assms by (intro topmost_z_top) (simp_all add: topFade_zIndex_def tapZone_zIndex_def)
  then have "topmost_z (([?fade] @ [(TapZoneLeft, tapZone_zIndex, tapZoneLeft_box g)])
               @ [?img, (TapZoneRight, tapZone_zIndex, tapZoneRight_box g), ?ob]) x y
          = Some (TapZoneLeft, tapZone_zIndex)"
    by (rule topmost_z_keep) (simp add: nr tapZone_zIndex_def)
  then show ?thesis unfolding frame_layers_def by simp
qed

lemma frame_right:
  assumes "inside (tapZoneRight_box g) x y"
  shows "topmost_z (frame_layers g) x y = Some (TapZoneRight, tapZone_zIndex)"
proof -
  let ?fade = "(TopFade, topFade_zIndex, topFade_box g)"
  let ?img = "(SlideImage, 0 :: int, image_box g)"
  let ?ob = "(OverlayBottom, 0 :: int, overlayBottom_box g)"
  from assms have nl: "\<not> inside (tapZoneLeft_box g) x y"
    by (auto simp: inside_def tapZoneLeft_box_def tapZoneRight_box_def tapZone_width_def)
  have "topmost_z ([?fade, (TapZoneLeft, tapZone_zIndex, tapZoneLeft_box g), ?img]
               @ [(TapZoneRight, tapZone_zIndex, tapZoneRight_box g)]) x y
          = Some (TapZoneRight, tapZone_zIndex)"
    using assms by (intro topmost_z_top) (simp_all add: nl topFade_zIndex_def tapZone_zIndex_def)
  then have "topmost_z (([?fade, (TapZoneLeft, tapZone_zIndex, tapZoneLeft_box g), ?img]
               @ [(TapZoneRight, tapZone_zIndex, tapZoneRight_box g)]) @ [?ob]) x y
          = Some (TapZoneRight, tapZone_zIndex)"
    by (rule topmost_z_keep) (simp add: tapZone_zIndex_def)
  then show ?thesis unfolding frame_layers_def by simp
qed

lemma zone_in_container:
  "inside (tapZoneLeft_box g) x y \<Longrightarrow> inside (container_box g) x y"
  "inside (tapZoneRight_box g) x y \<Longrightarrow> inside (container_box g) x y"
  by (auto simp: inside_def tapZoneLeft_box_def tapZoneRight_box_def container_box_def tapZone_width_def)

lemma container_zone:
  assumes zone: "(zt, zb) \<in> {(TapZoneLeft, tapZoneLeft_box g), (TapZoneRight, tapZoneRight_box g)}"
  shows "topmost (container_layers g s) x y = Some zt \<longleftrightarrow> overlay_of s = NoOverlay \<and> inside zb x y"
proof
  assume top: "topmost (container_layers g s) x y = Some zt"
  then obtain z where "topmost_z (container_layers g s) x y = Some (zt, z)"
    by (auto simp: topmost_def)
  from topmost_z_mem [OF this] zone have inz: "inside zb x y"
    by (auto simp: container_layers_def frame_layers_def overlay_layers_def split: if_splits)
  show "overlay_of s = NoOverlay \<and> inside zb x y"
  proof (rule ccontr)
    assume "\<not> (overlay_of s = NoOverlay \<and> inside zb x y)"
    with inz have ov: "overlay_of s \<noteq> NoOverlay" by simp
    from overlay_layers_cases(2) [OF ov] obtain t where
      t: "t \<noteq> TapZoneLeft" "t \<noteq> TapZoneRight"
      and ol: "overlay_layers g s = [(t, fullscreenOverlay_zIndex, container_box g)]" by blast
    from inz zone have "inside (container_box g) x y" by (auto intro: zone_in_container)
    then have "topmost_z (frame_layers g @ [(t, fullscreenOverlay_zIndex, container_box g)]) x y
                 = Some (t, fullscreenOverlay_zIndex)"
      using frame_layers_z [of g] by (intro topmost_z_top) auto
    with top ol t zone show False by (auto simp: topmost_def container_layers_def)
  qed
next
  assume "overlay_of s = NoOverlay \<and> inside zb x y"
  with zone show "topmost (container_layers g s) x y = Some zt"
    by (auto simp: topmost_def container_layers_def overlay_layers_cases(1) frame_left frame_right)
qed

lemma wrapper_targets:
  "topmost (wrapper_layers g) x y = Some t \<Longrightarrow> t \<in> {LetterboxTop, LetterboxBottom, SlideshowContainer}"
  by (auto simp: topmost_def wrapper_layers_def letterbox_layers_def dest!: topmost_z_mem)

lemma touch_zone:
  assumes "zt \<in> {TapZoneLeft, TapZoneRight}"
  shows "touch_target g s x y = Some zt \<longleftrightarrow>
           topmost (wrapper_layers g) x y = Some SlideshowContainer \<and>
           topmost (container_layers g s) x y = Some zt"
  using assms wrapper_targets [of g x y]
  by (auto simp: touch_target_def split: option.splits touch_target.splits)

lemma touch_event_tap:
  "touch_event t = Some TapPrev \<longleftrightarrow> t = Some TapZoneLeft"
  "touch_event t = Some TapNext \<longleftrightarrow> t = Some TapZoneRight"
  by (auto simp: touch_event_def split: option.splits touch_target.splits)

text \<open>On a frame taller than the two letterbox bars, a tap zone can be touched
  exactly when \<open>player_enabled\<close> offers the taps.\<close>

lemma tap_zones_reachable:
  assumes "0 < g_width g" and "2 * letterbox_height < g_height g"
  shows "(\<exists>x y. touch_target g s x y = Some TapZoneLeft) \<longleftrightarrow> taps_reach_zones s"
    and "(\<exists>x y. touch_target g s x y = Some TapZoneRight) \<longleftrightarrow> taps_reach_zones s"
proof -
  have l: "inside (tapZoneLeft_box g) 0 letterbox_height"
    and r: "inside (tapZoneRight_box g) (g_width g - tapZone_width (g_width g)) letterbox_height"
    and w: "topmost (wrapper_layers g) 0 letterbox_height = Some SlideshowContainer"
    and w': "topmost (wrapper_layers g) (g_width g - tapZone_width (g_width g)) letterbox_height
               = Some SlideshowContainer"
    using assms by (simp_all add: inside_def tapZoneLeft_box_def tapZoneRight_box_def
        tapZone_width_def wrapper_container letterbox_height_def)
  show "(\<exists>x y. touch_target g s x y = Some TapZoneLeft) \<longleftrightarrow> taps_reach_zones s"
    using l w by (auto simp: touch_zone container_zone)
  show "(\<exists>x y. touch_target g s x y = Some TapZoneRight) \<longleftrightarrow> taps_reach_zones s"
    using r w' by (auto simp: touch_zone container_zone)
qed

end
