(* ===== verification/Player_Anim.thy ===== *)
theory Player_Anim
  imports Player
begin

text \<open>
  The Ken Burns and fade-in animation of the slide image (\<open>src/slideshow.tsx\<close>,
  lines 58--83, and the direct calls at lines 135 and 143). \<open>animateSlideIn\<close> resets
  the two animated values to 1.05 (scale) and 0 (opacity) and starts two timings
  towards 1, over 1400 ms and 450 ms. It is called by \<open>handleStartRecap\<close> and
  \<open>handleReplay\<close>, and by the effect on \<open>[currentIndex, slides.length]\<close> whenever it
  runs with slides: after the first render, and after every render that changed the
  index. The animation state is the time since the last start (\<open>None\<close> before any);
  the value of a timing at a time is given for any easing curve \<open>ease\<close> (React
  Native's default is an ease-in-out curve; only \<open>ease 0 = 0\<close> matters to the
  lemmas), and the target once the duration has passed.
\<close>

section \<open>Animated values\<close>

definition KEN_BURNS_MS :: nat where "KEN_BURNS_MS = 1400"

definition FADE_IN_MS :: nat where "FADE_IN_MS = 450"

type_synonym slide_anim = "nat option"

definition anim_value :: "(rat \<Rightarrow> rat) \<Rightarrow> rat \<Rightarrow> rat \<Rightarrow> nat \<Rightarrow> nat \<Rightarrow> rat" where
  "anim_value ease v0 v1 dur t =
     (if dur \<le> t then v1 else v0 + (v1 - v0) * ease (of_nat t / of_nat dur))"

definition scale_at :: "(rat \<Rightarrow> rat) \<Rightarrow> slide_anim \<Rightarrow> rat" where
  "scale_at ease a = (case a of None \<Rightarrow> 105 / 100 | Some t \<Rightarrow> anim_value ease (105 / 100) 1 KEN_BURNS_MS t)"

definition opacity_at :: "(rat \<Rightarrow> rat) \<Rightarrow> slide_anim \<Rightarrow> rat" where
  "opacity_at ease a = (case a of None \<Rightarrow> 0 | Some t \<Rightarrow> anim_value ease 0 1 FADE_IN_MS t)"

definition animateSlideIn :: "slide_anim \<Rightarrow> slide_anim" where
  "animateSlideIn a = Some 0"

text \<open>The state after mounting: the effect's first run starts the animation when
  there are slides.\<close>

definition anim_init :: "nat \<Rightarrow> slide_anim" where
  "anim_init n = (if n = 0 then None else animateSlideIn None)"

section \<open>Calls per event\<close>

text \<open>Direct calls of the handlers an event runs (\<open>pressPlayPause\<close> runs
  \<open>handleStartRecap\<close> on the intro and \<open>handleReplay\<close> on the outro), and the
  effect's call after the render when the index changed.\<close>

definition direct_slide_ins :: "nat \<Rightarrow> player \<Rightarrow> player_event \<Rightarrow> nat" where
  "direct_slide_ins n s e =
     (if n = 0 then 0 else
      case e of
        PressStartRecap \<Rightarrow> 1
      | PressReplay \<Rightarrow> 1
      | PressPlayPause \<Rightarrow> (if showIntro s \<or> showOutro s then 1 else 0)
      | _ \<Rightarrow> 0)"

definition slide_in_calls :: "nat \<Rightarrow> player \<Rightarrow> player_event \<Rightarrow> nat" where
  "slide_in_calls n s e =
     direct_slide_ins n s e
     + (if n \<noteq> 0 \<and> currentIndex (player_step n s e) \<noteq> currentIndex s then 1 else 0)"

text \<open>Time passing: the animation ages, and restarts at each firing of the interval
  that moves to another slide.\<close>

function elapse_anim :: "nat \<Rightarrow> nat \<Rightarrow> player \<Rightarrow> slide_anim \<Rightarrow> slide_anim" where
  "elapse_anim n d s a =
     (case timer s of
        None \<Rightarrow> map_option (\<lambda>t. t + d) a
      | Some r \<Rightarrow>
          if d < r then map_option (\<lambda>t. t + d) a
          else elapse_anim n (d - r) (fire n s)
                 (if currentIndex (fire n s) \<noteq> currentIndex s then animateSlideIn a
                  else map_option (\<lambda>t. t + r) a))"
  by pat_completeness auto
termination
  by (relation "measure (\<lambda>(n, d, s, a). 2 * d + (if timer s = Some 0 then 1 else 0))")
     (auto simp: fire_def sync_interval_def intervalTick_def SLIDE_DURATION_MS_def Let_def)

declare elapse_anim.simps [simp del]

definition anim_after :: "nat \<Rightarrow> player \<Rightarrow> player_event \<Rightarrow> slide_anim \<Rightarrow> slide_anim" where
  "anim_after n s e a =
     (case e of
        Elapse d \<Rightarrow> elapse_anim n d s a
      | _ \<Rightarrow> if 0 < slide_in_calls n s e then animateSlideIn a else a)"

text \<open>The slide's animation started when the interval's current period did.\<close>

definition anim_ok :: "player \<Rightarrow> slide_anim \<Rightarrow> bool" where
  "anim_ok s a \<longleftrightarrow> (case timer s of None \<Rightarrow> True | Some r \<Rightarrow> a = Some (SLIDE_DURATION_MS - r))"

section \<open>Lemmas\<close>

lemma elapse_anim_below:
  "timer s = Some r \<Longrightarrow> d < r \<Longrightarrow> elapse_anim n d s a = map_option (\<lambda>t. t + d) a"
  by (simp add: elapse_anim.simps)

lemma elapse_anim_fire:
  "timer s = Some r \<Longrightarrow> r \<le> d \<Longrightarrow>
   elapse_anim n d s a =
     elapse_anim n (d - r) (fire n s)
       (if currentIndex (fire n s) \<noteq> currentIndex s then animateSlideIn a else map_option (\<lambda>t. t + r) a)"
  by (simp add: elapse_anim.simps [of n d s])

text \<open>A firing starts a new period exactly when it moves to the next slide, which
  restarts the animation; the firing on the last slide clears the interval.\<close>

lemma fire_anim_ok:
  assumes inv: "player_inv n s" and tm: "timer s = Some r"
  shows "anim_ok (fire n s)
           (if currentIndex (fire n s) \<noteq> currentIndex s then animateSlideIn a
            else map_option (\<lambda>t. t + r) a)"
proof -
  from inv tm have idx: "currentIndex s < n"
    by (auto simp: player_inv_def index_ok_def timer_ok_def timer_armed_def)
  show ?thesis
  proof (cases "currentIndex s = n - 1")
    case True
    then show ?thesis by (simp add: fire_last [OF inv tm True] anim_ok_def)
  next
    case False
    with idx have "currentIndex s + 1 < n" by simp
    then show ?thesis by (simp add: fire_advance [OF inv tm] anim_ok_def animateSlideIn_def)
  qed
qed

lemma elapse_anim_ok:
  "player_inv n s \<Longrightarrow> anim_ok s a \<Longrightarrow> anim_ok (elapse n d s) (elapse_anim n d s a)"
proof (induction n d s a rule: elapse_anim.induct)
  case (1 n d s a)
  show ?case
  proof (cases "timer s")
    case None
    then show ?thesis by (simp add: elapse.simps anim_ok_def)
  next
    case (Some r)
    show ?thesis
    proof (cases "d < r")
      case True
      from "1.prems"(1) Some have "r \<le> SLIDE_DURATION_MS"
        by (simp add: player_inv_def timer_ok_def)
      with "1.prems"(2) Some True show ?thesis
        by (simp add: elapse_below elapse_anim_below anim_ok_def)
    next
      case False
      then have le: "r \<le> d" by simp
      have "anim_ok (elapse n (d - r) (fire n s))
              (elapse_anim n (d - r) (fire n s)
                 (if currentIndex (fire n s) \<noteq> currentIndex s then animateSlideIn a
                  else map_option (\<lambda>t. t + r) a))"
        by (rule "1.IH" [OF Some False fire_inv [OF "1.prems"(1) Some] fire_anim_ok [OF "1.prems"(1) Some]])
      with Some le show ?thesis by (simp add: elapse_fire elapse_anim_fire)
    qed
  qed
qed

lemma at_rest:
  "KEN_BURNS_MS \<le> t \<Longrightarrow> scale_at ease (Some t) = 1 \<and> opacity_at ease (Some t) = 1"
  by (simp add: scale_at_def opacity_at_def anim_value_def KEN_BURNS_MS_def FADE_IN_MS_def)

text \<open>Start and replay (from their buttons or the header button) arm a full period
  and restart the animation together.\<close>

lemma start_replay_anim_ok:
  assumes "n \<noteq> 0"
    and "e = PressStartRecap \<and> showIntro s \<or> e = PressReplay \<and> showOutro s \<and> \<not> showIntro s \<or>
         e = PressPlayPause \<and> (showIntro s \<or> showOutro s)"
  shows "anim_ok (player_step n s e) (anim_after n s e a)"
proof -
  have calls: "0 < slide_in_calls n s e"
    using assms by (auto simp: slide_in_calls_def direct_slide_ins_def)
  from assms(2) consider (start) "e = PressStartRecap" "showIntro s"
    | (replay) "e = PressReplay" "showOutro s" "\<not> showIntro s"
    | (header) "e = PressPlayPause" "showIntro s \<or> showOutro s"
    by blast
  then have "timer (player_step n s e) = Some SLIDE_DURATION_MS"
  proof cases
    case start
    with assms(1) show ?thesis
      by (simp add: player_step_def sync_interval_def handleStartRecap_def timer_armed_def effect_deps_def)
  next
    case replay
    with assms(1) show ?thesis
      by (simp add: player_step_def sync_interval_def handleReplay_def timer_armed_def effect_deps_def)
  next
    case header
    with assms(1) show ?thesis
      by (auto simp: player_step_def sync_interval_def pressPlayPause_def handleStartRecap_def
          handleReplay_def timer_armed_def effect_deps_def)
  qed
  moreover have "anim_after n s e a = Some 0"
    using calls assms(2) by (auto simp: anim_after_def animateSlideIn_def)
  ultimately show ?thesis by (simp add: anim_ok_def)
qed

end
