(* ===== verification/Player_Batch.thy ===== *)
theory Player_Batch
  imports Player
begin

text \<open>
  React's state updates as a queue (\<open>src/slideshow.tsx\<close>, the setter calls of the
  handlers, lines 103--118 and 129--144, of the header button, lines 242--252, and of
  the interval callback, lines 88--98). A handler does not change the state: it calls
  setters with values read from the render it was created in (its closure) or with
  functional updaters, and the next render applies each hook's queue in order. Several
  handler calls can share one render: taps and timer firings that React batches before
  re-rendering. The index hook is declared first and its queue processed first; the
  setter calls made by the interval's updater while it runs (\<open>setIsPlaying(false)\<close>,
  \<open>setShowOutro(true)\<close>) join the end of the other hooks' queues, as updates made
  during a render do. \<open>batch_render\<close> applies the queued updates of a list of calls
  made from one render and re-syncs the effect.
\<close>

section \<open>Queued state updates\<close>

datatype index_update = SetIndex nat | IndexNext | IndexPrev | IndexTick

datatype flag_update = SetPlaying bool | TogglePlaying | SetIntro bool | SetOutro bool

type_synonym update = "index_update + flag_update"

datatype handler_call = CallGoNext | CallGoPrev | CallStart | CallReplay | CallPlayPause | CallTick

definition start_updates :: "nat \<Rightarrow> update list" where
  "start_updates n =
     (if n = 0 then []
      else [Inr (SetIntro False), Inr (SetOutro False), Inl (SetIndex 0), Inr (SetPlaying True)])"

definition replay_updates :: "nat \<Rightarrow> update list" where
  "replay_updates n =
     (if n = 0 then [] else [Inr (SetOutro False), Inl (SetIndex 0), Inr (SetPlaying True)])"

fun handler_updates :: "nat \<Rightarrow> player \<Rightarrow> handler_call \<Rightarrow> update list" where
  "handler_updates n c CallGoNext =
     (if n = 0 then []
      else if currentIndex c = n - 1 then [Inr (SetPlaying False), Inr (SetOutro True)]
      else [Inr (SetOutro False), Inl IndexNext])"
| "handler_updates n c CallGoPrev = (if n = 0 then [] else [Inr (SetOutro False), Inl IndexPrev])"
| "handler_updates n c CallStart = start_updates n"
| "handler_updates n c CallReplay = replay_updates n"
| "handler_updates n c CallPlayPause =
     (if showIntro c then start_updates n else if showOutro c then replay_updates n
      else [Inr TogglePlaying])"
| "handler_updates n c CallTick = [Inl IndexTick]"

fun index_step :: "nat \<Rightarrow> nat \<Rightarrow> index_update \<Rightarrow> nat \<times> flag_update list" where
  "index_step n i (SetIndex j) = (j, [])"
| "index_step n i IndexNext = (min (i + 1) (n - 1), [])"
| "index_step n i IndexPrev = (nat (prevIndex (int i)), [])"
| "index_step n i IndexTick =
     (if i = n - 1 then (i, [SetPlaying False, SetOutro True]) else (i + 1, []))"

fun run_index :: "nat \<Rightarrow> nat \<Rightarrow> index_update list \<Rightarrow> nat \<times> flag_update list" where
  "run_index n i [] = (i, [])"
| "run_index n i (u # us) =
     (let (j, fx) = index_step n i u; (k, fy) = run_index n j us in (k, fx @ fy))"

fun flag_step :: "player \<Rightarrow> flag_update \<Rightarrow> player" where
  "flag_step s (SetPlaying b) = s\<lparr>isPlaying := b\<rparr>"
| "flag_step s TogglePlaying = s\<lparr>isPlaying := \<not> isPlaying s\<rparr>"
| "flag_step s (SetIntro b) = s\<lparr>showIntro := b\<rparr>"
| "flag_step s (SetOutro b) = s\<lparr>showOutro := b\<rparr>"

fun index_queue :: "update list \<Rightarrow> index_update list" where
  "index_queue [] = []"
| "index_queue (Inl u # us) = u # index_queue us"
| "index_queue (Inr f # us) = index_queue us"

fun flag_queue :: "update list \<Rightarrow> flag_update list" where
  "flag_queue [] = []"
| "flag_queue (Inl u # us) = flag_queue us"
| "flag_queue (Inr f # us) = f # flag_queue us"

definition render_updates :: "nat \<Rightarrow> player \<Rightarrow> update list \<Rightarrow> player" where
  "render_updates n s us =
     (let (i, fx) = run_index n (currentIndex s) (index_queue us)
      in foldl flag_step (s\<lparr>currentIndex := i\<rparr>) (flag_queue us @ fx))"

definition batch_render :: "nat \<Rightarrow> player \<Rightarrow> handler_call list \<Rightarrow> player" where
  "batch_render n s cs = sync_interval n s (render_updates n s (concat (map (handler_updates n s) cs)))"

definition call_handler :: "nat \<Rightarrow> handler_call \<Rightarrow> player \<Rightarrow> player" where
  "call_handler n c =
     (case c of
        CallGoNext \<Rightarrow> goNext n | CallGoPrev \<Rightarrow> goPrev n | CallStart \<Rightarrow> handleStartRecap n
      | CallReplay \<Rightarrow> handleReplay n | CallPlayPause \<Rightarrow> pressPlayPause n | CallTick \<Rightarrow> intervalTick n)"

text \<open>React may instead run a functional updater when the setter is called, if the
  hook has no pending update (eager state): for the interval's callback at the head of
  a batch, its own setter calls then join the flag queues at its place, before the
  later handlers' updates. \<open>render_queue_eager\<close> applies the queue in that order.\<close>

fun render_queue_eager :: "nat \<Rightarrow> player \<Rightarrow> update list \<Rightarrow> player" where
  "render_queue_eager n s [] = s"
| "render_queue_eager n s (Inl u # us) =
     (let (i, fx) = index_step n (currentIndex s) u
      in render_queue_eager n (foldl flag_step (s\<lparr>currentIndex := i\<rparr>) fx) us)"
| "render_queue_eager n s (Inr f # us) = render_queue_eager n (flag_step s f) us"

definition batch_render_eager :: "nat \<Rightarrow> player \<Rightarrow> handler_call list \<Rightarrow> player" where
  "batch_render_eager n s cs =
     sync_interval n s (render_queue_eager n s (concat (map (handler_updates n s) cs)))"

section \<open>Lemmas\<close>

lemma render_single: "render_updates n s (handler_updates n s c) = call_handler n c s"
  by (cases c)
     (auto simp: render_updates_def call_handler_def start_updates_def replay_updates_def
        handler_defs intro!: player.equality)

lemma index_queue_append [simp]: "index_queue (xs @ ys) = index_queue xs @ index_queue ys"
  by (induction xs rule: index_queue.induct) simp_all

lemma flag_step_index [simp]: "currentIndex (flag_step s f) = currentIndex s"
  by (cases f) simp_all

lemma flag_steps_index [simp]: "currentIndex (foldl flag_step s fs) = currentIndex s"
  by (induction fs arbitrary: s) simp_all

lemma index_queue_concat: "index_queue (concat xss) = concat (map index_queue xss)"
  by (induction xss) simp_all

text \<open>The only absolute index a handler sets is 0.\<close>

lemma handler_sets_zero: "SetIndex j \<in> set (index_queue (handler_updates n c h)) \<Longrightarrow> j = 0"
  by (cases h) (auto simp: start_updates_def replay_updates_def split: if_splits)

text \<open>Every functional update of the index keeps it on a slide: \<open>Math.min\<close> in
  \<open>goNext\<close>, the \<open>=== 0\<close> test in \<open>goPrev\<close>, the last-slide test in the interval.\<close>

lemma run_index_lt:
  "0 < n \<Longrightarrow> i < n \<Longrightarrow> (\<forall>j. SetIndex j \<in> set us \<longrightarrow> j < n) \<Longrightarrow> fst (run_index n i us) < n"
proof (induction us arbitrary: i)
  case Nil
  then show ?case by simp
next
  case (Cons u us)
  obtain j fx where st: "index_step n i u = (j, fx)" by (cases "index_step n i u")
  from Cons.prems st have "j < n" by (cases u) (auto split: if_splits)
  with Cons.IH [of j] Cons.prems st show ?case by (simp add: split_beta)
qed

text \<open>The two orders agree on the index: the flags never feed the index updaters.\<close>

lemma render_queue_eager_index:
  "currentIndex (render_queue_eager n s us) = fst (run_index n (currentIndex s) (index_queue us))"
  by (induction n s us rule: render_queue_eager.induct) (simp_all add: split_beta)

lemma batch_orders_same_index:
  "currentIndex (batch_render_eager n s cs) = currentIndex (batch_render n s cs)"
  by (simp add: batch_render_eager_def batch_render_def render_updates_def render_queue_eager_index
      split_beta)

end
