(* ===== verification/Upload.thy ===== *)
theory Upload
  imports Params
begin

text \<open>
  The upload screen (\<open>UploadPhotosScreen\<close> in \<open>src/upload.tsx\<close>): the caption, the
  picked slides and the loading flag, the photo picker handler \<open>pickImages\<close> and the
  two halves of the asynchronous \<open>handleContinue\<close>, split at its \<open>await\<close>: the
  press, which raises the loading flag and sends the analysis request with the slides
  and caption of that render, and the settling of the request, which navigates to the
  slideshow or reports the failure, and lowers the flag. The analysis service
  (\<open>analyzeRecap\<close> of \<open>lib/analyzeRecap\<close>, outside \<open>src/\<close>) is an input: its
  result type is modelled from the interface in the specification (section 4.2), and a
  rejected promise is \<open>Inl ()\<close>. Alerts and navigation are returned as effects.
\<close>

section \<open>External interfaces\<close>

record analysis =
  a_orderedSlides :: "slide list option"
  a_title :: string
  a_vibeKey :: string
  a_vibeLabel :: string
  a_description :: "string option"
  a_highlights :: "int list option"

text \<open>\<open>launchImageLibraryAsync\<close>'s result: cancelled, or the picked assets' URIs.\<close>

datatype picker_result = Canceled | Assets "image_uri list"

datatype upload_effect = Alert string string | Navigate nav_params

section \<open>State\<close>

text \<open>\<open>pending\<close> is the suspended \<open>handleContinue\<close>: the slides and caption its
  closure captured, while the request is outstanding.\<close>

record upload =
  u_caption :: string
  u_slides :: "slide list"
  isLoading :: bool
  pending :: "(slide list \<times> string) option"

definition upload_init :: upload where
  "upload_init = \<lparr>u_caption = [], u_slides = [], isLoading = False, pending = None\<rparr>"

section \<open>Handlers\<close>

definition pickImages :: "bool \<Rightarrow> picker_result \<Rightarrow> upload \<Rightarrow> upload \<times> upload_effect list" where
  "pickImages granted res s =
     (if \<not> granted
      then (s, [Alert ''Permission needed'' ''We need access to your photos to make a recap.''])
      else (case res of
              Canceled \<Rightarrow> (s, [])
            | Assets us \<Rightarrow> (s\<lparr>u_slides := u_slides s @ map (\<lambda>u. \<lparr>uri = u\<rparr>) us\<rparr>, [])))"

definition handleContinue_press :: "upload \<Rightarrow> upload \<times> upload_effect list" where
  "handleContinue_press s =
     (if u_slides s = []
      then (s, [Alert ''Add at least one photo'' ''You need at least one photo to create a recap.''])
      else (s\<lparr>isLoading := True, pending := Some (u_slides s, u_caption s)\<rparr>, []))"

text \<open>The \<open>params\<close> of \<open>router.push\<close>, from the captured slides and caption and
  the analysis; the AI order is taken when it is present and non-empty.\<close>

definition continue_params :: "slide list \<Rightarrow> string \<Rightarrow> analysis \<Rightarrow> nav_params" where
  "continue_params ss c a =
     (let orderedSlides =
        (case a_orderedSlides a of Some os \<Rightarrow> if 0 < length os then os else ss | None \<Rightarrow> ss)
      in \<lparr>p_slides = Some orderedSlides,
          p_caption = Some c,
          p_title = Some (a_title a),
          p_vibeKey = Some (a_vibeKey a),
          p_vibeLabel = Some (a_vibeLabel a),
          p_emotion = None,
          p_description = a_description a,
          p_highlights = Some (case a_highlights a of None \<Rightarrow> [] | Some hs \<Rightarrow> hs)\<rparr>)"

definition handleContinue_settle :: "unit + analysis \<Rightarrow> upload \<Rightarrow> upload \<times> upload_effect list" where
  "handleContinue_settle out s =
     (case pending s of
        None \<Rightarrow> (s, [])
      | Some (ss, c) \<Rightarrow>
          (s\<lparr>isLoading := False, pending := None\<rparr>,
           (case out of
              Inl _ \<Rightarrow> [Alert ''Error'' ''Something went wrong while generating your recap vibe.'']
            | Inr a \<Rightarrow> [Navigate (continue_params ss c a)])))"

section \<open>Events\<close>

datatype upload_event =
  EditCaption string | PressAddPhotos bool picker_result | PressContinue
| AnalysisSettles "unit + analysis"

definition upload_step :: "upload \<Rightarrow> upload_event \<Rightarrow> upload \<times> upload_effect list" where
  "upload_step s e =
     (case e of
        EditCaption c \<Rightarrow> (s\<lparr>u_caption := c\<rparr>, [])
      | PressAddPhotos g r \<Rightarrow> pickImages g r s
      | PressContinue \<Rightarrow> handleContinue_press s
      | AnalysisSettles out \<Rightarrow> handleContinue_settle out s)"

section \<open>Rendering\<close>

text \<open>The photo area: the empty state, or one thumbnail per slide in selection order,
  each a React element keyed \<open>slide.uri + idx\<close> (string concatenation prints the
  index in decimal) showing the slide's image.\<close>

datatype photos_view = EmptyPhotos | Thumbnails "(string \<times> image_uri) list"

record upload_view =
  v_caption :: string
  v_photos :: photos_view
  v_addLabel :: string
  v_addDisabled :: bool
  v_continueDisabled :: bool
  v_spinner :: bool

definition thumbnails :: "slide list \<Rightarrow> (string \<times> image_uri) list" where
  "thumbnails ss = map (\<lambda>(idx, sl). (uri sl @ decimal idx, uri sl)) (enumerate 0 ss)"

definition upload_render :: "upload \<Rightarrow> upload_view" where
  "upload_render s =
     (let isEmpty = (length (u_slides s) = 0) in
      \<lparr>v_caption = u_caption s,
       v_photos = (if isEmpty then EmptyPhotos else Thumbnails (thumbnails (u_slides s))),
       v_addLabel = (if isEmpty then ''Add photos'' else ''Add more photos''),
       v_addDisabled = isLoading s,
       v_continueDisabled = (isEmpty \<or> isLoading s),
       v_spinner = isLoading s\<rparr>)"

text \<open>The events the rendered screen offers: a button fires only when not
  \<open>disabled\<close>; the caption field stays editable; a settling needs a request.\<close>

definition upload_enabled :: "upload \<Rightarrow> upload_event \<Rightarrow> bool" where
  "upload_enabled s e =
     (case e of
        EditCaption c \<Rightarrow> True
      | PressAddPhotos g r \<Rightarrow> \<not> v_addDisabled (upload_render s)
      | PressContinue \<Rightarrow> \<not> v_continueDisabled (upload_render s)
      | AnalysisSettles out \<Rightarrow> pending s \<noteq> None)"

definition upload_inv :: "upload \<Rightarrow> bool" where
  "upload_inv s \<longleftrightarrow>
     (isLoading s \<longleftrightarrow> pending s \<noteq> None) \<and> (\<forall>p \<in> set_option (pending s). fst p \<noteq> [])"

section \<open>Lemmas\<close>

lemma upload_enabled_simps [simp]:
  "upload_enabled s (EditCaption c)"
  "upload_enabled s (PressAddPhotos g r) \<longleftrightarrow> \<not> isLoading s"
  "upload_enabled s (AnalysisSettles out) \<longleftrightarrow> pending s \<noteq> None"
  by (simp_all add: upload_enabled_def upload_render_def Let_def)

lemma upload_enabled_continue [simp]:
  "upload_enabled s PressContinue \<longleftrightarrow> u_slides s \<noteq> [] \<and> \<not> isLoading s"
  by (simp add: upload_enabled_def upload_render_def Let_def)

lemma thumbnails_uris: "map snd (thumbnails ss) = map uri ss"
proof -
  have "map snd (thumbnails ss) = map (\<lambda>x. uri (snd x)) (enumerate 0 ss)"
    by (simp add: thumbnails_def split_def)
  also have "\<dots> = map uri (map snd (enumerate 0 ss))" by (simp only: map_map comp_def)
  also have "\<dots> = map uri ss" by (simp only: map_snd_enumerate)
  finally show ?thesis .
qed

text \<open>Two thumbnails with equal keys are at the same position when no URI ends in a
  digit.\<close>

lemma thumbnail_key_inj:
  assumes "uri a = [] \<or> \<not> is_digit (last (uri a))" and "uri b = [] \<or> \<not> is_digit (last (uri b))"
    and "uri a @ decimal i = uri b @ decimal j"
  shows "i = j"
  using digit_suffix_unique [OF decimal_digits decimal_digits assms] by (blast dest: decimal_inj)

lemma upload_init_inv: "upload_inv upload_init"
  by (simp add: upload_inv_def upload_init_def)

lemma upload_step_inv: "upload_inv s \<Longrightarrow> upload_inv (fst (upload_step s e))"
  by (cases e)
     (auto simp: upload_inv_def upload_step_def pickImages_def handleContinue_press_def
        handleContinue_settle_def split: picker_result.splits option.splits)

text \<open>The slides of the navigation payload: the service's order when it gave a
  non-empty one, the captured selection otherwise; never empty when the selection is
  not.\<close>

lemma continue_params_slides:
  "p_slides (continue_params ss c a) =
     Some (case a_orderedSlides a of Some os \<Rightarrow> if os \<noteq> [] then os else ss | None \<Rightarrow> ss)"
  by (simp add: continue_params_def Let_def split: option.splits)

lemma continue_params_nonempty:
  "ss \<noteq> [] \<Longrightarrow> \<exists>xs. p_slides (continue_params ss c a) = Some xs \<and> xs \<noteq> []"
  by (simp add: continue_params_slides split: option.splits)

lemma settle_navigates:
  "Navigate p \<in> set (snd (handleContinue_settle out s)) \<longleftrightarrow>
   (\<exists>ss c a. pending s = Some (ss, c) \<and> out = Inr a \<and> p = continue_params ss c a)"
  by (auto simp: handleContinue_settle_def split: option.splits sum.splits)

lemma upload_step_navigates:
  "Navigate p \<in> set (snd (upload_step s e)) \<longleftrightarrow>
   (\<exists>ss c a. pending s = Some (ss, c) \<and> e = AnalysisSettles (Inr a) \<and> p = continue_params ss c a)"
  by (cases e)
     (auto simp: upload_step_def settle_navigates pickImages_def handleContinue_press_def
        split: picker_result.splits)


lemma thumbnail_key_nth:
  "j < length ss \<Longrightarrow> map fst (thumbnails ss) ! j = uri (ss ! j) @ decimal j"
  by (simp add: thumbnails_def nth_enumerate_eq)

end
