(* ===== verification/App.thy ===== *)
theory App
  imports Player_View Upload
begin

text \<open>
  The three screens composed by the router: the home screen (\<open>HomeScreen\<close> of
  \<open>src/index.tsx\<close>, whose only handler pushes \<open>/upload\<close>), the upload screen and
  the slideshow screen, on the navigation stack of \<open>expo-router\<close> (head = top). A
  screen handles the events of its own controls only when it is on top, but the
  settling of the upload screen's analysis request reaches it wherever it is; the
  \<open>Navigate\<close> effect of the upload screen pushes a slideshow whose recap is the decoded
  payload and whose player starts in its initial state. \<open>router.back()\<close> pops the top
  screen; popping an upload screen while its analysis request is outstanding unmounts
  it, but the request's continuation still runs: when it succeeds its
  \<open>router.push\<close> still opens the slideshow. Those continuations are kept in
  \<open>orphans\<close>.
\<close>

section \<open>State\<close>

datatype screen = HomeScreen | UploadScreen upload | SlideshowScreen recap player

record app =
  stack :: "screen list"
  orphans :: "(slide list \<times> string) list"

definition app_init :: app where
  "app_init = \<lparr>stack = [HomeScreen], orphans = []\<rparr>"

section \<open>Navigation\<close>

text \<open>Entering the slideshow route: decode the params, mount the player.\<close>

definition open_slideshow :: "nav_params \<Rightarrow> screen" where
  "open_slideshow p =
     (let r = decode_params p in SlideshowScreen r (player_init (length (slides r))))"

fun apply_effects :: "upload_effect list \<Rightarrow> screen list \<Rightarrow> screen list" where
  "apply_effects [] st = st"
| "apply_effects (Alert t m # es) st = apply_effects es st"
| "apply_effects (Navigate p # es) st = apply_effects es (open_slideshow p # st)"

text \<open>The continuation of \<open>handleContinue\<close> after its \<open>await\<close> runs whatever screen is
  on top: it updates the state of the mounted upload screen (the topmost one, possibly
  covered by slideshows pushed since) and its \<open>router.push\<close> pushes on top of the
  whole stack. \<open>upload_in_stack\<close> applies a handler of the upload screen to the
  topmost upload screen of the stack and returns its effects; none without one.\<close>

fun upload_in_stack :: "upload_event \<Rightarrow> screen list \<Rightarrow> screen list \<times> upload_effect list" where
  "upload_in_stack ue [] = ([], [])"
| "upload_in_stack ue (UploadScreen u # rest) =
     (let (u', effs) = upload_step u ue in (UploadScreen u' # rest, effs))"
| "upload_in_stack ue (x # rest) =
     (let (rest', effs) = upload_in_stack ue rest in (x # rest', effs))"

definition remove_nth :: "nat \<Rightarrow> 'a list \<Rightarrow> 'a list" where
  "remove_nth i xs = take i xs @ drop (Suc i) xs"

text \<open>\<open>router.back()\<close>: the root screen stays; a popped upload screen leaves its
  outstanding request behind.\<close>

definition router_back :: "app \<Rightarrow> app" where
  "router_back a =
     (case stack a of
        [] \<Rightarrow> a
      | scr # rest \<Rightarrow>
          if rest = [] then a
          else a\<lparr>stack := rest,
                 orphans := (case scr of
                               UploadScreen u \<Rightarrow>
                                 (case pending u of Some q \<Rightarrow> q # orphans a | None \<Rightarrow> orphans a)
                             | _ \<Rightarrow> orphans a)\<rparr>)"

section \<open>Events\<close>

datatype app_event =
  HomePress | UploadEv upload_event | PlayerEv player_event | RouterBack
| OrphanSettles nat "unit + analysis"

definition app_step :: "app \<Rightarrow> app_event \<Rightarrow> app" where
  "app_step a e =
     (case e of
        HomePress \<Rightarrow>
          (case stack a of
             HomeScreen # _ \<Rightarrow> a\<lparr>stack := UploadScreen upload_init # stack a\<rparr>
           | _ \<Rightarrow> a)
      | UploadEv ue \<Rightarrow>
          (case ue of
             AnalysisSettles out \<Rightarrow>
               (let (st', effs) = upload_in_stack ue (stack a)
                in a\<lparr>stack := apply_effects effs st'\<rparr>)
           | _ \<Rightarrow>
               (case stack a of
                  UploadScreen u # rest \<Rightarrow>
                    (let (u', effs) = upload_step u ue
                     in a\<lparr>stack := apply_effects effs (UploadScreen u' # rest)\<rparr>)
                | _ \<Rightarrow> a))
      | PlayerEv pe \<Rightarrow>
          (case stack a of
             SlideshowScreen r s # rest \<Rightarrow>
               a\<lparr>stack := SlideshowScreen r (player_step (length (slides r)) s pe) # rest\<rparr>
           | _ \<Rightarrow> a)
      | RouterBack \<Rightarrow> router_back a
      | OrphanSettles i out \<Rightarrow>
          (if i < length (orphans a)
           then (let (ss, c) = orphans a ! i;
                     a' = a\<lparr>orphans := remove_nth i (orphans a)\<rparr>
                 in case out of
                      Inl _ \<Rightarrow> a'
                    | Inr an \<Rightarrow> a'\<lparr>stack := open_slideshow (continue_params ss c an) # stack a\<rparr>)
           else a))"

inductive app_reachable :: "app \<Rightarrow> bool" where
  init: "app_reachable app_init"
| step: "app_reachable a \<Longrightarrow> app_reachable (app_step a e)"

section \<open>Invariant\<close>

fun screen_ok :: "screen \<Rightarrow> bool" where
  "screen_ok HomeScreen = True"
| "screen_ok (UploadScreen u) = upload_inv u"
| "screen_ok (SlideshowScreen r s) = (slides r \<noteq> [] \<and> player_inv (length (slides r)) s)"

definition app_inv :: "app \<Rightarrow> bool" where
  "app_inv a \<longleftrightarrow> list_all screen_ok (stack a) \<and> list_all (\<lambda>q. fst q \<noteq> []) (orphans a)"

section \<open>The invariant holds in every reachable state\<close>

lemma decode_continue_params_slides:
  "slides (decode_params (continue_params ss c an)) =
     (case a_orderedSlides an of Some os \<Rightarrow> if os \<noteq> [] then os else ss | None \<Rightarrow> ss)"
  by (simp add: decode_params_def continue_params_slides)

lemma open_slideshow_ok:
  "ss \<noteq> [] \<Longrightarrow> screen_ok (open_slideshow (continue_params ss c an))"
  by (simp add: open_slideshow_def decode_continue_params_slides player_init_inv
      split: option.splits)

lemma apply_effects_ok:
  "list_all screen_ok st \<Longrightarrow> (\<And>p. Navigate p \<in> set effs \<Longrightarrow> screen_ok (open_slideshow p)) \<Longrightarrow>
   list_all screen_ok (apply_effects effs st)"
  by (induction effs st rule: apply_effects.induct) simp_all

lemma upload_effects_ok:
  assumes "upload_inv u" and "Navigate p \<in> set (snd (upload_step u e))"
  shows "screen_ok (open_slideshow p)"
proof -
  from assms(2) obtain ss c an where "pending u = Some (ss, c)" and p: "p = continue_params ss c an"
    by (auto simp: upload_step_navigates)
  with assms(1) have "ss \<noteq> []" by (auto simp: upload_inv_def)
  with p show ?thesis by (simp add: open_slideshow_ok)
qed

lemma list_all_remove_nth: "list_all P xs \<Longrightarrow> list_all P (remove_nth i xs)"
  by (auto simp: remove_nth_def list_all_iff dest: in_set_takeD in_set_dropD)

lemma router_back_inv: "app_inv a \<Longrightarrow> app_inv (router_back a)"
  by (auto simp: router_back_def app_inv_def upload_inv_def
      split: list.splits screen.splits option.splits)

lemma app_step_orphan:
  "i < length (orphans a) \<Longrightarrow> orphans a ! i = (ss, c) \<Longrightarrow>
   app_step a (OrphanSettles i out) =
     (case out of
        Inl _ \<Rightarrow> a\<lparr>orphans := remove_nth i (orphans a)\<rparr>
      | Inr an \<Rightarrow> a\<lparr>orphans := remove_nth i (orphans a),
                   stack := open_slideshow (continue_params ss c an) # stack a\<rparr>)"
  by (simp add: app_step_def split: sum.splits)

lemma orphan_settles_inv: "app_inv a \<Longrightarrow> app_inv (app_step a (OrphanSettles i out))"
proof -
  assume inv: "app_inv a"
  show ?thesis
  proof (cases "i < length (orphans a)")
    case True
    obtain ss c where q: "orphans a ! i = (ss, c)" by (cases "orphans a ! i")
    from inv True have "fst (orphans a ! i) \<noteq> []"
      by (simp add: app_inv_def list_all_length)
    with q have ss: "ss \<noteq> []" by simp
    from inv have "list_all (\<lambda>q. fst q \<noteq> []) (remove_nth i (orphans a))"
      by (simp add: app_inv_def list_all_remove_nth)
    with inv ss show ?thesis
      by (simp add: app_step_orphan [OF True q] app_inv_def open_slideshow_ok split: sum.splits)
  qed (simp add: app_step_def inv)
qed

lemma app_step_upload:
  "stack a = UploadScreen u # rest \<Longrightarrow> upload_step u ue = (u', effs) \<Longrightarrow>
   app_step a (UploadEv ue) = a\<lparr>stack := apply_effects effs (UploadScreen u' # rest)\<rparr>"
  by (cases ue) (simp_all add: app_step_def)

lemma app_step_settle:
  "upload_in_stack (AnalysisSettles out) (stack a) = (st', effs) \<Longrightarrow>
   app_step a (UploadEv (AnalysisSettles out)) = a\<lparr>stack := apply_effects effs st'\<rparr>"
  by (simp add: app_step_def)

lemma app_step_upload_cases:
  "app_step a (UploadEv ue) = a \<or>
   (\<exists>st' effs. upload_in_stack ue (stack a) = (st', effs) \<and>
      app_step a (UploadEv ue) = a\<lparr>stack := apply_effects effs st'\<rparr>)"
  by (cases ue) (auto simp: app_step_def split: list.splits screen.splits prod.splits)

lemma upload_in_stack_other:
  "(\<nexists>u. x = UploadScreen u) \<Longrightarrow>
   upload_in_stack ue (x # rest) = (let (r', e') = upload_in_stack ue rest in (x # r', e'))"
  by (cases x) simp_all

lemma upload_in_stack_shape:
  "upload_in_stack ue st = (st', effs) \<Longrightarrow>
   (st' = st \<and> effs = []) \<or> (\<exists>ys u u' zs. st = ys @ UploadScreen u # zs \<and> st' = ys @ UploadScreen u' # zs)"
proof (induction st arbitrary: st' effs)
  case (Cons x rest)
  show ?case
  proof (cases "\<exists>u. x = UploadScreen u")
    case True
    then show ?thesis using Cons.prems by (auto split: prod.splits intro!: exI [of _ "[]"])
  next
    case False
    obtain r' e' where r: "upload_in_stack ue rest = (r', e')" by (cases "upload_in_stack ue rest")
    with Cons.prems False have st': "st' = x # r'" and e: "effs = e'"
      by (simp_all add: upload_in_stack_other)
    from Cons.IH [OF r] show ?thesis
    proof
      assume "r' = rest \<and> e' = []"
      with st' e show ?thesis by simp
    next
      assume "\<exists>ys u u' zs. rest = ys @ UploadScreen u # zs \<and> r' = ys @ UploadScreen u' # zs"
      then obtain ys u u' zs where "rest = ys @ UploadScreen u # zs" "r' = ys @ UploadScreen u' # zs"
        by blast
      with st' have "x # rest = (x # ys) @ UploadScreen u # zs \<and> st' = (x # ys) @ UploadScreen u' # zs"
        by simp
      then show ?thesis by blast
    qed
  qed
qed simp

lemma upload_in_stack_ok:
  "list_all screen_ok st \<Longrightarrow> upload_in_stack ue st = (st', effs) \<Longrightarrow>
   list_all screen_ok st' \<and> (\<forall>p. Navigate p \<in> set effs \<longrightarrow> screen_ok (open_slideshow p))"
proof (induction st arbitrary: st' effs)
  case (Cons x rest)
  show ?case
  proof (cases "\<exists>u. x = UploadScreen u")
    case True
    then obtain u where x: "x = UploadScreen u" by blast
    obtain u' e' where ue: "upload_step u ue = (u', e')" by (cases "upload_step u ue")
    from Cons.prems(1) x have u: "upload_inv u" by simp
    from upload_step_inv [OF u, of ue] ue have "upload_inv u'" by simp
    moreover have "\<And>p. Navigate p \<in> set e' \<Longrightarrow> screen_ok (open_slideshow p)"
      using upload_effects_ok [OF u] ue by (metis snd_conv)
    ultimately show ?thesis using Cons.prems x ue by auto
  next
    case False
    obtain r' e' where r: "upload_in_stack ue rest = (r', e')" by (cases "upload_in_stack ue rest")
    with Cons.prems False have st': "st' = x # r'" and "effs = e'"
      by (simp_all add: upload_in_stack_other)
    with Cons.IH [of r' e'] Cons.prems r show ?thesis by simp
  qed
qed simp

lemma app_step_player:
  "stack a = SlideshowScreen r s # rest \<Longrightarrow>
   app_step a (PlayerEv pe) = a\<lparr>stack := SlideshowScreen r (player_step (length (slides r)) s pe) # rest\<rparr>"
  by (simp add: app_step_def)

lemma app_step_other:
  "(\<nexists>r s rest. stack a = SlideshowScreen r s # rest) \<Longrightarrow> app_step a (PlayerEv pe) = a"
  by (auto simp: app_step_def split: list.splits screen.splits)

lemma upload_ev_inv: "app_inv a \<Longrightarrow> app_inv (app_step a (UploadEv ue))"
proof -
  assume inv: "app_inv a"
  consider "app_step a (UploadEv ue) = a"
    | st' effs where "upload_in_stack ue (stack a) = (st', effs)"
        "app_step a (UploadEv ue) = a\<lparr>stack := apply_effects effs st'\<rparr>"
    using app_step_upload_cases [of a ue] by blast
  then show ?thesis
  proof cases
    case 1
    with inv show ?thesis by simp
  next
    case (2 st' effs)
    from inv have "list_all screen_ok (stack a)" by (simp add: app_inv_def)
    from upload_in_stack_ok [OF this 2(1)]
    have "list_all screen_ok (apply_effects effs st')" by (blast intro: apply_effects_ok)
    with inv 2(2) show ?thesis by (simp add: app_inv_def)
  qed
qed

lemma player_ev_inv: "app_inv a \<Longrightarrow> app_inv (app_step a (PlayerEv pe))"
proof -
  assume inv: "app_inv a"
  show ?thesis
  proof (cases "\<exists>r s rest. stack a = SlideshowScreen r s # rest")
    case True
    then obtain r s rest where st: "stack a = SlideshowScreen r s # rest" by blast
    with inv show ?thesis by (simp add: app_step_player [OF st] app_inv_def player_step_inv)
  next
    case False
    with inv show ?thesis by (simp add: app_step_other)
  qed
qed

lemma home_press_inv: "app_inv a \<Longrightarrow> app_inv (app_step a HomePress)"
  by (simp add: app_step_def app_inv_def upload_init_inv split: list.splits screen.splits)

lemma app_step_inv: "app_inv a \<Longrightarrow> app_inv (app_step a e)"
  by (cases e)
     (simp_all add: home_press_inv upload_ev_inv player_ev_inv orphan_settles_inv
        router_back_inv, simp add: app_step_def router_back_inv)

lemma app_reachable_inv: "app_reachable a \<Longrightarrow> app_inv a"
proof (induction rule: app_reachable.induct)
  case init
  show ?case by (simp add: app_init_def app_inv_def)
next
  case (step a e)
  from step.IH show ?case by (rule app_step_inv)
qed
end
