(* ===== verification/Home.thy ===== *)
theory Home
  imports Prelude
begin

text \<open>
  What the home screen (\<open>HomeScreen\<close> of \<open>src/index.tsx\<close>, lines 14--41) shows: the
  sparkle icon, the title and subtitle, the one call to action, whose \<open>onPress\<close> is
  \<open>handlePress\<close> (the \<open>HomePress\<close> event of \<open>App\<close>), and three pagination dots of
  which the first is active. The sparkle is U+2728, written as its UTF-8 bytes.
\<close>

record home_view =
  h_icon :: string
  h_title :: string
  h_subtitle :: string
  h_cta :: string
  h_dots :: "bool list"

definition home_render :: home_view where
  "home_render =
     \<lparr>h_icon = map char_of [226 :: nat, 156, 168],
      h_title = ''Lumi'',
      h_subtitle = ''Create beautiful photo recaps in seconds'',
      h_cta = ''Make a Recap'',
      h_dots = [True, False, False]\<rparr>"

end
