(* ===== verification/App_Nav.thy ===== *)
theory App_Nav
  imports App Home
begin

text \<open>
  Which app events the screen on top offers, and getting back home. The home screen
  offers its call to action (\<open>src/index.tsx\<close>, lines 29--31); the upload screen the
  events of its enabled controls and its header's back button (\<open>src/upload.tsx\<close>,
  lines 117--125); the slideshow the events \<open>player_enabled\<close> offers and its close
  button, or the Back button of its empty state (\<open>src/slideshow.tsx\<close>, lines
  200--205 and 224--229), both \<open>router.back()\<close>. An orphaned request, and the
  outstanding request of the mounted upload screen (\<open>top_upload\<close>), can settle
  whatever screen is on top. Every reachable stack has the home screen at its bottom and nowhere
  else (\<open>home_rooted\<close>), so back presses, each offered, lead home.
\<close>

section \<open>The events each screen offers\<close>

text \<open>The topmost upload screen of a stack, whose request can settle whatever is on
  top of it.\<close>

fun top_upload :: "screen list \<Rightarrow> upload option" where
  "top_upload [] = None"
| "top_upload (UploadScreen u # rest) = Some u"
| "top_upload (x # rest) = top_upload rest"

definition app_enabled :: "app \<Rightarrow> app_event \<Rightarrow> bool" where
  "app_enabled a e =
     (case e of
        OrphanSettles i out \<Rightarrow> i < length (orphans a)
      | UploadEv (AnalysisSettles out) \<Rightarrow>
          (case top_upload (stack a) of None \<Rightarrow> False | Some u \<Rightarrow> pending u \<noteq> None)
      | _ \<Rightarrow>
          (case stack a of
             [] \<Rightarrow> False
           | HomeScreen # _ \<Rightarrow> e = HomePress
           | UploadScreen u # _ \<Rightarrow>
               (case e of UploadEv ue \<Rightarrow> upload_enabled u ue | RouterBack \<Rightarrow> True | _ \<Rightarrow> False)
           | SlideshowScreen r s # _ \<Rightarrow>
               (case e of
                  PlayerEv pe \<Rightarrow> player_enabled (length (slides r)) s pe
                | RouterBack \<Rightarrow> True
                | _ \<Rightarrow> False)))"

definition home_rooted :: "app \<Rightarrow> bool" where
  "home_rooted a \<longleftrightarrow>
     stack a \<noteq> [] \<and> last (stack a) = HomeScreen \<and> HomeScreen \<notin> set (butlast (stack a))"

section \<open>Lemmas\<close>

lemma apply_effects_push:
  "\<exists>ys. apply_effects effs st = ys @ st \<and> HomeScreen \<notin> set ys"
proof (induction effs arbitrary: st)
  case Nil
  show ?case by simp
next
  case (Cons e effs)
  show ?case
  proof (cases e)
    case (Alert t m)
    with Cons.IH [of st] show ?thesis by simp
  next
    case (Navigate p)
    obtain ys where "apply_effects effs (open_slideshow p # st) = ys @ open_slideshow p # st"
      and "HomeScreen \<notin> set ys" using Cons.IH by blast
    with Navigate show ?thesis
      by (intro exI [of _ "ys @ [open_slideshow p]"]) (simp add: open_slideshow_def Let_def)
  qed
qed

lemma home_rooted_push:
  "home_rooted a \<Longrightarrow> HomeScreen \<notin> set ys \<Longrightarrow> home_rooted (a\<lparr>stack := ys @ stack a\<rparr>)"
  by (auto simp: home_rooted_def butlast_append)

lemma home_rooted_top:
  assumes "home_rooted a" and "stack a = x # rest" and "x \<noteq> HomeScreen" and "y \<noteq> HomeScreen"
  shows "home_rooted (a\<lparr>stack := y # rest\<rparr>)"
  using assms by (auto simp: home_rooted_def split: if_splits)

lemma home_rooted_replace:
  "home_rooted a \<Longrightarrow> stack a = ys @ UploadScreen u # zs \<Longrightarrow>
   home_rooted (a\<lparr>stack := ys @ UploadScreen u' # zs\<rparr>)"
  by (cases zs rule: rev_cases) (auto simp: home_rooted_def butlast_append)

lemma router_back_rooted: "home_rooted a \<Longrightarrow> home_rooted (router_back a)"
  by (auto simp: home_rooted_def router_back_def split: list.splits)

lemma app_step_rooted: "home_rooted a \<Longrightarrow> home_rooted (app_step a e)"
proof (cases e)
  case HomePress
  assume r: "home_rooted a"
  then show ?thesis using HomePress
    by (auto simp: app_step_def intro: home_rooted_push [of a "[UploadScreen upload_init]", simplified]
        split: list.splits screen.splits)
next
  case (UploadEv ue)
  assume r: "home_rooted a"
  consider "app_step a (UploadEv ue) = a"
    | st' effs where "upload_in_stack ue (stack a) = (st', effs)"
        "app_step a (UploadEv ue) = a\<lparr>stack := apply_effects effs st'\<rparr>"
    using app_step_upload_cases [of a ue] by blast
  then show ?thesis
  proof cases
    case 1
    with r UploadEv show ?thesis by simp
  next
    case (2 st' effs)
    have r': "home_rooted (a\<lparr>stack := st'\<rparr>)"
      using upload_in_stack_shape [OF 2(1)] r by (auto intro: home_rooted_replace)
    obtain ys where ys: "apply_effects effs st' = ys @ st'" and h: "HomeScreen \<notin> set ys"
      using apply_effects_push by blast
    from home_rooted_push [OF r' h] ys 2(2) UploadEv show ?thesis by simp
  qed
next
  case (PlayerEv pe)
  assume r: "home_rooted a"
  then show ?thesis using PlayerEv home_rooted_top [OF r]
    by (auto simp: app_step_def split: list.splits screen.splits)
next
  case RouterBack
  then show "home_rooted a \<Longrightarrow> ?thesis" by (simp add: app_step_def router_back_rooted)
next
  case (OrphanSettles i out)
  assume r: "home_rooted a"
  have o: "home_rooted (a\<lparr>orphans := x\<rparr>)" for x using r by (simp add: home_rooted_def)
  show ?thesis using r OrphanSettles o home_rooted_push [OF o, of "[open_slideshow p]" for p]
    by (auto simp: app_step_def Let_def open_slideshow_def split: prod.splits sum.splits)
qed

lemma app_reachable_rooted: "app_reachable a \<Longrightarrow> home_rooted a"
proof (induction rule: app_reachable.induct)
  case init
  show ?case by (simp add: home_rooted_def app_init_def)
next
  case (step a e)
  from step.IH show ?case by (rule app_step_rooted)
qed

lemma drop_to_last: "xs \<noteq> [] \<Longrightarrow> drop (length xs - 1) xs = [last xs]"
  by (cases xs rule: rev_cases) simp_all

lemma router_back_stack: "stack a = x # rest \<Longrightarrow> rest \<noteq> [] \<Longrightarrow> stack (router_back a) = rest"
  by (simp add: router_back_def)

lemma back_presses_pop:
  "j < length (stack a) \<Longrightarrow> stack (((\<lambda>b. app_step b RouterBack) ^^ j) a) = drop j (stack a)"
proof (induction j)
  case 0
  show ?case by simp
next
  case (Suc j)
  then have st: "stack (((\<lambda>b. app_step b RouterBack) ^^ j) a) = drop j (stack a)" by simp
  from Suc.prems have "drop j (stack a) = stack a ! j # drop (Suc j) (stack a)"
    by (simp add: Cons_nth_drop_Suc)
  moreover from Suc.prems have "drop (Suc j) (stack a) \<noteq> []" by simp
  ultimately show ?case using st by (simp add: app_step_def router_back_stack)
qed

lemma back_enabled:
  "app_enabled a RouterBack \<longleftrightarrow> (case stack a of [] \<Rightarrow> False | x # _ \<Rightarrow> x \<noteq> HomeScreen)"
  by (auto simp: app_enabled_def split: list.splits screen.splits)

end
