(* ===== verification/Spec2Isabelle.thy ===== *)
theory Spec2Isabelle
  imports Player_Spec Player_Clock Player_Layout Player_Anim Player_Batch App_Nav
begin

text \<open>
  \<^bold>\<open>Lumi: a verified model of the recap player and the flow that feeds it.\<close>

  \<^emph>\<open>The program.\<close> Lumi is a React Native (Expo) app of three screens. The home
  screen (\<open>src/index.tsx\<close>) pushes the upload route. The upload screen
  (\<open>src/upload.tsx\<close>) collects photos through the media library and a caption,
  sends both to an external analysis service (\<open>analyzeRecap\<close>, in \<open>lib/\<close>, outside
  \<open>src/\<close>), and on success pushes the slideshow route with the ordered slides and the
  narrative metadata as navigation parameters. The slideshow screen
  (\<open>src/slideshow.tsx\<close>) decodes those parameters and runs the playback state machine:
  an intro overlay, auto-advance driven by a \<open>setInterval\<close> armed in a \<open>useEffect\<close>,
  tap navigation, pause and resume, an outro overlay with replay and share.

  \<^emph>\<open>The theories.\<close>
  \<^item> \<open>Prelude\<close>: the slide record (\<open>type Slide\<close>), the index type, the theorem
    collections \<open>handler_defs\<close> and \<open>inv_defs\<close>, index arithmetic, and the decimal
    printing of numbers (\<open>decimal\<close>) with a reference reader (\<open>read_decimal\<close>), its
    digits, its injectivity and the unique split of a string into a part not ending in
    a digit and a digit suffix.
  \<^item> \<open>Player\<close>: the player state (the four \<open>useState\<close> hooks plus the interval
    handle, as a record), the effect's guard, dependency array and re-sync
    (\<open>timer_armed\<close>, \<open>effect_deps\<close>, \<open>sync_interval\<close>), the interval callback
    (\<open>intervalTick\<close>, \<open>fire\<close>), the handlers \<open>goNext\<close>, \<open>goPrev\<close>,
    \<open>handleStartRecap\<close>, \<open>handleReplay\<close>, \<open>pressPlayPause\<close> (\<open>goPrev\<close>
    through its functional updater \<open>prevIndex\<close> on integers), time passing
    (\<open>elapse\<close>, a \<open>function\<close> with a termination proof), and the event step
    \<open>player_step\<close>: handler, one render with the batched updates, effect re-sync. Its
    invariant \<open>player_inv\<close> (index on a slide; interval armed exactly when the guard
    holds and never waiting more than one period; outro only at the last slide and
    paused) is preserved by every event, offered or not; \<open>elapse_to_outro\<close> computes
    how auto-advance reaches the outro.
  \<^item> \<open>Player_Clock\<close>: the interval against a millisecond clock. \<open>tick_ms\<close> is one
    millisecond of the event loop for the interval (count down the wait; at its end run
    the callback and re-sync), \<open>clock\<close> iterates it (\<open>^^\<close>); \<open>elapse\<close> equals the
    clock on every state of the invariant. \<open>play_out\<close> (a \<open>partial_function\<close> over
    \<open>option\<close>) lets the interval run until it is cleared, and is shown to return.
  \<^item> \<open>Params\<close>: the navigation payload and its decoding (the defaults of lines
    42--51 of \<open>slideshow.tsx\<close>). JSON encoding of the two list parameters is taken to
    round-trip.
  \<^item> \<open>Player_View\<close>: scene type, progress (an exact rational), highlight test, vibe
    accent, emotion label, overlays and their cards (caption and title fallbacks, the
    typographic quotes as UTF-8 bytes), header button label, progress bar width, the
    rendered frame or the empty state, \<open>handleShare\<close>; \<open>rendered_controls\<close> lists
    the pressable controls of the tree and \<open>control_events\<close> their \<open>onPress\<close>
    events (a touch goes to the sibling with the higher \<open>zIndex\<close>, so the full-screen
    overlay, \<open>zIndex\<close> 4, covers the tap zones, \<open>zIndex\<close> 3), and
    \<open>player_enabled\<close>, the events a user can cause, is read from them
    (\<open>player_enabled_iff\<close> lists them event by event); \<open>frame_wf\<close> says what a frame
    can show.
  \<^item> \<open>Player_Layout\<close>: touch routing on the slideshow frame. The absolutely
    positioned views (letterbox bars, top fade, tap zones, image, caption block,
    full-screen overlays) are boxes with their \<open>zIndex\<close> from the \<open>styles\<close> object; a
    touch goes to the highest box containing it, the later sibling on a tie
    (\<open>topmost\<close>, a fold). General stacking lemmas (the chosen layer contains the point;
    a highest layer wins; lower layers added above do not) give the routing of the
    frame, and \<open>tap_zones_reachable\<close> shows that the tap zones can be touched exactly
    when \<open>player_enabled\<close> offers the taps.
  \<^item> \<open>Player_Anim\<close>: the slide-in animation (\<open>animateSlideIn\<close>: Ken Burns 1400 ms,
    fade-in 450 ms) as the time since its last start, restarted by the handlers'
    direct calls and by its effect on every index change, also between the firings of
    the interval (\<open>elapse_anim\<close>, with the termination measure of \<open>elapse\<close>). Its
    invariant \<open>anim_ok\<close> (the animation started with the interval's period) is
    established by Start and Replay and kept by the passing of time.
  \<^item> \<open>Player_Batch\<close>: the handlers' setter calls as an update queue. A handler call
    queues absolute values read from its render's closure and functional updaters
    (\<open>handler_updates\<close>); the next render applies the index hook's queue first, then
    the flags' queues with the interval updater's own setter calls at their end
    (\<open>render_updates\<close>). One call rendered alone is the direct handler of \<open>Player\<close>;
    several calls batched into one render keep the index on a slide, which the one-call
    model cannot show (there \<open>goNext\<close>'s \<open>Math.min\<close> is never needed).
    \<open>render_queue_eager\<close> is the other order React may use for the interval's impure
    updater (run when called); the two orders agree on the index and differ on the
    flags (\<open>tick_batched_with_back\<close>).
  \<^item> \<open>Player_Spec\<close>: the transition table of the specification as an abstract
    machine over (phase, index), and the simulation lemmas: \<open>spec_trace\<close> maps the
    events of a run to the transitions of the table (a button or tap to its
    transition, a wait to one \<open>TimerFires\<close> per firing it covers, counted by
    \<open>firings\<close>), and the table, run on that trace from the abstraction of a state,
    ends in the abstraction of the state the code reaches.
  \<^item> \<open>Upload\<close>: the upload state (caption, slides, loading flag, and the suspended
    request with the slides and caption its closure captured), \<open>pickImages\<close>, the two
    halves of \<open>handleContinue\<close> around its \<open>await\<close>, the payload
    \<open>continue_params\<close>, the rendered screen \<open>upload_render\<close> (empty state or
    thumbnails keyed \<open>slide.uri + idx\<close>, button labels, disabled flags, spinner), the
    enabling of the buttons read from its disabled flags, the invariant
    \<open>upload_inv\<close>.
  \<^item> \<open>Home\<close>: what the home screen shows (\<open>home_render\<close>).
  \<^item> \<open>App_Nav\<close>: the app events the screen on top offers (\<open>app_enabled\<close>), with the
    back controls of the upload and slideshow screens, and the requests that can settle; every reachable stack has the
    home screen at its bottom and nowhere else (\<open>home_rooted\<close>).
  \<^item> \<open>App\<close>: the navigation stack of the three screens, \<open>router.back()\<close> (which
    orphans an outstanding request), the continuation of the upload screen's request,
    which updates the mounted upload screen and pushes on top of the whole stack even
    while slideshows pushed since cover it (\<open>upload_in_stack\<close>), and the reachable app states as an inductive
    predicate, with the invariant that every slideshow on the stack has slides and a
    valid player.

  \<^emph>\<open>The claims\<close> below: index bounds and the refinement of the specified table,
  event for event (C1, C2); the empty state being unreachable in the app (C3); the
  forward, backward and replay rules (C4--C6), the backward rule with the JavaScript
  updater's \<open>=== 0\<close> test on the integer index; auto-advance reaching the outro (C7);
  the interval handle matching the effect (C8); the interval not being restarted by
  manual navigation, which the specification says it is (C9); scene labels and progress
  (C10, C11); the empty recap (C12); the intro never re-entered (C13); the upload
  screen's fallback ordering, failure path, payload, loading flag, abandoned request and
  picker (C14, C15, C17--C21); the way back home from every reachable state (C16,
  liveness); the accent table (C22); where a touch on the frame goes (C23); the index
  kept on a slide under batched updates (C24); the parameter defaults (C25); the
  slide-in animation finishing within every period of auto-advance (C26); the absence
  of re-submission (C27); the navigation payload decoded as sent (C28, round trip); the
  total duration of a recap (C29); the millisecond clock equal to \<open>elapse\<close> and
  moving the slides period by period (C30, equivalence); the interval left running
  stops (C31, termination); every rendered frame well formed (C32, the type of the
  view); the thumbnail keys distinct when no URI ends in a digit, and a collision for
  every URI pair \<open>u1\<close>/\<open>u\<close> ten places apart otherwise (C33, C34); progress never
  decreasing under forward taps and time (C35).

  \<^emph>\<open>Bounds and time.\<close> Time is in whole milliseconds. \<open>elapse n d s\<close> jumps from
  firing to firing, so it needs no fuel: it terminates because \<open>d\<close> decreases by the
  positive remaining wait, or the wait was zero and the firing re-arms with the full
  2500 ms period or disarms. The millisecond clock takes exactly \<open>d\<close> steps, and
  \<open>play_out\<close> needs no bound: its returning is proved from the invariant (at most
  \<open>n\<close> firings). Indices are natural numbers: the code only sets them to 0 and
  increments them behind a bound check; the backward updater is modelled on the
  JavaScript number (\<open>prevIndex\<close>, an \<open>int\<close>), and C5 shows that the value it
  returns at 0 is 0, so that storing it as a natural number loses nothing.

  \<^emph>\<open>Not modelled.\<close> Colours, fonts and spacing, and the layout of the upload screen
  and of the header (only the boxes that route touches on the slideshow frame are
  modelled; the content height of the caption block is a parameter, and the buttons
  inside the overlay cards are the events of \<open>player_enabled\<close>, not boxes); the easing
  curve of the animation (a parameter) and the native driver; permission dialogs and
  the media picker beyond their results, the analysis service's internals (its result
  is an input), alerts beyond their text, \<open>console.error\<close>, the share sheet beyond
  the URI it receives, React StrictMode double rendering, and React's scheduling of
  renders (which calls share a render is left open: C24 holds for any grouping). Upper-casing is modelled on ASCII letters only.
\<close>

section \<open>Fixtures for the witnesses\<close>

definition started3 :: player where
  "started3 = \<lparr>currentIndex = 0, isPlaying = True, showIntro = False, showOutro = False,
                timer = Some 2500\<rparr>"

definition demo_analysis :: analysis where
  "demo_analysis = \<lparr>a_orderedSlides = None, a_title = ''Trip'', a_vibeKey = ''travel'',
     a_vibeLabel = ''Travel'', a_description = None, a_highlights = Some [0]\<rparr>"

definition demo_recap :: recap where
  "demo_recap = \<lparr>slides = [\<lparr>uri = ''a''\<rparr>, \<lparr>uri = ''b''\<rparr>, \<lparr>uri = ''c''\<rparr>], caption = [],
     title = [], vibeKey = ''hype'', vibeLabel = [], emotion = ''default'', description = [],
     highlights = []\<rparr>"

text \<open>Playing on the last of three slides, one period left.\<close>

definition last3 :: player where
  "last3 = \<lparr>currentIndex = 2, isPlaying = True, showIntro = False, showOutro = False, timer = Some 2500\<rparr>"
section \<open>Player: bounds and refinement\<close>

text \<open>C1: for a non-empty recap, the slide index stays in \<open>[0, n - 1]\<close> under any
  sequence of events (taps, buttons, timer), whether or not the screen offers them.\<close>

theorem player_index_in_range: "0 < n \<Longrightarrow> currentIndex (player_run n (player_init n) es) < n"
  using reachable_player_inv [of n es] by (simp add: player_inv_def index_ok_def)

theorem player_index_in_range_witness:
  "0 < (3::nat) \<and>
   currentIndex (player_run 3 (player_init 3) [PressStartRecap, TapNext, TapNext, TapNext]) < 3"
  using player_index_in_range [of 3 "[PressStartRecap, TapNext, TapNext, TapNext]"] by simp

text \<open>C2: every run of events the rendered screen offers, from the initial state, is
  matched step for step by the run of the specification's transition table that the
  events themselves determine (a button or tap is its transition, a wait is one
  \<open>TimerFires\<close> per interval firing it covers): that run is defined and ends in the
  phase and index the code reaches. The code refines the specified state machine.\<close>

theorem player_refines_spec:
  "enabled_run n (player_init n) es \<Longrightarrow>
   spec_run n (abs_state n (player_init n)) (spec_trace n (player_init n) es)
     = Some (abs_state n (player_run n (player_init n) es))"
  by (rule enabled_run_refines [OF player_init_inv])

theorem player_refines_spec_witness:
  "enabled_run 2 (player_init 2) [PressStartRecap, Elapse 2500, TapPrev] \<and>
   spec_run 2 (abs_state 2 (player_init 2)) (spec_trace 2 (player_init 2) [PressStartRecap, Elapse 2500, TapPrev])
     = Some (abs_state 2 (player_run 2 (player_init 2) [PressStartRecap, Elapse 2500, TapPrev]))"
proof -
  have en: "enabled_run 2 (player_init 2) [PressStartRecap, Elapse 2500, TapPrev]"
    by (simp add: player_init_def player_step_def player_enabled_iff overlay_of_def
        handler_defs sync_interval_def effect_deps_def timer_armed_def SLIDE_DURATION_MS_def
        elapse.simps fire_def)
  show ?thesis using en player_refines_spec [OF en] by simp
qed

text \<open>C3: in every state the app reaches, every slideshow on the navigation stack has
  at least one slide and a valid index: the empty state is unreachable through the
  upload flow.\<close>

theorem app_slideshow_never_empty:
  "app_reachable a \<Longrightarrow> SlideshowScreen r s \<in> set (stack a) \<Longrightarrow>
   render r s \<noteq> EmptyView \<and> currentIndex s < length (slides r)"
proof -
  assume reach: "app_reachable a" and mem: "SlideshowScreen r s \<in> set (stack a)"
  from app_reachable_inv [OF reach] have "list_all screen_ok (stack a)"
    by (simp add: app_inv_def)
  with mem have "screen_ok (SlideshowScreen r s)"
    by (simp add: list_all_iff del: screen_ok.simps)
  then show ?thesis by (auto simp: render_def Let_def player_inv_def index_ok_def)
qed

theorem app_slideshow_never_empty_witness:
  "app_reachable (app_step (app_step (app_step (app_step app_init HomePress)
      (UploadEv (PressAddPhotos True (Assets [''a.jpg''])))) (UploadEv PressContinue))
      (UploadEv (AnalysisSettles (Inr demo_analysis)))) \<and>
   render (decode_params (continue_params [\<lparr>uri = ''a.jpg''\<rparr>] [] demo_analysis))
     (player_init 1) \<noteq> EmptyView"
proof -
  let ?a = "app_step (app_step (app_step (app_step app_init HomePress)
      (UploadEv (PressAddPhotos True (Assets [''a.jpg''])))) (UploadEv PressContinue))
      (UploadEv (AnalysisSettles (Inr demo_analysis)))"
  have reach: "app_reachable ?a"
    by (intro app_reachable.step app_reachable.init)
  have mem: "SlideshowScreen (decode_params (continue_params [\<lparr>uri = ''a.jpg''\<rparr>] [] demo_analysis))
               (player_init 1) \<in> set (stack ?a)"
    by (simp add: app_init_def app_step_def upload_step_def pickImages_def
        handleContinue_press_def handleContinue_settle_def upload_init_def open_slideshow_def
        decode_params_def continue_params_def demo_analysis_def)
  show ?thesis using reach app_slideshow_never_empty [OF reach mem] by simp
qed

section \<open>Player: navigation rules\<close>

text \<open>C4: navigating forward from the last slide never increments the index: it shows
  the outro and keeps the index at \<open>n - 1\<close>.\<close>

theorem forward_from_last_is_outro:
  "0 < n \<Longrightarrow> \<not> showIntro s \<Longrightarrow> currentIndex s = n - 1 \<Longrightarrow>
   phase_of n (player_step n s TapNext) = Outro \<and> currentIndex (player_step n s TapNext) = n - 1"
  by (simp add: player_step_def goNext_def phase_of_def)

theorem forward_from_last_is_outro_witness:
  "phase_of 1 (player_step 1 started3 TapNext) = Outro \<and>
   currentIndex (player_step 1 started3 TapNext) = 0"
  using forward_from_last_is_outro [of 1 started3] by (simp add: started3_def)

text \<open>C5: navigating backward from the first slide, where the screen offers it, changes
  neither the phase, nor the index, nor the interval; the index stored is the value the
  functional updater computes on the JavaScript number, whose \<open>prev === 0\<close> test keeps
  it at 0 instead of \<open>-1\<close>.\<close>

theorem backward_from_first_is_noop:
  "player_enabled n s TapPrev \<Longrightarrow> currentIndex s = 0 \<Longrightarrow>
   abs_state n (player_step n s TapPrev) = abs_state n s \<and> timer (player_step n s TapPrev) = timer s \<and>
   int (currentIndex (player_step n s TapPrev)) = prevIndex (int (currentIndex s))"
  by (simp add: player_enabled_iff overlay_of_def player_step_def goPrev_def abs_state_def
      phase_of_def sync_interval_def effect_deps_def prevIndex_def split: if_splits)

theorem backward_from_first_is_noop_witness:
  "abs_state 3 (player_step 3 started3 TapPrev) = abs_state 3 started3 \<and>
   timer (player_step 3 started3 TapPrev) = Some 2500 \<and>
   int (currentIndex (player_step 3 started3 TapPrev)) = prevIndex 0"
  using backward_from_first_is_noop [of 3 started3]
  by (simp add: started3_def player_enabled_iff overlay_of_def)

text \<open>C6: replaying from the outro resets the index to 0, resumes playing and arms a
  fresh interval with a full period.\<close>

theorem replay_resets:
  "0 < n \<Longrightarrow> overlay_of s = OutroOverlay \<Longrightarrow>
   abs_state n (player_step n s PressReplay) = (Playing, 0) \<and>
   timer (player_step n s PressReplay) = Some SLIDE_DURATION_MS"
  by (simp add: overlay_of_def player_step_def handleReplay_def abs_state_def phase_of_def
      sync_interval_def effect_deps_def timer_armed_def split: if_splits)

theorem replay_resets_witness:
  "abs_state 2 (player_step 2 (started3\<lparr>currentIndex := 1, isPlaying := False,
      showOutro := True, timer := None\<rparr>) PressReplay) = (Playing, 0)"
  using replay_resets [of 2 "started3\<lparr>currentIndex := 1, isPlaying := False,
      showOutro := True, timer := None\<rparr>"]
  by (simp add: started3_def overlay_of_def)

section \<open>Player: the auto-advance interval\<close>

text \<open>C7: from any playing state with its interval armed, letting the pending wait and
  one period per remaining slide pass brings the player to the outro.\<close>

theorem playing_reaches_outro:
  "player_inv n s \<Longrightarrow> timer s = Some r \<Longrightarrow>
   phase_of n (elapse n (r + (n - 1 - currentIndex s) * SLIDE_DURATION_MS) s) = Outro"
proof -
  assume inv: "player_inv n s" and tm: "timer s = Some r"
  then have "0 < n" "currentIndex s < n" "\<not> showIntro s"
    by (auto simp: player_inv_def timer_ok_def timer_armed_def index_ok_def)
  with elapse_to_outro [OF inv tm, of "n - 1 - currentIndex s"] show ?thesis
    by (simp add: phase_of_def)
qed

theorem playing_reaches_outro_witness:
  "phase_of 3 (elapse 3 (2500 + 2 * SLIDE_DURATION_MS) started3) = Outro"
  using playing_reaches_outro [of 3 started3 2500]
  by (simp add: started3_def player_inv_def index_ok_def timer_ok_def outro_ok_def
      timer_armed_def SLIDE_DURATION_MS_def)

text \<open>C8: in every reachable state an interval is armed exactly when the effect's guard
  holds (playing, slides present, no overlay), and it never waits longer than one
  period: there is never a stale or a second interval.\<close>

theorem interval_matches_effect_guard:
  "(timer (player_run n (player_init n) es) \<noteq> None \<longleftrightarrow>
      timer_armed n (player_run n (player_init n) es)) \<and>
   (\<forall>r. timer (player_run n (player_init n) es) = Some r \<longrightarrow> 0 < r \<and> r \<le> SLIDE_DURATION_MS)"
  using reachable_player_inv [of n es]
  by (auto simp: player_inv_def timer_ok_def split: option.splits)

theorem interval_matches_effect_guard_witness:
  "timer_armed 3 (player_run 3 (player_init 3) [PressStartRecap, Elapse 1000]) \<and>
   timer (player_run 3 (player_init 3) [PressStartRecap, Elapse 1000]) = Some 1500"
  using interval_matches_effect_guard [of 3 "[PressStartRecap, Elapse 1000]"]
  by (simp add: player_init_def player_step_def handler_defs sync_interval_def effect_deps_def
      timer_armed_def SLIDE_DURATION_MS_def elapse.simps)

text \<open>C9: a manual forward navigation while playing does not restart the interval: it
  keeps its remaining wait (the dependency array of the effect does not contain
  \<open>currentIndex\<close>). The specification's table says the timer is re-armed.\<close>

theorem manual_forward_keeps_interval_phase:
  "player_inv n s \<Longrightarrow> timer s = Some r \<Longrightarrow> currentIndex s + 1 < n \<Longrightarrow>
   timer (player_step n s TapNext) = Some r \<and>
   currentIndex (player_step n s TapNext) = currentIndex s + 1"
proof -
  assume inv: "player_inv n s" and tm: "timer s = Some r" and nxt: "currentIndex s + 1 < n"
  from inv tm have "\<not> showOutro s" and "n \<noteq> 0"
    by (auto simp: player_inv_def timer_ok_def timer_armed_def)
  with nxt show ?thesis
    by (simp add: player_step_def goNext_def sync_interval_def effect_deps_def tm)
qed

theorem manual_forward_keeps_interval_phase_witness:
  "timer (player_step 3 (started3\<lparr>timer := Some 500\<rparr>) TapNext) = Some 500"
  using manual_forward_keeps_interval_phase [of 3 "started3\<lparr>timer := Some 500\<rparr>" 500]
  by (simp add: started3_def player_inv_def index_ok_def timer_ok_def outro_ok_def
      timer_armed_def SLIDE_DURATION_MS_def)

section \<open>Player: derived values\<close>

text \<open>C10: the scene label is \<open>Opening scene\<close> at index 0, \<open>Closing scene\<close> at
  \<open>n - 1\<close>, \<open>Main energy\<close> at \<open>n div 2\<close> when that is neither, and \<open>Scene\<close>
  elsewhere.\<close>

theorem scene_type_labels:
  "sceneType n 0 = ''Opening scene'' \<and>
   (0 < n - 1 \<longrightarrow> sceneType n (n - 1) = ''Closing scene'') \<and>
   (n div 2 \<noteq> 0 \<longrightarrow> n div 2 \<noteq> n - 1 \<longrightarrow> sceneType n (n div 2) = ''Main energy'') \<and>
   (i \<noteq> 0 \<longrightarrow> i \<noteq> n - 1 \<longrightarrow> i \<noteq> n div 2 \<longrightarrow> sceneType n i = ''Scene'')"
  by (simp add: sceneType_def)

theorem scene_type_labels_witness:
  "sceneType 5 0 = ''Opening scene'' \<and> sceneType 5 4 = ''Closing scene'' \<and>
   sceneType 5 2 = ''Main energy'' \<and> sceneType 5 3 = ''Scene''"
  using scene_type_labels [of 5 3] by simp

text \<open>C11: on a slide, the progress ratio is \<open>(i + 1) / n\<close>, lies in \<open>(0, 1]\<close>, and
  is 1 at the last slide.\<close>

theorem progress_bounds:
  "0 < n \<Longrightarrow> i < n \<Longrightarrow>
   progress n i = of_nat (i + 1) / of_nat n \<and> 0 < progress n i \<and> progress n i \<le> 1 \<and>
   (i = n - 1 \<longrightarrow> progress n i = 1)"
  by (auto simp: progress_def)

theorem progress_bounds_witness: "progress 4 1 = 1 / 2 \<and> progress 4 3 = 1"
  using progress_bounds [of 4 1] progress_bounds [of 4 3] by simp

text \<open>C35: a forward tap or the passing of time never decreases the progress ratio.\<close>

theorem progress_forward_monotone:
  "player_inv n s \<Longrightarrow> e = TapNext \<or> (\<exists>d. e = Elapse d) \<Longrightarrow>
   progress n (currentIndex s) \<le> progress n (currentIndex (player_step n s e))"
proof -
  assume inv: "player_inv n s" and e: "e = TapNext \<or> (\<exists>d. e = Elapse d)"
  from inv have "n \<noteq> 0 \<longrightarrow> currentIndex s < n" by (simp add: player_inv_def index_ok_def)
  then have "currentIndex s \<le> currentIndex (player_step n s e)"
    using e elapse_index_mono [OF inv] by (auto simp: player_step_def goNext_def)
  then show ?thesis by (rule progress_mono)
qed

theorem progress_forward_monotone_witness:
  "progress 3 (currentIndex started3)
     \<le> progress 3 (currentIndex (player_step 3 started3 (Elapse 2500)))"
  using progress_forward_monotone [of 3 started3 "Elapse 2500"]
  by (simp add: started3_def player_inv_def index_ok_def timer_ok_def outro_ok_def
      timer_armed_def SLIDE_DURATION_MS_def)

section \<open>Player: the scenarios of the specification\<close>

text \<open>C12: a recap without slides renders the empty state only, and its player never
  arms an interval and stays in the empty phase whatever happens.\<close>

theorem empty_recap:
  "(render r s = EmptyView \<longleftrightarrow> slides r = []) \<and>
   timer (player_run 0 (player_init 0) es) = None \<and>
   abs_state 0 (player_run 0 (player_init 0) es) = (Empty, 0)"
  using reachable_player_inv [of 0 es]
  by (auto simp: render_def Let_def player_inv_def timer_ok_def timer_armed_def index_ok_def
      abs_state_def phase_of_def split: option.splits)

text \<open>C13: once the intro is dismissed it never comes back.\<close>

theorem intro_not_reentered: "\<not> showIntro s \<Longrightarrow> \<not> showIntro (player_run n s es)"
  by (induction es arbitrary: s) (auto dest: player_step_showIntro)

theorem intro_not_reentered_witness:
  "\<not> showIntro (player_run 3 started3 [PressPlayPause, TapPrev])"
  using intro_not_reentered [of started3 3 "[PressPlayPause, TapPrev]"] by (simp add: started3_def)

section \<open>Upload screen and payload\<close>

text \<open>C14: the slides handed to the slideshow are the service's order when it returned
  a non-empty one and the user's selection otherwise; they are never empty when the
  selection is not.\<close>

theorem payload_slides_fallback:
  "ss \<noteq> [] \<Longrightarrow>
   slides (decode_params (continue_params ss c a)) =
     (case a_orderedSlides a of Some os \<Rightarrow> if os \<noteq> [] then os else ss | None \<Rightarrow> ss) \<and>
   slides (decode_params (continue_params ss c a)) \<noteq> []"
  by (simp add: decode_continue_params_slides split: option.splits)

theorem payload_slides_fallback_witness:
  "slides (decode_params (continue_params [\<lparr>uri = ''a''\<rparr>, \<lparr>uri = ''b''\<rparr>] []
      (demo_analysis\<lparr>a_orderedSlides := Some []\<rparr>))) = [\<lparr>uri = ''a''\<rparr>, \<lparr>uri = ''b''\<rparr>]"
  using payload_slides_fallback [of "[\<lparr>uri = ''a''\<rparr>, \<lparr>uri = ''b''\<rparr>]" "[]"
      "demo_analysis\<lparr>a_orderedSlides := Some []\<rparr>"]
  by simp

text \<open>C15: when the analysis request fails while the upload screen is loading, the
  screen does not navigate: its only effect is the alert \<open>Error\<close> / \<open>Something went
  wrong while generating your recap vibe.\<close>, and its only state change is lowering the
  loading flag (the selection and caption are kept). The specification says the caller
  falls back to the unordered selection with default metadata.\<close>

theorem analysis_failure_stays:
  "upload_inv s \<Longrightarrow> isLoading s \<Longrightarrow>
   upload_step s (AnalysisSettles (Inl u))
     = (s\<lparr>isLoading := False, pending := None\<rparr>,
        [Alert ''Error'' ''Something went wrong while generating your recap vibe.''])"
  by (auto simp: upload_step_def handleContinue_settle_def upload_inv_def split: option.splits)

theorem analysis_failure_stays_witness:
  "upload_step (upload_init\<lparr>u_slides := [\<lparr>uri = ''a''\<rparr>], isLoading := True,
       pending := Some ([\<lparr>uri = ''a''\<rparr>], [])\<rparr>) (AnalysisSettles (Inl ()))
     = (upload_init\<lparr>u_slides := [\<lparr>uri = ''a''\<rparr>], isLoading := False, pending := None\<rparr>,
        [Alert ''Error'' ''Something went wrong while generating your recap vibe.''])"
  using analysis_failure_stays [of "upload_init\<lparr>u_slides := [\<lparr>uri = ''a''\<rparr>], isLoading := True,
       pending := Some ([\<lparr>uri = ''a''\<rparr>], [])\<rparr>" "()"]
  by (simp add: upload_inv_def upload_init_def)

text \<open>The slideshow opened by a successful analysis starts on the intro at index
  0, with the caption typed by the user, the service's title and highlights (none when
  absent), its vibe key (\<open>default\<close> when empty) and its description (empty when
  absent).\<close>

theorem opened_slideshow_state:
  "open_slideshow (continue_params ss c a) = SlideshowScreen r s \<Longrightarrow>
   abs_state (length (slides r)) s = (if slides r = [] then Empty else Intro, 0) \<and>
   caption r = c \<and> title r = a_title a \<and>
   vibeKey r = (if a_vibeKey a = [] then ''default'' else a_vibeKey a) \<and>
   highlights r = (case a_highlights a of None \<Rightarrow> [] | Some hs \<Rightarrow> hs) \<and>
   description r = (case a_description a of None \<Rightarrow> [] | Some d \<Rightarrow> d)"
  by (auto simp: open_slideshow_def decode_params_def continue_params_def Let_def param_or_def
      player_init_def abs_state_def phase_of_def timer_armed_def split: option.splits)

theorem opened_slideshow_state_witness:
  "open_slideshow (continue_params [\<lparr>uri = ''a''\<rparr>] ''Weekend'' demo_analysis)
     = SlideshowScreen (decode_params (continue_params [\<lparr>uri = ''a''\<rparr>] ''Weekend'' demo_analysis))
         (player_init 1) \<and>
   vibeKey (decode_params (continue_params [\<lparr>uri = ''a''\<rparr>] ''Weekend'' demo_analysis)) = ''travel''"
proof -
  have h: "open_slideshow (continue_params [\<lparr>uri = ''a''\<rparr>] ''Weekend'' demo_analysis)
     = SlideshowScreen (decode_params (continue_params [\<lparr>uri = ''a''\<rparr>] ''Weekend'' demo_analysis))
         (player_init 1)"
    by (simp add: open_slideshow_def decode_params_def continue_params_def demo_analysis_def)
  show ?thesis using h opened_slideshow_state [OF h] by (simp add: demo_analysis_def)
qed

text \<open>C17: the upload screen never passes an \<open>emotion\<close> parameter, so a slideshow
  opened from it always decodes the default emotion and never shows the emotion pill.\<close>

theorem emotion_never_shown:
  "prettyEmotion (emotion (decode_params (continue_params ss c a))) = []"
  by (simp add: decode_params_def continue_params_def Let_def prettyEmotion_def)

text \<open>C18: the payload carries the slides and caption of the render in which Continue
  was pressed; a caption edited while the request is outstanding is not sent.\<close>

theorem payload_caption_captured_at_press:
  "u_slides s \<noteq> [] \<Longrightarrow>
   snd (upload_step (fst (upload_step (fst (upload_step s PressContinue)) (EditCaption c')))
          (AnalysisSettles (Inr a)))
     = [Navigate (continue_params (u_slides s) (u_caption s) a)]"
  by (simp add: upload_step_def handleContinue_press_def handleContinue_settle_def)

theorem payload_caption_captured_at_press_witness:
  "snd (upload_step (fst (upload_step (fst (upload_step
      (upload_init\<lparr>u_slides := [\<lparr>uri = ''a''\<rparr>], u_caption := ''old''\<rparr>) PressContinue))
      (EditCaption ''new''))) (AnalysisSettles (Inr demo_analysis)))
     = [Navigate (continue_params [\<lparr>uri = ''a''\<rparr>] ''old'' demo_analysis)]"
  using payload_caption_captured_at_press
      [of "upload_init\<lparr>u_slides := [\<lparr>uri = ''a''\<rparr>], u_caption := ''old''\<rparr>" "''new''" demo_analysis]
  by simp

text \<open>C19: whenever the Continue button is enabled, pressing it raises the loading flag
  and emits no alert: the \<open>Add at least one photo\<close> alert is unreachable from the
  screen, which blocks an empty selection by disabling the button instead.\<close>

theorem empty_selection_alert_unreachable:
  "upload_enabled s PressContinue \<Longrightarrow>
   snd (upload_step s PressContinue) = [] \<and> isLoading (fst (upload_step s PressContinue))"
  by (simp add: upload_enabled_def upload_render_def Let_def upload_step_def handleContinue_press_def)

theorem empty_selection_alert_unreachable_witness:
  "snd (upload_step (upload_init\<lparr>u_slides := [\<lparr>uri = ''a''\<rparr>]\<rparr>) PressContinue) = []"
  using empty_selection_alert_unreachable [of "upload_init\<lparr>u_slides := [\<lparr>uri = ''a''\<rparr>]\<rparr>"]
  by (simp add: upload_enabled_def upload_render_def Let_def upload_init_def)

text \<open>C20: leaving the upload screen with the back button while its analysis request
  is outstanding does not cancel the request: the screen is popped, the request is kept
  with the slides and caption of the press, and when it succeeds the slideshow for that
  selection is pushed on top of the screen the user went back to.\<close>

theorem popped_upload_still_opens_slideshow:
  "stack a = UploadScreen u # rest \<Longrightarrow> rest \<noteq> [] \<Longrightarrow> pending u = Some (ss, c) \<Longrightarrow>
   stack (app_step a RouterBack) = rest \<and>
   orphans (app_step a RouterBack) = (ss, c) # orphans a \<and>
   stack (app_step (app_step a RouterBack) (OrphanSettles 0 (Inr an)))
     = open_slideshow (continue_params ss c an) # rest \<and>
   orphans (app_step (app_step a RouterBack) (OrphanSettles 0 (Inr an))) = orphans a"
  by (simp add: app_step_def router_back_def remove_nth_def)

theorem popped_upload_still_opens_slideshow_witness:
  "stack (app_step (app_step \<lparr>stack = [UploadScreen (upload_init\<lparr>u_slides := [\<lparr>uri = ''a.jpg''\<rparr>],
        isLoading := True, pending := Some ([\<lparr>uri = ''a.jpg''\<rparr>], [])\<rparr>), HomeScreen], orphans = []\<rparr>
        RouterBack) (OrphanSettles 0 (Inr demo_analysis)))
     = [open_slideshow (continue_params [\<lparr>uri = ''a.jpg''\<rparr>] [] demo_analysis), HomeScreen]"
  using popped_upload_still_opens_slideshow
    [of "\<lparr>stack = [UploadScreen (upload_init\<lparr>u_slides := [\<lparr>uri = ''a.jpg''\<rparr>],
        isLoading := True, pending := Some ([\<lparr>uri = ''a.jpg''\<rparr>], [])\<rparr>), HomeScreen], orphans = []\<rparr>"
        "upload_init\<lparr>u_slides := [\<lparr>uri = ''a.jpg''\<rparr>], isLoading := True,
          pending := Some ([\<lparr>uri = ''a.jpg''\<rparr>], [])\<rparr>" "[HomeScreen]" "[\<lparr>uri = ''a.jpg''\<rparr>]" "[]"
        demo_analysis]
  by simp

text \<open>C21: a refused permission and a cancelled picker both leave the selection
  unchanged, but only the refusal is reported (by an alert), as the specification asks.\<close>

theorem picker_denied_vs_cancelled:
  "fst (upload_step s (PressAddPhotos False r)) = s \<and>
   snd (upload_step s (PressAddPhotos False r))
     = [Alert ''Permission needed'' ''We need access to your photos to make a recap.''] \<and>
   upload_step s (PressAddPhotos True Canceled) = (s, [])"
  by (simp add: upload_step_def pickImages_def)

text \<open>Picked photos are appended after the ones already selected, in the
  picker's order, duplicates included.\<close>

theorem picker_appends_in_order:
  "map uri (u_slides (fst (upload_step s (PressAddPhotos True (Assets us)))))
     = map uri (u_slides s) @ us \<and>
   snd (upload_step s (PressAddPhotos True (Assets us))) = []"
  by (simp add: upload_step_def pickImages_def comp_def)

section \<open>Rendering, sharing and decoding\<close>

text \<open>C22: the vibe accent follows the table of the slideshow: hype is orange
  \<open>#F97316\<close>, cozy amber \<open>#FBBF24\<close>, travel green \<open>#22C55E\<close>, friends pink
  \<open>#EC4899\<close>, chill sky blue \<open>#38BDF8\<close>, and every other key (\<open>default\<close>
  included) the default purple \<open>#A855F7\<close>.\<close>
theorem vibe_accent_total:
  "vibeAccent ''hype'' = ''#F97316'' \<and> vibeAccent ''cozy'' = ''#FBBF24'' \<and>
   vibeAccent ''travel'' = ''#22C55E'' \<and> vibeAccent ''friends'' = ''#EC4899'' \<and>
   vibeAccent ''chill'' = ''#38BDF8'' \<and>
   (k \<notin> {''hype'', ''cozy'', ''travel'', ''friends'', ''chill''} \<longrightarrow> vibeAccent k = ''#A855F7'')"
  by (simp add: vibeAccent_def)

theorem vibe_accent_total_witness:
  "vibeAccent ''sunny'' = ''#A855F7'' \<and> vibeAccent ''default'' = ''#A855F7'' \<and>
   vibeAccent ''chill'' = ''#38BDF8''"
proof -
  have a: "vibeAccent ''sunny'' = ''#A855F7''" using vibe_accent_total [of "''sunny''"] by simp
  have b: "vibeAccent ''default'' = ''#A855F7''" using vibe_accent_total [of "''default''"] by simp
  show ?thesis using a b vibe_accent_total [of "''sunny''"] by simp
qed

text \<open>The emotion label is empty for the default or an empty emotion, and otherwise
  the emotion with its first character upper-cased.\<close>
theorem pretty_emotion_label:
  "prettyEmotion ''default'' = [] \<and> prettyEmotion [] = [] \<and>
   (c # cs \<noteq> ''default'' \<longrightarrow> prettyEmotion (c # cs) = toUpperChar c # cs)"
  by (simp add: prettyEmotion_def)

theorem pretty_emotion_label_witness: "prettyEmotion ''nostalgic'' = ''Nostalgic''"
proof -
  have "toUpperChar (CHR ''n'') = CHR ''N''" by code_simp
  then show ?thesis using pretty_emotion_label [of "CHR ''n''" "''ostalgic''"] by simp
qed

text \<open>Sharing hands over the image of the slide being shown (always defined when
  there are slides), never changes the player, and does nothing without slides.\<close>
theorem share_current_slide:
  "ss \<noteq> [] \<Longrightarrow>
   handleShare ss (player_run (length ss) (player_init (length ss)) es)
     = Some (uri (ss ! currentIndex (player_run (length ss) (player_init (length ss)) es))) \<and>
   player_step n s PressShare = s \<and> handleShare [] s = None"
  using reachable_player_inv [of "length ss" es]
  by (simp add: handleShare_def player_step_def player_inv_def index_ok_def)

theorem share_current_slide_witness:
  "handleShare [\<lparr>uri = ''a''\<rparr>, \<lparr>uri = ''b''\<rparr>] (player_run 2 (player_init 2) [PressStartRecap, TapNext]) = Some ''b''"
  using share_current_slide [of "[\<lparr>uri = ''a''\<rparr>, \<lparr>uri = ''b''\<rparr>]" "[PressStartRecap, TapNext]"]
  by (simp add: player_init_def player_step_def handler_defs sync_interval_def effect_deps_def timer_armed_def)

text \<open>C25: absent navigation parameters decode to the documented neutral values: no
  slides, empty texts, vibe key and emotion \<open>default\<close>, no highlights; an
  empty vibe key also falls back to \<open>default\<close>.\<close>
theorem decode_defaults:
  "decode_params \<lparr>p_slides = None, p_caption = None, p_title = None, p_vibeKey = None,
     p_vibeLabel = None, p_emotion = None, p_description = None, p_highlights = None\<rparr>
   = \<lparr>slides = [], caption = [], title = [], vibeKey = ''default'', vibeLabel = [],
      emotion = ''default'', description = [], highlights = []\<rparr> \<and>
   decode_params (p\<lparr>p_vibeKey := Some []\<rparr>) = (decode_params p)\<lparr>vibeKey := ''default''\<rparr>"
  by (simp add: decode_params_def)

text \<open>The header button reads Start on the intro, Replay on the outro, Pause while
  playing and Play while paused.\<close>
theorem button_label_matches_phase:
  "0 < n \<Longrightarrow> playPauseLabel s =
     (case phase_of n s of Intro \<Rightarrow> ''Start'' | Outro \<Rightarrow> ''Replay'' | Playing \<Rightarrow> ''Pause''
      | Paused \<Rightarrow> ''Play'' | Empty \<Rightarrow> [])"
  by (simp add: playPauseLabel_def phase_of_def)

theorem button_label_matches_phase_witness: "playPauseLabel started3 = ''Pause''"
  using button_label_matches_phase [of 3 started3] by (simp add: phase_of_def started3_def)

text \<open>C27: on every upload screen the app reaches, the loading flag is raised exactly
  while an analysis request is outstanding, and then neither Continue nor Add photos
  can be pressed: no second request is sent while one is outstanding.\<close>
theorem no_resubmission_while_outstanding:
  "app_reachable a \<Longrightarrow> UploadScreen u \<in> set (stack a) \<Longrightarrow>
   (isLoading u \<longleftrightarrow> pending u \<noteq> None) \<and>
   (pending u \<noteq> None \<longrightarrow> \<not> upload_enabled u PressContinue \<and> \<not> upload_enabled u (PressAddPhotos g r))"
proof -
  assume reach: "app_reachable a" and mem: "UploadScreen u \<in> set (stack a)"
  from app_reachable_inv [OF reach] have "list_all screen_ok (stack a)"
    by (simp add: app_inv_def)
  with mem have "upload_inv u" by (auto simp: list_all_iff)
  then show ?thesis by (auto simp: upload_inv_def upload_enabled_def upload_render_def Let_def)
qed

theorem no_resubmission_while_outstanding_witness:
  "app_reachable (app_step (app_step (app_step app_init HomePress)
      (UploadEv (PressAddPhotos True (Assets [''a.jpg''])))) (UploadEv PressContinue)) \<and>
   \<not> upload_enabled (upload_init\<lparr>u_slides := [\<lparr>uri = ''a.jpg''\<rparr>], isLoading := True,
        pending := Some ([\<lparr>uri = ''a.jpg''\<rparr>], [])\<rparr>) PressContinue"
proof -
  let ?a = "app_step (app_step (app_step app_init HomePress)
      (UploadEv (PressAddPhotos True (Assets [''a.jpg''])))) (UploadEv PressContinue)"
  let ?u = "upload_init\<lparr>u_slides := [\<lparr>uri = ''a.jpg''\<rparr>], isLoading := True,
        pending := Some ([\<lparr>uri = ''a.jpg''\<rparr>], [])\<rparr>"
  have reach: "app_reachable ?a" by (intro app_reachable.step app_reachable.init)
  have mem: "UploadScreen ?u \<in> set (stack ?a)"
    by (simp add: app_init_def app_step_def upload_step_def pickImages_def
        handleContinue_press_def upload_init_def)
  show ?thesis using reach no_resubmission_while_outstanding [OF reach mem, of True Canceled]
    by (simp add: upload_init_def)
qed

text \<open>C28: the navigation payload round-trips: what the slideshow screen decodes from
  the \<open>params\<close> that the upload screen pushes is the recap the upload screen meant:
  the service's order of the slides when it is non-empty (the selection otherwise), the
  caption typed, the service's title, vibe key (\<open>default\<close> when empty), vibe label,
  description and highlights (empty when absent), and the neutral \<open>default\<close>
  emotion, since no emotion is passed.\<close>
theorem navigation_payload_roundtrip:
  "decode_params (continue_params ss c a) =
     \<lparr>slides = (case a_orderedSlides a of None \<Rightarrow> ss | Some os \<Rightarrow> if os = [] then ss else os),
      caption = c, title = a_title a,
      vibeKey = (if a_vibeKey a = [] then ''default'' else a_vibeKey a),
      vibeLabel = a_vibeLabel a, emotion = ''default'',
      description = (case a_description a of None \<Rightarrow> [] | Some d \<Rightarrow> d),
      highlights = (case a_highlights a of None \<Rightarrow> [] | Some hs \<Rightarrow> hs)\<rparr>"
  by (simp add: decode_params_def continue_params_def Let_def param_or_def split: option.splits)

section \<open>Timing of a whole recap\<close>

text \<open>C29: started on a recap of \<open>n\<close> slides and left alone, the player is still
  playing the last slide 1 ms before \<open>n\<close> periods have passed and shows the outro
  exactly when they have: a recap lasts \<open>n \<times> 2500\<close> ms.\<close>

theorem recap_duration:
  "0 < n \<Longrightarrow>
   abs_state n (player_run n (player_init n) [PressStartRecap, Elapse (n * SLIDE_DURATION_MS - 1)])
     = (Playing, n - 1) \<and>
   abs_state n (player_run n (player_init n) [PressStartRecap, Elapse (n * SLIDE_DURATION_MS)])
     = (Outro, n - 1)"
proof -
  assume n: "0 < n"
  let ?s = "player_run n (player_init n) [PressStartRecap]"
  have s: "?s = \<lparr>currentIndex = 0, isPlaying = True, showIntro = False, showOutro = False,
        timer = Some SLIDE_DURATION_MS\<rparr>" using n by (rule started_state)
  have inv: "player_inv n ?s" by (rule reachable_player_inv)
  have tm: "timer ?s = Some SLIDE_DURATION_MS" using s by simp
  have D: "0 < SLIDE_DURATION_MS" by (simp add: SLIDE_DURATION_MS_def)
  have e1: "n * SLIDE_DURATION_MS - 1 = (SLIDE_DURATION_MS - 1) + (n - 1) * SLIDE_DURATION_MS"
    using n D by (cases n) (simp_all add: algebra_simps)
  have e2: "n * SLIDE_DURATION_MS = SLIDE_DURATION_MS + (n - 1) * SLIDE_DURATION_MS"
    using n by (cases n) simp_all
  have p: "elapse n (n * SLIDE_DURATION_MS - 1) ?s
             = ?s\<lparr>currentIndex := n - 1, timer := Some 1\<rparr>"
    using elapse_partial [OF inv tm, of "SLIDE_DURATION_MS - 1" "n - 1"] e1 s n D by simp
  have q: "elapse n (n * SLIDE_DURATION_MS) ?s
             = ?s\<lparr>currentIndex := n - 1, isPlaying := False, showOutro := True, timer := None\<rparr>"
    using elapse_to_outro [OF inv tm, of "n - 1"] e2 s n by simp
  have run: "\<And>d. player_run n (player_init n) [PressStartRecap, Elapse d] = elapse n d ?s"
    by (simp add: player_step_def)
  have s2: "player_step n (player_init n) PressStartRecap
     = \<lparr>currentIndex = 0, isPlaying = True, showIntro = False, showOutro = False,
        timer = Some SLIDE_DURATION_MS\<rparr>" using s by simp
  show ?thesis
    unfolding run p q by (simp add: s2 abs_state_def phase_of_def n)
qed

theorem recap_duration_witness:
  "abs_state 3 (player_run 3 (player_init 3) [PressStartRecap, Elapse 7499]) = (Playing, 2) \<and>
   abs_state 3 (player_run 3 (player_init 3) [PressStartRecap, Elapse 7500]) = (Outro, 2)"
  using recap_duration [of 3] by (simp add: SLIDE_DURATION_MS_def)

section \<open>The interval against the event loop's clock\<close>

text \<open>C30: the event loop's clock, run one millisecond at a time (\<open>clock\<close>), agrees
  with letting time pass from firing to firing (\<open>elapse\<close>) in every state satisfying
  the player invariant, and it moves the slides as the interval promises: from a state
  whose interval fires in \<open>r\<close> ms, \<open>e < r\<close> ms and \<open>k\<close> further periods later the
  player shows slide \<open>i + k\<close> (while that is a slide) with \<open>r - e\<close> ms left, and
  \<open>r\<close> ms and \<open>n - 1 - i\<close> further periods later it shows the outro of the last
  slide and has cleared the interval.\<close>

theorem elapse_equals_ms_clock:
  "player_inv n s \<Longrightarrow> timer s = Some r \<Longrightarrow>
   elapse n d s = clock n d s \<and>
   (e < r \<longrightarrow> currentIndex s + k < n \<longrightarrow>
      clock n (e + k * SLIDE_DURATION_MS) s = s\<lparr>currentIndex := currentIndex s + k, timer := Some (r - e)\<rparr>) \<and>
   (currentIndex s + k = n - 1 \<longrightarrow>
      clock n (r + k * SLIDE_DURATION_MS) s
        = s\<lparr>currentIndex := n - 1, isPlaying := False, showOutro := True, timer := None\<rparr>)"
proof -
  assume inv: "player_inv n s" and tm: "timer s = Some r"
  have c: "\<And>d. clock n d s = elapse n d s" using elapse_clock [OF inv] by simp
  show ?thesis
    unfolding c using elapse_partial [OF inv tm] elapse_to_outro [OF inv tm] by simp
qed

theorem elapse_equals_ms_clock_witness:
  "clock 3 6000 started3 = elapse 3 6000 started3 \<and>
   clock 3 3500 started3 = started3\<lparr>currentIndex := 1, timer := Some 1500\<rparr> \<and>
   clock 3 7500 started3 = started3\<lparr>currentIndex := 2, isPlaying := False, showOutro := True, timer := None\<rparr>"
proof -
  have h: "player_inv 3 started3"
    by (simp add: started3_def player_inv_def index_ok_def timer_ok_def outro_ok_def
        timer_armed_def SLIDE_DURATION_MS_def)
  have tm: "timer started3 = Some 2500" by (simp add: started3_def)
  have i: "currentIndex started3 = 0" by (simp add: started3_def)
  show ?thesis
    using elapse_equals_ms_clock [OF h tm, of 6000 1000 1] elapse_equals_ms_clock [OF h tm, of 0 0 2] i
    by (simp add: SLIDE_DURATION_MS_def)
qed

text \<open>C31: the interval, left running, stops: from any state satisfying the invariant
  it is cleared after finitely many firings; when it was armed it ends on the outro of
  the last slide, in the state that letting the pending wait and one period per
  remaining slide pass produces.\<close>

theorem interval_play_out_terminates:
  "player_inv n s \<Longrightarrow>
   \<exists>s'. play_out n s = Some s' \<and> timer s' = None \<and>
        (timer s \<noteq> None \<longrightarrow> showOutro s' \<and> currentIndex s' = n - 1 \<and>
           (\<forall>r. timer s = Some r \<longrightarrow>
                  s' = elapse n (r + (n - 1 - currentIndex s) * SLIDE_DURATION_MS) s))"
proof (cases "timer s")
  case None
  then show "player_inv n s \<Longrightarrow> ?thesis" by (simp add: play_out_idle)
next
  case (Some r)
  assume inv: "player_inv n s"
  then have "currentIndex s < n" using Some
    by (auto simp: player_inv_def index_ok_def timer_ok_def timer_armed_def)
  then have k: "currentIndex s + (n - 1 - currentIndex s) = n - 1" by simp
  show ?thesis
    using play_out_outro [OF inv Some k] elapse_to_outro [OF inv Some k] Some by simp
qed

theorem interval_play_out_terminates_witness:
  "player_inv 3 started3 \<and> play_out 3 started3 \<noteq> None"
proof -
  have h: "player_inv 3 started3"
    by (simp add: started3_def player_inv_def index_ok_def timer_ok_def outro_ok_def
        timer_armed_def SLIDE_DURATION_MS_def)
  show ?thesis using h interval_play_out_terminates [OF h] by auto
qed

section \<open>What the screens show\<close>

text \<open>C32: every rendered frame is well formed: with the player invariant, a recap
  without slides renders the empty state, and otherwise the frame shows an image of the
  recap, one of the four scene labels, one of the four button labels, one of the six
  accents, a progress ratio in \<open>(0, 1]\<close> with a bar that many percent wide, an overlay
  card exactly when an overlay is shown, and never an empty emotion pill.\<close>

theorem render_well_formed:
  assumes "player_inv (length (slides r)) s"
  shows "case render r s of EmptyView \<Rightarrow> slides r = [] | FrameView fr \<Rightarrow> frame_wf r fr"
proof (cases "slides r = []")
  case True
  then show ?thesis by (simp add: render_def)
next
  case False
  with assms have i: "currentIndex s < length (slides r)"
    by (simp add: player_inv_def index_ok_def)
  then have "uri (slides r ! currentIndex s) \<in> set (map uri (slides r))" by simp
  with i False view_labels(1) [of "length (slides r)" "currentIndex s"]
    view_labels(2) [of s] view_labels(3) [of "vibeKey r"] show ?thesis
    by (simp add: render_def Let_def frame_wf_def progress_in_unit progressBarWidth_def
        overlayCard_None)
qed

theorem render_well_formed_witness:
  "player_inv 3 started3 \<and>
   (case render demo_recap started3 of EmptyView \<Rightarrow> False | FrameView fr \<Rightarrow> frame_wf demo_recap fr)"
proof -
  have inv: "player_inv 3 started3"
    by (simp add: started3_def player_inv_def index_ok_def timer_ok_def outro_ok_def
        timer_armed_def SLIDE_DURATION_MS_def)
  have n: "length (slides demo_recap) = 3" and ne: "slides demo_recap \<noteq> []"
    by (simp_all add: demo_recap_def)
  from inv n have "case render demo_recap started3 of EmptyView \<Rightarrow> slides demo_recap = []
                     | FrameView fr \<Rightarrow> frame_wf demo_recap fr"
    using render_well_formed [of demo_recap started3] by simp
  with inv ne show ?thesis by (simp split: screen_view.splits)
qed

text \<open>C33: the React keys of the upload thumbnails (\<open>slide.uri + idx\<close>) are
  distinct, the same image picked twice included, whenever no image URI ends in a
  decimal digit.\<close>

theorem thumbnail_keys_distinct:
  assumes "\<forall>sl \<in> set ss. uri sl = [] \<or> \<not> is_digit (last (uri sl))"
  shows "distinct (map fst (thumbnails ss))"
proof -
  have "inj_on (\<lambda>x. uri (snd x) @ decimal (fst x)) (set (enumerate 0 ss))"
  proof (rule inj_onI)
    fix x y
    assume x: "x \<in> set (enumerate 0 ss)" and y: "y \<in> set (enumerate 0 ss)"
      and eq: "uri (snd x) @ decimal (fst x) = uri (snd y) @ decimal (fst y)"
    from x have xi: "fst x < length ss" "snd x = ss ! fst x"
      by (simp_all add: in_set_enumerate_eq)
    from y have yj: "fst y < length ss" "snd y = ss ! fst y"
      by (simp_all add: in_set_enumerate_eq)
    from assms xi yj have "fst x = fst y"
      by (intro thumbnail_key_inj [OF _ _ eq]) (simp_all add: nth_mem)
    with xi yj show "x = y" by (simp add: prod_eq_iff)
  qed
  then show ?thesis
    by (simp add: thumbnails_def distinct_map comp_def split_def)
qed

theorem thumbnail_keys_distinct_witness:
  "\<not> is_digit (last ''a.jpg'') \<and>
   distinct (map fst (thumbnails [\<lparr>uri = ''a.jpg''\<rparr>, \<lparr>uri = ''a.jpg''\<rparr>]))"
proof -
  have h: "\<forall>sl \<in> set [\<lparr>uri = ''a.jpg''\<rparr>, \<lparr>uri = ''a.jpg''\<rparr>]. uri sl = [] \<or> \<not> is_digit (last (uri sl))"
    by (simp add: is_digit_def)
  show ?thesis using thumbnail_keys_distinct [OF h] by (simp add: is_digit_def)
qed

text \<open>C34: without that condition the keys collide: when the photo at a position
  \<open>i < 10\<close> has the URI \<open>u1\<close> and the photo ten places further has the URI
  \<open>u\<close>, both get the key \<open>u1i\<close> (e.g. \<open>x11\<close> for the second and the twelfth).\<close>

theorem thumbnail_keys_collide:
  "i < 10 \<Longrightarrow> 10 + i < length ss \<Longrightarrow> uri (ss ! i) = u @ ''1'' \<Longrightarrow> uri (ss ! (10 + i)) = u \<Longrightarrow>
   \<not> distinct (map fst (thumbnails ss))"
proof -
  assume i: "i < 10" and l: "10 + i < length ss"
    and a: "uri (ss ! i) = u @ ''1''" and b: "uri (ss ! (10 + i)) = u"
  have eq: "map fst (thumbnails ss) ! i = map fst (thumbnails ss) ! (10 + i)"
    using l a b by (simp add: thumbnail_key_nth decimal_ten_plus [OF i])
  have li: "i < length (map fst (thumbnails ss))" and lj: "10 + i < length (map fst (thumbnails ss))"
    using l by (simp_all add: thumbnails_def)
  show ?thesis
  proof
    assume d: "distinct (map fst (thumbnails ss))"
    from nth_eq_iff_index_eq [OF d li lj] eq show False by simp
  qed
qed

theorem thumbnail_keys_collide_witness:
  "\<not> distinct (map fst (thumbnails (map (\<lambda>u. \<lparr>uri = u\<rparr>) (''a'' # ''x1'' # replicate 9 ''b'' @ [''x'']))))"
  using thumbnail_keys_collide [of 1 "map (\<lambda>u. \<lparr>uri = u\<rparr>) (''a'' # ''x1'' # replicate 9 ''b'' @ [''x''])" "''x''"]
  by (simp add: nth_append)

text \<open>The slideshow that a successful analysis opens renders its intro over
  the first slide, with the caption typed on the upload screen at the press as the
  card's subtitle, and the fixed invitation when that caption was empty.\<close>

theorem intro_card_shows_captured_caption:
  assumes "open_slideshow (continue_params ss c a) = SlideshowScreen r s" and "ss \<noteq> []"
  shows "\<exists>fr. render r s = FrameView fr \<and> f_overlay fr = IntroOverlay \<and>
           f_uri fr = uri (hd (slides r)) \<and>
           f_card fr = Some (''We cut your moments into a short movie.'',
             if c = [] then ''We ordered your best scenes and built a quick recap you can watch like a movie.''
             else c)"
proof -
  from assms(1) have r: "r = decode_params (continue_params ss c a)"
    and s: "s = player_init (length (slides r))"
    by (auto simp: open_slideshow_def Let_def)
  from assms(2) r have ne: "slides r \<noteq> []"
    by (simp add: decode_continue_params_slides split: option.splits)
  from r have cap: "caption r = c"
    by (simp add: decode_params_def continue_params_def Let_def param_or_def)
  from ne s cap show ?thesis
    by (simp add: render_def Let_def player_init_def overlayCard_def overlay_of_def introCard_def
        hd_conv_nth)
qed

theorem intro_card_shows_captured_caption_witness:
  "\<exists>fr. render (decode_params (continue_params [\<lparr>uri = ''a''\<rparr>] ''Weekend'' demo_analysis))
          (player_init 1) = FrameView fr \<and>
        f_card fr = Some (''We cut your moments into a short movie.'', ''Weekend'')"
proof -
  have h: "open_slideshow (continue_params [\<lparr>uri = ''a''\<rparr>] ''Weekend'' demo_analysis)
     = SlideshowScreen (decode_params (continue_params [\<lparr>uri = ''a''\<rparr>] ''Weekend'' demo_analysis))
         (player_init 1)"
    by (simp add: open_slideshow_def decode_params_def continue_params_def demo_analysis_def)
  show ?thesis using intro_card_shows_captured_caption [OF h] by auto
qed

text \<open>C23: a touch on the slideshow frame moves backward exactly when no overlay is
  shown and it lands in the left 30% of the frame between the two 18-point letterbox
  bars, and forward exactly when no overlay is shown and it lands in the right 30%
  between the bars; the bars, the overlay (\<open>zIndex\<close> 4 over the zones' 3) and the
  middle of the frame take every other touch.\<close>

theorem touch_routes_taps:
  "(touch_event (touch_target g s x y) = Some TapPrev \<longleftrightarrow>
      overlay_of s = NoOverlay \<and> 0 \<le> x \<and> x < tapZone_width (g_width g) \<and>
      letterbox_height \<le> y \<and> y < g_height g - letterbox_height) \<and>
   (touch_event (touch_target g s x y) = Some TapNext \<longleftrightarrow>
      overlay_of s = NoOverlay \<and> g_width g - tapZone_width (g_width g) \<le> x \<and> x < g_width g \<and>
      letterbox_height \<le> y \<and> y < g_height g - letterbox_height)"
  by (auto simp: touch_event_tap touch_zone wrapper_container container_zone inside_def
      tapZoneLeft_box_def tapZoneRight_box_def tapZone_width_def letterbox_height_def)

section \<open>The slide-in animation against the interval\<close>

text \<open>C26: left alone after Start or Replay (when the slide's animation started with
  the interval's period), each slide's animation restarts exactly when auto-advance
  shows it, so its age is the time elapsed in the current period; and so every slide is
  at rest, at full scale and opacity whatever the easing curve, during the last 1100 ms
  before each auto-advance: the 1400 ms Ken Burns and the 450 ms fade-in of a slide
  always finish within its 2500 ms period.\<close>

theorem slide_at_rest_before_advance:
  assumes "player_inv n s" and "anim_ok s a" and "timer (elapse n d s) = Some r"
    and "r \<le> 1100"
  shows "elapse_anim n d s a = Some (SLIDE_DURATION_MS - r) \<and>
         scale_at ease (elapse_anim n d s a) = 1 \<and> opacity_at ease (elapse_anim n d s a) = 1"
proof -
  from elapse_anim_ok [OF assms(1,2), of d] assms(3)
  have "elapse_anim n d s a = Some (SLIDE_DURATION_MS - r)" by (simp add: anim_ok_def)
  moreover from assms(4) have "KEN_BURNS_MS \<le> SLIDE_DURATION_MS - r"
    by (simp add: SLIDE_DURATION_MS_def KEN_BURNS_MS_def)
  ultimately show ?thesis by (simp add: at_rest)
qed

theorem slide_at_rest_before_advance_witness:
  "player_inv 3 started3 \<and> anim_ok started3 (Some 0) \<and> timer (elapse 3 2000 started3) = Some 500 \<and>
   scale_at (\<lambda>x. x) (elapse_anim 3 2000 started3 (Some 0)) = 1 \<and>
   opacity_at (\<lambda>x. x) (elapse_anim 3 2000 started3 (Some 0)) = 1"
proof -
  have inv: "player_inv 3 started3"
    by (simp add: started3_def player_inv_def index_ok_def timer_ok_def outro_ok_def
        timer_armed_def SLIDE_DURATION_MS_def)
  have ok: "anim_ok started3 (Some 0)" by (simp add: anim_ok_def started3_def SLIDE_DURATION_MS_def)
  have tm: "timer (elapse 3 2000 started3) = Some 500" by (simp add: started3_def elapse_below)
  have "elapse_anim 3 2000 started3 (Some 0) = Some (SLIDE_DURATION_MS - 500) \<and>
        scale_at (\<lambda>x. x) (elapse_anim 3 2000 started3 (Some 0)) = 1 \<and>
        opacity_at (\<lambda>x. x) (elapse_anim 3 2000 started3 (Some 0)) = 1"
    by (rule slide_at_rest_before_advance [OF inv ok tm]) (simp add: SLIDE_DURATION_MS_def KEN_BURNS_MS_def)
  with inv ok tm show ?thesis by blast
qed

text \<open>A manual forward tap restarts the animation but keeps the interval's phase, so
  the next auto-advance can cut the Ken Burns short: 2000 ms after Start on three
  slides a tap shows slide 1, which is replaced 500 ms into its 1400 ms animation.\<close>

theorem tap_cuts_slide_in:
  "currentIndex (player_step 3 (elapse 3 2000 started3) TapNext) = 1 \<and>
   anim_after 3 (elapse 3 2000 started3) TapNext (Some 2000) = Some 0 \<and>
   timer (player_step 3 (elapse 3 2000 started3) TapNext) = Some 500 \<and>
   500 < KEN_BURNS_MS"
  by (simp add: started3_def elapse_below player_step_def goNext_def sync_interval_def effect_deps_def
      anim_after_def slide_in_calls_def direct_slide_ins_def animateSlideIn_def KEN_BURNS_MS_def)

section \<open>Batched updates\<close>

text \<open>C24: whatever handler calls React batches into one render (taps, buttons,
  interval firings, all reading the values of the same render), the slide index stays
  on a slide. This rests on the functional updates: \<open>Math.min\<close> in \<open>goNext\<close>, which
  the stale last-slide test makes necessary, the \<open>=== 0\<close> test in \<open>goPrev\<close> and the
  last-slide test in the interval's updater.\<close>

theorem batched_index_in_range:
  assumes "0 < n" and "currentIndex s < n"
  shows "currentIndex (batch_render n s cs) < n"
proof -
  have "\<forall>j. SetIndex j \<in> set (index_queue (concat (map (handler_updates n s) cs))) \<longrightarrow> j < n"
    using assms(1) by (auto simp: index_queue_concat dest: handler_sets_zero)
  from run_index_lt [OF assms this] show ?thesis
    by (simp add: batch_render_def render_updates_def split_beta)
qed
theorem batched_index_in_range_witness:
  "0 < (3::nat) \<and> currentIndex (started3\<lparr>currentIndex := 1\<rparr>) < 3 \<and>
   currentIndex (batch_render 3 (started3\<lparr>currentIndex := 1\<rparr>) [CallGoNext, CallGoNext, CallTick]) = 2"
  using batched_index_in_range [of 3 "started3\<lparr>currentIndex := 1\<rparr>" "[CallGoNext, CallGoNext, CallTick]"]
  by (simp add: batch_render_def render_updates_def started3_def)

section \<open>Controls of the slideshow\<close>

section \<open>Navigation of the app\<close>

text \<open>C16: from every state the app can reach, the user can always get back to the
  home screen: each screen above it offers a back control (the upload screen's header
  button, the slideshow's close or Back button), and one press per screen above home
  brings the home screen back on top, alone on the stack.\<close>

theorem back_returns_home:
  assumes "app_reachable a"
  shows "stack (((\<lambda>b. app_step b RouterBack) ^^ (length (stack a) - 1)) a) = [HomeScreen] \<and>
         (\<forall>j < length (stack a) - 1. app_enabled (((\<lambda>b. app_step b RouterBack) ^^ j) a) RouterBack)"
proof -
  from app_reachable_rooted [OF assms] have ne: "stack a \<noteq> []" and lst: "last (stack a) = HomeScreen"
    and nb: "HomeScreen \<notin> set (butlast (stack a))" by (simp_all add: home_rooted_def)
  have "stack (((\<lambda>b. app_step b RouterBack) ^^ (length (stack a) - 1)) a) = [last (stack a)]"
    using ne drop_to_last [OF ne] by (simp add: back_presses_pop)
  moreover have "app_enabled (((\<lambda>b. app_step b RouterBack) ^^ j) a) RouterBack"
    if j: "j < length (stack a) - 1" for j
  proof -
    from j have "stack a ! j \<in> set (butlast (stack a))" by (simp add: nth_butlast [symmetric])
    with nb have "stack a ! j \<noteq> HomeScreen" by auto
    with j show ?thesis by (simp add: back_presses_pop back_enabled Cons_nth_drop_Suc [symmetric])
  qed
  ultimately show ?thesis using lst by simp
qed
theorem back_returns_home_witness:
  "app_reachable (app_step app_init HomePress) \<and>
   stack (((\<lambda>b. app_step b RouterBack) ^^ 1) (app_step app_init HomePress)) = [HomeScreen] \<and>
   app_enabled (app_step app_init HomePress) RouterBack"
proof -
  have reach: "app_reachable (app_step app_init HomePress)"
    by (intro app_reachable.step app_reachable.init)
  have len: "length (stack (app_step app_init HomePress)) = 2"
    by (simp add: app_step_def app_init_def)
  show ?thesis using reach back_returns_home [OF reach] len by simp
qed

section \<open>The interval's impure updater\<close>

text \<open>The interval's \<open>setCurrentIndex\<close> updater calls \<open>setIsPlaying(false)\<close> and
  \<open>setShowOutro(true)\<close> while it runs, so what a render shows depends on when React
  runs it. When the last firing and a backward tap share a render, running it during
  the render shows the credits over the second of three slides, breaking the player
  invariant (the outro belongs to the last slide); running it when called (React's
  eager path for a hook without pending updates) leaves the player paused on that
  slide without credits. Either way the index is the same
  (\<open>batch_orders_same_index\<close>).\<close>

theorem tick_batched_with_back:
  "batch_render 3 last3 [CallTick, CallGoPrev] =
     last3\<lparr>currentIndex := 1, isPlaying := False, showOutro := True, timer := None\<rparr> \<and>
   batch_render_eager 3 last3 [CallTick, CallGoPrev] =
     last3\<lparr>currentIndex := 1, isPlaying := False, showOutro := False, timer := None\<rparr> \<and>
   \<not> player_inv 3 (batch_render 3 last3 [CallTick, CallGoPrev])"
  by (simp add: batch_render_def batch_render_eager_def render_updates_def last3_def sync_interval_def
      effect_deps_def timer_armed_def player_inv_def outro_ok_def)
end
